theory Spec2Isabelle
  imports Complex_Main
begin

section \<open>JavaScript numbers\<close>

text \<open>
  A JavaScript number is a finite double, \<open>NaN\<close>, \<open>+Infinity\<close> or \<open>-Infinity\<close>.
  A finite double is a real number. The operations \<open>jadd\<close>, \<open>jmul\<close>, \<open>jdiv\<close> below
  give the exact result; where a definition of this development has to agree with the code
  to the last bit (a frame count, a position kept in a \<open>Float32Array\<close>, the samples of
  the limiter), the exact result is rounded with \<open>r64\<close>, as every arithmetic operation of
  the code rounds to the nearest double, and a store into a \<open>Float32Array\<close> is rounded
  with \<open>r32\<close>. Elsewhere the rounding is left out, and the value modelled is the one the
  code computes up to rounding. The sign of zero is not modelled. The non-finite values are
  kept apart, because the code tests for them and because they propagate through arithmetic
  by their own rules.
\<close>

datatype jsnum = Fin real | PInf | NInf | NaN

fun isFinite :: "jsnum \<Rightarrow> bool" where
  "isFinite (Fin x) = True"
| "isFinite PInf = False"
| "isFinite NInf = False"
| "isFinite NaN = False"

text \<open>\<open>x || d\<close> on numbers: the falsy numbers are \<open>0\<close> and \<open>NaN\<close>.\<close>

fun js_or :: "jsnum \<Rightarrow> jsnum \<Rightarrow> jsnum" where
  "js_or (Fin x) d = (if x = 0 then d else Fin x)"
| "js_or NaN d = d"
| "js_or PInf d = PInf"
| "js_or NInf d = NInf"

fun jadd :: "jsnum \<Rightarrow> jsnum \<Rightarrow> jsnum" where
  "jadd (Fin a) (Fin b) = Fin (a + b)"
| "jadd NaN _ = NaN"
| "jadd _ NaN = NaN"
| "jadd PInf NInf = NaN"
| "jadd NInf PInf = NaN"
| "jadd PInf _ = PInf"
| "jadd _ PInf = PInf"
| "jadd NInf _ = NInf"
| "jadd _ NInf = NInf"

fun jneg :: "jsnum \<Rightarrow> jsnum" where
  "jneg (Fin a) = Fin (- a)"
| "jneg PInf = NInf"
| "jneg NInf = PInf"
| "jneg NaN = NaN"

definition jsub :: "jsnum \<Rightarrow> jsnum \<Rightarrow> jsnum" where
  "jsub a b = jadd a (jneg b)"

text \<open>The sign of an infinity times a finite factor; zero times infinity is \<open>NaN\<close>.\<close>

definition inf_signed :: "bool \<Rightarrow> jsnum" where
  "inf_signed positive = (if positive then PInf else NInf)"

fun jmul :: "jsnum \<Rightarrow> jsnum \<Rightarrow> jsnum" where
  "jmul (Fin a) (Fin b) = Fin (a * b)"
| "jmul NaN _ = NaN"
| "jmul _ NaN = NaN"
| "jmul PInf (Fin b) = (if b = 0 then NaN else inf_signed (0 < b))"
| "jmul NInf (Fin b) = (if b = 0 then NaN else inf_signed (b < 0))"
| "jmul (Fin a) PInf = (if a = 0 then NaN else inf_signed (0 < a))"
| "jmul (Fin a) NInf = (if a = 0 then NaN else inf_signed (a < 0))"
| "jmul PInf PInf = PInf"
| "jmul NInf NInf = PInf"
| "jmul PInf NInf = NInf"
| "jmul NInf PInf = NInf"

text \<open>
  Division: a finite non-zero number over zero is an infinity (zero is taken as \<open>+0\<close>),
  zero over zero and infinity over infinity are \<open>NaN\<close>.
\<close>

fun jdiv :: "jsnum \<Rightarrow> jsnum \<Rightarrow> jsnum" where
  "jdiv (Fin a) (Fin b) =
     (if b = 0 then (if a = 0 then NaN else inf_signed (0 < a)) else Fin (a / b))"
| "jdiv NaN _ = NaN"
| "jdiv _ NaN = NaN"
| "jdiv (Fin a) PInf = Fin 0"
| "jdiv (Fin a) NInf = Fin 0"
| "jdiv PInf (Fin b) = inf_signed (0 \<le> b)"
| "jdiv NInf (Fin b) = inf_signed (b < 0)"
| "jdiv PInf PInf = NaN"
| "jdiv PInf NInf = NaN"
| "jdiv NInf PInf = NaN"
| "jdiv NInf NInf = NaN"

text \<open>\<open>Math.max\<close> and \<open>Math.min\<close> of two numbers: \<open>NaN\<close> if either is \<open>NaN\<close>.\<close>

fun jmax :: "jsnum \<Rightarrow> jsnum \<Rightarrow> jsnum" where
  "jmax (Fin a) (Fin b) = Fin (max a b)"
| "jmax NaN _ = NaN"
| "jmax _ NaN = NaN"
| "jmax PInf _ = PInf"
| "jmax _ PInf = PInf"
| "jmax NInf b = b"
| "jmax a NInf = a"

fun jmin :: "jsnum \<Rightarrow> jsnum \<Rightarrow> jsnum" where
  "jmin (Fin a) (Fin b) = Fin (min a b)"
| "jmin NaN _ = NaN"
| "jmin _ NaN = NaN"
| "jmin NInf _ = NInf"
| "jmin _ NInf = NInf"
| "jmin PInf b = b"
| "jmin a PInf = a"

fun jfloor :: "jsnum \<Rightarrow> jsnum" where
  "jfloor (Fin a) = Fin (of_int \<lfloor>a\<rfloor>)"
| "jfloor PInf = PInf"
| "jfloor NInf = NInf"
| "jfloor NaN = NaN"

text \<open>
  Rounding to the nearest, ties to even. \<open>fl p emin x\<close> is the real \<open>x\<close> rounded to a
  binary format with \<open>p\<close> significant bits whose smallest unit in the last place is
  \<open>2^emin\<close> (the subnormal range), and with no largest exponent: \<open>x\<close> is divided by
  its unit in the last place, rounded to an integer, and multiplied back.
\<close>

definition round_even :: "real \<Rightarrow> int" where
  "round_even x =
     (if frac x < 1 / 2 then \<lfloor>x\<rfloor>
      else if 1 / 2 < frac x then \<lfloor>x\<rfloor> + 1
      else if even \<lfloor>x\<rfloor> then \<lfloor>x\<rfloor> else \<lfloor>x\<rfloor> + 1)"

definition ulp_exp :: "nat \<Rightarrow> int \<Rightarrow> real \<Rightarrow> int" where
  "ulp_exp p emin x = max emin (\<lfloor>log 2 \<bar>x\<bar>\<rfloor> - int p + 1)"

definition fl :: "nat \<Rightarrow> int \<Rightarrow> real \<Rightarrow> real" where
  "fl p emin x =
     (if x = 0 then 0
      else real_of_int (round_even (x / 2 powi ulp_exp p emin x)) * 2 powi ulp_exp p emin x)"

text \<open>Doubles have 53 bits and subnormals down to \<open>2^-1074\<close>, floats 24 bits and \<open>2^-149\<close>.\<close>

definition fl64 :: "real \<Rightarrow> real" where
  "fl64 = fl 53 (- 1074)"

definition fl32 :: "real \<Rightarrow> real" where
  "fl32 = fl 24 (- 149)"

text \<open>
  The result of an arithmetic operation, given its exact value: the nearest double, or an
  infinity when that lies beyond the largest double. \<open>r32\<close> is the same for a store into
  a \<open>Float32Array\<close>.
\<close>

fun r64 :: "jsnum \<Rightarrow> jsnum" where
  "r64 (Fin x) = (if 2 powi 1024 \<le> \<bar>fl64 x\<bar> then inf_signed (0 < x) else Fin (fl64 x))"
| "r64 PInf = PInf"
| "r64 NInf = NInf"
| "r64 NaN = NaN"

fun r32 :: "jsnum \<Rightarrow> jsnum" where
  "r32 (Fin x) = (if 2 powi 128 \<le> \<bar>fl32 x\<bar> then inf_signed (0 < x) else Fin (fl32 x))"
| "r32 PInf = PInf"
| "r32 NInf = NInf"
| "r32 NaN = NaN"

declare r64.simps(1) [simp del] r32.simps(1) [simp del]

text \<open>
  A number \<open>m * 2^k\<close> with \<open>|m| < 2^p\<close> and \<open>k\<close> not below \<open>emin\<close> belongs to the
  format; rounding leaves it as it is.
\<close>

definition representable :: "nat \<Rightarrow> int \<Rightarrow> real \<Rightarrow> bool" where
  "representable p emin x \<longleftrightarrow>
     (\<exists>m k. x = real_of_int m * 2 powi k \<and> \<bar>m\<bar> < 2 ^ p \<and> emin \<le> k)"

text \<open>Comparisons \<open>a < b\<close> and \<open>a <= b\<close>: false as soon as one side is \<open>NaN\<close>.\<close>

fun jlt :: "jsnum \<Rightarrow> jsnum \<Rightarrow> bool" where
  "jlt (Fin a) (Fin b) = (a < b)"
| "jlt NaN _ = False"
| "jlt _ NaN = False"
| "jlt PInf _ = False"
| "jlt _ NInf = False"
| "jlt NInf _ = True"
| "jlt _ PInf = True"

fun jle :: "jsnum \<Rightarrow> jsnum \<Rightarrow> bool" where
  "jle (Fin a) (Fin b) = (a \<le> b)"
| "jle NaN _ = False"
| "jle _ NaN = False"
| "jle NInf _ = True"
| "jle _ PInf = True"
| "jle PInf _ = False"
| "jle _ NInf = False"

text \<open>
  A store into an \<open>Int32Array\<close> (and \<open>x | 0\<close>) applies \<open>ToInt32\<close>: non-finite numbers
  become 0, a finite number is truncated towards zero and wrapped into
  \<open>[-2^31, 2^31)\<close>.
\<close>

definition wrap_int32 :: "int \<Rightarrow> int" where
  "wrap_int32 n = (n + 2 ^ 31) mod 2 ^ 32 - 2 ^ 31"

definition trunc_real :: "real \<Rightarrow> int" where
  "trunc_real x = (if 0 \<le> x then \<lfloor>x\<rfloor> else \<lceil>x\<rceil>)"

fun to_int32 :: "jsnum \<Rightarrow> int" where
  "to_int32 (Fin x) = wrap_int32 (trunc_real x)"
| "to_int32 PInf = 0"
| "to_int32 NInf = 0"
| "to_int32 NaN = 0"

text \<open>\<open>x % 1\<close>: the remainder has the sign of the dividend.\<close>

definition fmod1 :: "real \<Rightarrow> real" where
  "fmod1 x = x - of_int (trunc_real x)"

fun jrem1 :: "jsnum \<Rightarrow> jsnum" where
  "jrem1 (Fin x) = Fin (fmod1 x)"
| "jrem1 PInf = NaN"
| "jrem1 NInf = NaN"
| "jrem1 NaN = NaN"

section \<open>Utilities and UI mappings (filter-cutoff.js, granular-processor.js)\<close>

text \<open>\<open>const clamp = (x, lo, hi) => Math.max(lo, Math.min(hi, x))\<close> on finite numbers.\<close>

definition clamp :: "real \<Rightarrow> real \<Rightarrow> real \<Rightarrow> real" where
  "clamp x lo hi = max lo (min hi x)"

definition clamp01 :: "real \<Rightarrow> real" where
  "clamp01 x = max 0 (min 1 x)"

text \<open>
  \<open>const wrap01 = (x) => ((x % 1) + 1) % 1\<close>. The remainder \<open>%\<close> of two doubles is
  exact; the addition rounds.
\<close>

definition wrap01 :: "jsnum \<Rightarrow> jsnum" where
  "wrap01 x = jrem1 (r64 (jadd (jrem1 x) (Fin 1)))"

text \<open>
  \<open>uiToHz = (t, min, max) => min * Math.pow(max/min, clamp(t,0,1))\<close>. For a positive
  base \<open>Math.pow\<close> is the real power \<open>powr\<close>.
\<close>

definition uiToHz :: "real \<Rightarrow> real \<Rightarrow> real \<Rightarrow> real" where
  "uiToHz t mn mx = mn * (mx / mn) powr (clamp t 0 1)"

text \<open>
  \<open>mapCut\<close> of \<open>process\<close>: \<open>Number(val)\<close> is the identity on a number; the first
  argument is \<open>this.sampleRateOut\<close>.
\<close>

definition mapCut :: "real \<Rightarrow> jsnum \<Rightarrow> real" where
  "mapCut sampleRateOut val =
     (case val of
        Fin f \<Rightarrow> (if f \<le> 1.5 then uiToHz (clamp01 f) 20 18000
                  else clamp f 20 (0.45 * sampleRateOut))
      | _ \<Rightarrow> 2000)"

section \<open>Equal-power panning (windows.js)\<close>

text \<open>
  \<open>equalPowerPan(pan)\<close>: after \<open>pan || 0\<close> the value is not \<open>NaN\<close>, and the clamp to
  \<open>[-1, 1]\<close> makes it finite.
\<close>

definition pan_clamped :: "jsnum \<Rightarrow> real" where
  "pan_clamped pan =
     (case jmax (Fin (- 1)) (jmin (Fin 1) (js_or pan (Fin 0))) of
        Fin p \<Rightarrow> p | PInf \<Rightarrow> 1 | NInf \<Rightarrow> - 1 | NaN \<Rightarrow> 0)"

definition equalPowerPan :: "jsnum \<Rightarrow> real \<times> real" where
  "equalPowerPan pan =
     (let p = pan_clamped pan;
          angle = (p + 1) * 0.25 * pi
      in (cos angle, sin angle))"

section \<open>Look-ahead limiter (limiter.js)\<close>

text \<open>\<open>toDb(x)\<close>: \<open>-Infinity\<close> for \<open>x <= 0\<close>, else \<open>20 * Math.log10(x)\<close>.\<close>

definition toDb :: "real \<Rightarrow> jsnum" where
  "toDb x = (if x \<le> 0 then NInf else Fin (20 * log 10 x))"

text \<open>
  \<open>sanitizeSample\<close>: a sample that is not finite becomes 0, one below \<open>1e-24\<close> in
  magnitude is flushed to 0, one above \<open>1e6\<close> is clamped to \<open>\<plusminus>1e6\<close>.
\<close>

definition sanitizeSample :: "jsnum \<Rightarrow> real" where
  "sanitizeSample x =
     (case x of
        Fin v \<Rightarrow>
          (let ax = \<bar>v\<bar>
           in if ax < 1 / 10 ^ 24 then 0
              else if ax > 10 ^ 6 then sgn v * 10 ^ 6
              else v)
      | _ \<Rightarrow> 0)"

text \<open>
  The limiter state. The two ring buffers hold sanitized samples only, so their entries are
  finite; \<open>env\<close> is finite as well (it starts at 1 and is only ever set to \<open>needed\<close> or to
  the release value), which is why the guard \<open>Number.isFinite(s.env) ? s.env : 1\<close> of
  \<open>processLimiter\<close> does not show in the model.
\<close>

record limiter =
  lim_sr :: real
  lookahead :: nat
  ceil :: real
  trim :: real
  rel :: real
  bufL :: "real list"
  bufR :: "real list"
  "write" :: nat
  env :: real
  lastTpDb :: jsnum
  lastGrDb :: jsnum

text \<open>The options object of \<open>createLimiter\<close>; an absent option is \<open>None\<close>.\<close>

record limiter_opts =
  lookaheadMs :: "real option"
  ceiling_opt :: "real option"
  releaseMs :: "real option"
  masterTrim :: "real option"
  extra :: "nat option"

definition nullish :: "'a option \<Rightarrow> 'a \<Rightarrow> 'a" where
  "nullish x d = (case x of None \<Rightarrow> d | Some v \<Rightarrow> v)"

definition createLimiter :: "real \<Rightarrow> limiter_opts \<Rightarrow> limiter" where
  "createLimiter sampleRate opts =
     (let lookaheadMs' = nullish (lookaheadMs opts) 3;
          lookahead' = nat (max 1 \<lfloor>sampleRate * (lookaheadMs' / 1000)\<rfloor>);
          extra' = max 64 (nullish (extra opts) 256);
          releaseMs' = max 1 (nullish (releaseMs opts) 50)
      in \<lparr> lim_sr = sampleRate,
           lookahead = lookahead',
           ceil = nullish (ceiling_opt opts) 0.98,
           trim = nullish (masterTrim opts) 0.80,
           rel = exp (- 1 / (sampleRate * (releaseMs' / 1000))),
           bufL = replicate (lookahead' + extra') 0,
           bufR = replicate (lookahead' + extra') 0,
           write = 0,
           env = 1,
           lastTpDb = NInf,
           lastGrDb = Fin 0 \<rparr>)"

text \<open>
  \<open>truePeak2x(l, r)\<close>: the loop over the pairs of neighbouring frames, then the special
  case of a block of one frame. Both channels of a block have the same length.
\<close>

definition pair_peak :: "real \<Rightarrow> real \<Rightarrow> real \<Rightarrow> real \<Rightarrow> real" where
  "pair_peak l0 l1 r0 r1 =
     (let a0 = max \<bar>l0\<bar> \<bar>r0\<bar>;
          a1 = max \<bar>l1\<bar> \<bar>r1\<bar>;
          li = 0.5 * (l0 + l1);
          ri = 0.5 * (r0 + r1);
          ai = max \<bar>li\<bar> \<bar>ri\<bar>
      in max (max a0 a1) ai)"

fun truePeak_loop :: "real \<Rightarrow> real list \<Rightarrow> real list \<Rightarrow> real" where
  "truePeak_loop tp (l0 # l1 # ls) (r0 # r1 # rs) =
     truePeak_loop (if pair_peak l0 l1 r0 r1 > tp then pair_peak l0 l1 r0 r1 else tp)
       (l1 # ls) (r1 # rs)"
| "truePeak_loop tp _ _ = tp"

definition truePeak2x :: "real list \<Rightarrow> real list \<Rightarrow> real" where
  "truePeak2x l r =
     (let tp = truePeak_loop 0 l r
      in if length l = 1 then max \<bar>hd l\<bar> \<bar>hd r\<bar> else tp)"

text \<open>Step 3 of \<open>processLimiter\<close>: the block is written into the ring at \<open>write\<close>.\<close>

fun ring_write :: "real list \<Rightarrow> nat \<Rightarrow> real list \<Rightarrow> real list \<times> nat" where
  "ring_write buf w [] = (buf, w)"
| "ring_write buf w (x # xs) = ring_write (buf[w := x]) ((w + 1) mod length buf) xs"

text \<open>Step 5: \<open>n\<close> frames are read from the ring, starting at \<open>read\<close>.\<close>

fun ring_read :: "real list \<Rightarrow> nat \<Rightarrow> nat \<Rightarrow> real list" where
  "ring_read buf rd 0 = []"
| "ring_read buf rd (Suc n) = buf ! rd # ring_read buf ((rd + 1) mod length buf) n"

text \<open>
  Step 0.1: when the ring is shorter than \<open>lookahead + max(N, 64)\<close> a longer one is
  allocated (zero-filled), the old content is copied to its front, oldest frame first, and
  \<open>write\<close> is reset to 0.
\<close>

definition ring_grow :: "real list \<Rightarrow> nat \<Rightarrow> nat \<Rightarrow> real list" where
  "ring_grow buf w newLen =
     map (\<lambda>i. buf ! ((w + i) mod length buf)) [0..<length buf] @
     replicate (newLen - length buf) 0"

definition ensure_ring :: "limiter \<Rightarrow> nat \<Rightarrow> limiter" where
  "ensure_ring s N =
     (let need = lookahead s + max N 64
      in if length (bufL s) < need
         then (let oldLen = length (bufL s);
                   newLen = max need (oldLen * 2)
               in s\<lparr> bufL := ring_grow (bufL s) (write s) newLen,
                      bufR := ring_grow (bufR s) (write s) newLen,
                      write := 0 \<rparr>)
         else s)"

text \<open>Steps 0 and 1: the block is sanitized and scaled by the master trim.\<close>

definition trimmed_block :: "limiter \<Rightarrow> jsnum list \<Rightarrow> real list" where
  "trimmed_block s out = map (\<lambda>x. sanitizeSample x * trim s) out"

text \<open>Step 2: the true peak of the trimmed block and the gain it needs.\<close>

definition block_peak :: "limiter \<Rightarrow> jsnum list \<Rightarrow> jsnum list \<Rightarrow> real" where
  "block_peak s outL outR = truePeak2x (trimmed_block s outL) (trimmed_block s outR)"

definition needed_gain :: "limiter \<Rightarrow> jsnum list \<Rightarrow> jsnum list \<Rightarrow> real" where
  "needed_gain s outL outR =
     (let tp = block_peak s outL outR;
          ceil' = max 0.1 (min 1.0 (ceil s))
      in if tp > 1 / 10 ^ 12 then min 1 (ceil' / tp) else 1)"

text \<open>The telemetry that \<open>processLimiter\<close> returns.\<close>

record limiter_telemetry =
  tpDb :: jsnum
  grDb :: jsnum
  peakIn :: real
  peakOut :: real

text \<open>
  \<open>processLimiter(s, outL, outR)\<close>: the new limiter state, the two output channels as
  they are left in \<open>outL\<close> and \<open>outR\<close>, and the telemetry. The read index
  \<open>(s.write - s.lookahead + s.bufL.length) % s.bufL.length\<close> is not negative, because
  the ring is longer than the look-ahead after step 0.1.
\<close>

definition processLimiter ::
  "limiter \<Rightarrow> jsnum list \<Rightarrow> jsnum list \<Rightarrow> limiter \<times> real list \<times> real list \<times> limiter_telemetry"
where
  "processLimiter s0 outL outR =
     (let N = length outL;
          s1 = ensure_ring s0 N;
          xL = trimmed_block s1 outL;
          xR = trimmed_block s1 outR;
          tp = block_peak s1 outL outR;
          needed = needed_gain s1 outL outR;
          (bL, w) = ring_write (bufL s1) (write s1) xL;
          (bR, w') = ring_write (bufR s1) (write s1) xR;
          env' = (if needed < env s1 then needed else 1 - (1 - env s1) * rel s1);
          len = length bL;
          rd = nat ((int w - int (lookahead s1) + int len) mod int len);
          yL = map (\<lambda>x. x * env') (ring_read bL rd N);
          yR = map (\<lambda>x. x * env') (ring_read bR rd N);
          peakOut' = tp * env';
          s2 = s1\<lparr> bufL := bL, bufR := bR, write := w, env := env',
                   lastTpDb := toDb peakOut', lastGrDb := toDb env' \<rparr>
      in (s2, yL, yR,
          \<lparr> tpDb = toDb peakOut', grDb = toDb env', peakIn = tp, peakOut = peakOut' \<rparr>))"

section \<open>Poisson scheduler (scheduler.js)\<close>

definition INT_MAX :: int where
  "INT_MAX = 2147483647"

text \<open>\<open>safeFloor = (x) => Math.min(INT_MAX, Math.max(1, Math.floor(x)))\<close>.\<close>

definition safeFloor :: "real \<Rightarrow> int" where
  "safeFloor x = min INT_MAX (max 1 \<lfloor>x\<rfloor>)"

text \<open>
  \<open>Math.log\<close> of a positive number, taken as the logarithm rounded to the nearest
  double.
\<close>

definition Math_log :: "real \<Rightarrow> real" where
  "Math_log x = fl64 (ln x)"

text \<open>
  \<open>nextIntervalFramesPoisson(sampleRate, density)\<close>, with the value \<open>u\<close> that
  \<open>Math.random()\<close> returns as a third argument; \<open>0 \<le> u < 1\<close>, so \<open>1 - u\<close> is
  positive and its logarithm finite. After \<open>Math.max(1e-6, density || 0)\<close> the density is
  a finite number of at least \<open>1e-6\<close> or \<open>+Infinity\<close>; for the latter the mean is 0.
  The quotient, the difference and the product are rounded to doubles; with a density of at
  least \<open>1e-6\<close> none of them leaves the range of the doubles.
\<close>

definition nextIntervalFramesPoisson :: "real \<Rightarrow> jsnum \<Rightarrow> real \<Rightarrow> int" where
  "nextIntervalFramesPoisson sampleRate dens u =
     (let d = jmax (Fin (fl64 (1 / 10 ^ 6))) (js_or dens (Fin 0));
          mean = (case d of Fin dv \<Rightarrow> fl64 (sampleRate / dv) | _ \<Rightarrow> 0);
          ex = fl64 (- mean * Math_log (fl64 (1 - u)))
      in safeFloor ex)"

section \<open>The granular processor (granular-processor.js)\<close>

subsection \<open>Data\<close>

text \<open>The parameter object of one cursor.\<close>

record params =
  attack :: jsnum
  release :: jsnum
  density :: jsnum
  spread :: jsnum
  pan :: jsnum
  pitch :: jsnum
  cutoff :: jsnum
  lfoFreq :: jsnum
  lfoDepth :: jsnum
  scanSpeed :: jsnum
  gain :: jsnum
  grainSize :: jsnum
  qNorm :: jsnum
  driveNorm :: jsnum
  slopeSel :: jsnum

definition defaultParams :: params where
  "defaultParams =
     \<lparr> attack = Fin 0.10, release = Fin 0.10, density = Fin 10, spread = Fin 0.10,
       pan = Fin 0.0, pitch = Fin 1.0, cutoff = Fin 5000, lfoFreq = Fin 1.0,
       lfoDepth = Fin 0.2, scanSpeed = Fin 0.00, gain = Fin 0.5, grainSize = Fin 1.0,
       qNorm = Fin 0.2, driveNorm = Fin 0.0, slopeSel = Fin 0 \<rparr>"

text \<open>
  \<open>Object.assign(this.paramsA, d.params)\<close> copies the fields that the message carries;
  a message is a list of fields with their new values.
\<close>

datatype param_field =
  F_attack | F_release | F_density | F_spread | F_pan | F_pitch | F_cutoff | F_lfoFreq
| F_lfoDepth | F_scanSpeed | F_gain | F_grainSize | F_qNorm | F_driveNorm | F_slopeSel

fun set_field :: "param_field \<times> jsnum \<Rightarrow> params \<Rightarrow> params" where
  "set_field (F_attack, v) p = p\<lparr>attack := v\<rparr>"
| "set_field (F_release, v) p = p\<lparr>release := v\<rparr>"
| "set_field (F_density, v) p = p\<lparr>density := v\<rparr>"
| "set_field (F_spread, v) p = p\<lparr>spread := v\<rparr>"
| "set_field (F_pan, v) p = p\<lparr>pan := v\<rparr>"
| "set_field (F_pitch, v) p = p\<lparr>pitch := v\<rparr>"
| "set_field (F_cutoff, v) p = p\<lparr>cutoff := v\<rparr>"
| "set_field (F_lfoFreq, v) p = p\<lparr>lfoFreq := v\<rparr>"
| "set_field (F_lfoDepth, v) p = p\<lparr>lfoDepth := v\<rparr>"
| "set_field (F_scanSpeed, v) p = p\<lparr>scanSpeed := v\<rparr>"
| "set_field (F_gain, v) p = p\<lparr>gain := v\<rparr>"
| "set_field (F_grainSize, v) p = p\<lparr>grainSize := v\<rparr>"
| "set_field (F_qNorm, v) p = p\<lparr>qNorm := v\<rparr>"
| "set_field (F_driveNorm, v) p = p\<lparr>driveNorm := v\<rparr>"
| "set_field (F_slopeSel, v) p = p\<lparr>slopeSel := v\<rparr>"

definition assign_params :: "params \<Rightarrow> (param_field \<times> jsnum) list \<Rightarrow> params" where
  "assign_params p upd = fold set_field upd p"

text \<open>
  The loudness map \<open>{ rms, win, sr, len }\<close>. The entries of \<open>rms\<close> are root mean
  squares, finite numbers.
\<close>

record loudMap =
  rms :: "real list"
  win :: jsnum
  lm_sr :: jsnum
  lm_len :: jsnum

text \<open>
  One slot of the grain pool (the pool is a struct of arrays; slot \<open>g\<close> of the model is
  index \<open>g\<close> of each array, and the list has \<open>g_count\<close> slots).
\<close>

record grain =
  g_cursor :: nat
  g_phase :: jsnum
  g_inc :: jsnum
  g_envPos :: int
  g_envLen :: int
  g_panL :: real
  g_panR :: real
  g_gainC :: jsnum

text \<open>Messages to the main thread that the control path posts.\<close>

datatype out_msg = Positions "jsnum list" | Ready

text \<open>
  The processor state that the control path of a block reads and writes. The state that
  only the audio path touches (LFO phases, smoothed gains, the buses, the filter bank and the
  limiter) is not part of this record: no branch of the control path depends on it. The
  limiter is modelled on its own above. \<open>rng\<close> is the sequence of values that the coming
  calls of \<open>Math.random()\<close> return.
\<close>

record engine =
  sampleRateOut :: real
  channels :: "jsnum list list option"
  channelCount :: nat
  bufferLength :: nat
  bufferSampleRate :: jsnum
  positions :: "jsnum list"
  paramsA :: params
  paramsB :: params
  paramsC :: params
  paramStride :: jsnum
  paramView :: "jsnum list option"
  framesToNextGrainA :: int
  framesToNextGrainB :: int
  framesToNextGrainC :: int
  loudMap :: "loudMap option"
  grains :: "grain list"
  playing :: bool
  vizCounter :: nat
  vizIntervalFrames :: nat
  kbNotes :: "int list list"
  kbRR :: "nat list"
  killPending :: "bool list"
  killTailMs :: real
  maxSpawnPerBlock :: nat
  rng :: "nat \<Rightarrow> real"

definition MAX_GRAINS :: nat where
  "MAX_GRAINS = 1024"

text \<open>
  The constructor, for the output sample rate \<open>rate\<close>
  (\<open>options.processorOptions.sampleRate || sampleRate\<close>, a positive double) and the
  random sequence of the run. The positions are kept in a \<open>Float32Array\<close>, which holds
  the floats nearest to the doubles of the literals.
\<close>

definition construct :: "real \<Rightarrow> (nat \<Rightarrow> real) \<Rightarrow> engine" where
  "construct rate rnd =
     \<lparr> sampleRateOut = rate,
       channels = None,
       channelCount = 0,
       bufferLength = 0,
       bufferSampleRate = Fin rate,
       positions = [Fin (fl32 (fl64 0.15)), Fin (fl32 (fl64 0.50)), Fin (fl32 (fl64 0.85))],
       paramsA = defaultParams,
       paramsB = defaultParams,
       paramsC = defaultParams,
       paramStride = Fin 15,
       paramView = None,
       framesToNextGrainA = 0,
       framesToNextGrainB = 0,
       framesToNextGrainC = 0,
       loudMap = None,
       grains = [],
       playing = False,
       vizCounter = 0,
       vizIntervalFrames = nat (max 1 \<lfloor>fl64 (rate / 30)\<rfloor>),
       kbNotes = [[], [], []],
       kbRR = [0, 0, 0],
       killPending = [False, False, False],
       killTailMs = 28,
       maxSpawnPerBlock = nat (max 24 \<lfloor>fl64 (32 * fl64 (rate / 48000))\<rfloor>),
       rng = rnd \<rparr>"

subsection \<open>Held notes\<close>

definition addKbNote :: "nat \<Rightarrow> int \<Rightarrow> engine \<Rightarrow> engine" where
  "addKbNote cursor semis s =
     (let arr = kbNotes s ! cursor
      in if semis \<in> set arr then s
         else
           (let arr' = arr @ [semis];
                rr = kbRR s ! cursor;
                rr' = (if rr > 10 ^ 9 then rr mod max 1 (length arr') else rr)
            in s\<lparr> kbNotes := (kbNotes s)[cursor := arr'],
                   kbRR := (kbRR s)[cursor := rr'] \<rparr>))"

definition removeKbNote :: "nat \<Rightarrow> int \<Rightarrow> engine \<Rightarrow> engine" where
  "removeKbNote cursor semis s =
     (let arr = kbNotes s ! cursor;
          arr' = remove1 semis arr;
          rr' = (if length arr' = 0 then 0 else (kbRR s ! cursor) mod length arr')
      in s\<lparr> kbNotes := (kbNotes s)[cursor := arr'],
             kbRR := (kbRR s)[cursor := rr'] \<rparr>)"

definition clearKbNotes :: "nat \<Rightarrow> engine \<Rightarrow> engine" where
  "clearKbNotes cursor s =
     s\<lparr> kbNotes := (kbNotes s)[cursor := []], kbRR := (kbRR s)[cursor := 0] \<rparr>"

definition nextKbSemis :: "nat \<Rightarrow> engine \<Rightarrow> int option \<times> engine" where
  "nextKbSemis cursor s =
     (let arr = kbNotes s ! cursor;
          n = length arr
      in if n = 0 then (None, s)
         else
           (let idx = (kbRR s ! cursor) mod n
            in (Some (arr ! idx),
                s\<lparr> kbRR := (kbRR s)[cursor := ((kbRR s ! cursor) + 1) mod n] \<rparr>)))"

definition hasKbNotesAny :: "engine \<Rightarrow> bool" where
  "hasKbNotesAny s =
     (length (kbNotes s ! 0) + length (kbNotes s ! 1) + length (kbNotes s ! 2) > 0)"

definition cursorHasKb :: "nat \<Rightarrow> engine \<Rightarrow> bool" where
  "cursorHasKb i s = (length (kbNotes s ! i) > 0)"

subsection \<open>Messages from the main thread\<close>

text \<open>
  The messages of \<open>port.onmessage\<close>, with the coercions of the handler applied to their
  fields: a cursor is the integer \<open>d.cursor | 0\<close>, semitones are the number
  \<open>Number(d.semis)\<close>, the buffer length is \<open>d.length >>> 0\<close>. An absent optional field is
  \<open>None\<close>.
\<close>

datatype in_msg =
    SetBuffer "jsnum list list" nat jsnum
  | SetBufferMono "jsnum list" jsnum
  | SetBufferNone
  | SetLoudnessMap "loudMap option"
  | SetParamsAll "(param_field \<times> jsnum) list" "(param_field \<times> jsnum) list"
      "(param_field \<times> jsnum) list"
  | SetParamsFor int "(param_field \<times> jsnum) list"
  | SetParamSAB "jsnum list option" jsnum
  | SetPositions "jsnum list"
  | SetPlaying bool
  | NoteOn int jsnum
  | NoteOff int jsnum
  | NoteOnAll jsnum
  | NoteOffAll jsnum
  | ClearKbNotes int
  | KillCursorGrains int
  | Ping

text \<open>\<open>Math.round\<close> of a finite number.\<close>

definition js_round :: "real \<Rightarrow> int" where
  "js_round x = \<lfloor>x + 1 / 2\<rfloor>"

text \<open>\<open>clamp01\<close> of the processor, on any number.\<close>

definition jclamp01 :: "jsnum \<Rightarrow> jsnum" where
  "jclamp01 x = jmax (Fin 0) (jmin (Fin 1) x)"

fun onmessage :: "in_msg \<Rightarrow> engine \<Rightarrow> engine \<times> out_msg list" where
  "onmessage (SetBuffer chans len rate) s =
     (if length chans > 0
      then (s\<lparr> channels := Some chans,
                channelCount := length chans,
                bufferLength := (if len \<noteq> 0 then len else length (hd chans)),
                bufferSampleRate := js_or rate (Fin (sampleRateOut s)) \<rparr>, [])
      else (s\<lparr> channels := None, channelCount := 0, bufferLength := 0 \<rparr>, []))"
| "onmessage (SetBufferMono samples rate) s =
     (s\<lparr> channels := Some [samples],
          channelCount := 1,
          bufferLength := length samples,
          bufferSampleRate := js_or rate (Fin (sampleRateOut s)) \<rparr>, [])"
| "onmessage SetBufferNone s =
     (s\<lparr> channels := None, channelCount := 0, bufferLength := 0 \<rparr>, [])"
| "onmessage (SetLoudnessMap m) s =
     (case m of None \<Rightarrow> (s, []) | Some lm \<Rightarrow> (s\<lparr> loudMap := Some lm \<rparr>, []))"
| "onmessage (SetParamsAll a b c) s =
     (s\<lparr> paramsA := assign_params (paramsA s) a,
          paramsB := assign_params (paramsB s) b,
          paramsC := assign_params (paramsC s) c \<rparr>, [])"
| "onmessage (SetParamsFor cursor upd) s =
     (if cursor = 0 then (s\<lparr> paramsA := assign_params (paramsA s) upd \<rparr>, [])
      else if cursor = 1 then (s\<lparr> paramsB := assign_params (paramsB s) upd \<rparr>, [])
      else if cursor = 2 then (s\<lparr> paramsC := assign_params (paramsC s) upd \<rparr>, [])
      else (s, []))"
| "onmessage (SetParamSAB sab stride) s =
     (case sab of
        None \<Rightarrow> (s, [])
      | Some v \<Rightarrow> (s\<lparr> paramStride := js_or stride (paramStride s),
                        paramView := Some v \<rparr>, []))"
| "onmessage (SetPositions ps) s =
     (let s1 = (if length ps \<ge> 2
                then s\<lparr> positions := (positions s)[0 := r32 (jclamp01 (ps ! 0)),
                                                      1 := r32 (jclamp01 (ps ! 1))] \<rparr>
                else s);
          s2 = (if length ps \<ge> 3
                then s1\<lparr> positions := (positions s1)[2 := r32 (jclamp01 (ps ! 2))] \<rparr>
                else s1)
      in (s2, []))"
| "onmessage (SetPlaying v) s = (s\<lparr> playing := v \<rparr>, [])"
| "onmessage (NoteOn c sm) s =
     (case sm of
        Fin x \<Rightarrow> (if 0 \<le> c \<and> c \<le> 2 then (addKbNote (nat c) (js_round x) s, []) else (s, []))
      | _ \<Rightarrow> (s, []))"
| "onmessage (NoteOff c sm) s =
     (case sm of
        Fin x \<Rightarrow> (if 0 \<le> c \<and> c \<le> 2 then (removeKbNote (nat c) (js_round x) s, []) else (s, []))
      | _ \<Rightarrow> (s, []))"
| "onmessage (NoteOnAll sm) s =
     (case sm of
        Fin x \<Rightarrow> (addKbNote 2 (js_round x) (addKbNote 1 (js_round x) (addKbNote 0 (js_round x) s)), [])
      | _ \<Rightarrow> (s, []))"
| "onmessage (NoteOffAll sm) s =
     (case sm of
        Fin x \<Rightarrow> (removeKbNote 2 (js_round x)
                    (removeKbNote 1 (js_round x) (removeKbNote 0 (js_round x) s)), [])
      | _ \<Rightarrow> (s, []))"
| "onmessage (ClearKbNotes c) s =
     (if 0 \<le> c \<and> c \<le> 2 then (clearKbNotes (nat c) s, []) else (s, []))"
| "onmessage (KillCursorGrains c) s =
     (if - 1 \<le> c \<and> c \<le> 2
      then (if c = - 1 then (s\<lparr> killPending := [True, True, True] \<rparr>, [])
            else (s\<lparr> killPending := (killPending s)[nat c := True] \<rparr>, []))
      else (s, []))"
| "onmessage Ping s = (s, [Ready])"

subsection \<open>The parameter snapshot\<close>

text \<open>
  A read \<open>v[idx]\<close> of the shared \<open>Float32Array\<close>; outside the array the value is
  \<open>undefined\<close>, which \<open>Number.isFinite\<close> rejects like \<open>NaN\<close>.
\<close>

definition view_get :: "jsnum list \<Rightarrow> int \<Rightarrow> jsnum" where
  "view_get v idx = (if 0 \<le> idx \<and> idx < int (length v) then v ! nat idx else NaN)"

text \<open>\<open>get(i, fb)\<close> of \<open>readOne\<close>.\<close>

definition get_param :: "jsnum list \<Rightarrow> int \<Rightarrow> int \<Rightarrow> jsnum \<Rightarrow> jsnum" where
  "get_param v base i fb =
     (let val = view_get v (base + i) in if isFinite val then val else fb)"

text \<open>
  \<open>readOne(base, fallback)\<close>; \<open>S\<close> is \<open>this.paramStride | 0\<close>. The fields of
  \<open>fallback\<close> are numbers, on which \<open>??\<close> returns its left operand.
\<close>

definition readOne :: "jsnum list \<Rightarrow> int \<Rightarrow> int \<Rightarrow> params \<Rightarrow> params" where
  "readOne v S base fallback =
     \<lparr> attack = get_param v base 0 (attack fallback),
       release = get_param v base 1 (release fallback),
       density = get_param v base 2 (density fallback),
       spread = get_param v base 3 (spread fallback),
       pan = get_param v base 4 (pan fallback),
       pitch = get_param v base 5 (pitch fallback),
       cutoff = get_param v base 6 (cutoff fallback),
       lfoFreq = get_param v base 7 (lfoFreq fallback),
       lfoDepth = get_param v base 8 (lfoDepth fallback),
       scanSpeed = get_param v base 9 (scanSpeed fallback),
       gain = get_param v base 10 (gain fallback),
       grainSize = get_param v base 11 (grainSize fallback),
       qNorm = (if S \<ge> 15 then get_param v base 12 (qNorm fallback) else qNorm fallback),
       driveNorm = (if S \<ge> 15 then get_param v base 13 (driveNorm fallback)
                    else driveNorm fallback),
       slopeSel = (if S \<ge> 15 then get_param v base 14 (slopeSel fallback)
                   else slopeSel fallback) \<rparr>"

definition readParams :: "engine \<Rightarrow> params \<times> params \<times> params" where
  "readParams s =
     (case paramView s of
        None \<Rightarrow> (paramsA s, paramsB s, paramsC s)
      | Some v \<Rightarrow>
          (let S = to_int32 (paramStride s)
           in (readOne v S (0 * S) (paramsA s),
               readOne v S (1 * S) (paramsB s),
               readOne v S (2 * S) (paramsC s))))"

text \<open>
  \<open>writeParamsToSAB(cursorIndex, p)\<close> of sab.js, the writer of the shared array on the
  control thread (\<open>CURSOR_STRIDE = 15\<close>). A store outside the array is ignored.
\<close>

definition writeParamsToSAB :: "nat \<Rightarrow> params \<Rightarrow> jsnum list \<Rightarrow> jsnum list" where
  "writeParamsToSAB cursorIndex p sabView =
     (let base = cursorIndex * 15
      in sabView[base + 0 := attack p, base + 1 := release p, base + 2 := density p,
                 base + 3 := spread p, base + 4 := pan p, base + 5 := pitch p,
                 base + 6 := cutoff p, base + 7 := lfoFreq p, base + 8 := lfoDepth p,
                 base + 9 := scanSpeed p, base + 10 := gain p, base + 11 := grainSize p,
                 base + 12 := qNorm p, base + 13 := driveNorm p, base + 14 := slopeSel p])"

text \<open>
  For statements about the snapshot: the slot of a field within the stride of its cursor
  (the first argument of \<open>get\<close> in \<open>readOne\<close>), and the field of a parameter object.
\<close>

fun field_index :: "param_field \<Rightarrow> int" where
  "field_index F_attack = 0"
| "field_index F_release = 1"
| "field_index F_density = 2"
| "field_index F_spread = 3"
| "field_index F_pan = 4"
| "field_index F_pitch = 5"
| "field_index F_cutoff = 6"
| "field_index F_lfoFreq = 7"
| "field_index F_lfoDepth = 8"
| "field_index F_scanSpeed = 9"
| "field_index F_gain = 10"
| "field_index F_grainSize = 11"
| "field_index F_qNorm = 12"
| "field_index F_driveNorm = 13"
| "field_index F_slopeSel = 14"

fun get_field :: "param_field \<Rightarrow> params \<Rightarrow> jsnum" where
  "get_field F_attack p = attack p"
| "get_field F_release p = release p"
| "get_field F_density p = density p"
| "get_field F_spread p = spread p"
| "get_field F_pan p = pan p"
| "get_field F_pitch p = pitch p"
| "get_field F_cutoff p = cutoff p"
| "get_field F_lfoFreq p = lfoFreq p"
| "get_field F_lfoDepth p = lfoDepth p"
| "get_field F_scanSpeed p = scanSpeed p"
| "get_field F_gain p = gain p"
| "get_field F_grainSize p = grainSize p"
| "get_field F_qNorm p = qNorm p"
| "get_field F_driveNorm p = driveNorm p"
| "get_field F_slopeSel p = slopeSel p"

subsection \<open>Cursor positions\<close>

text \<open>
  \<open>_advancePositions(frames, pA, pB, pC)\<close>. Every operation rounds to a double, and the
  store into the \<open>Float32Array\<close> \<open>positions\<close> rounds to a float.
\<close>

definition advance_one :: "jsnum \<Rightarrow> jsnum \<Rightarrow> jsnum \<Rightarrow> jsnum" where
  "advance_one pos speed dt = r64 (jadd pos (r64 (jmul (js_or speed (Fin 0)) dt)))"

definition advancePositions :: "nat \<Rightarrow> params \<Rightarrow> params \<Rightarrow> params \<Rightarrow> engine \<Rightarrow> engine" where
  "advancePositions frames pA pB pC s =
     (let dt = r64 (jdiv (Fin (real frames)) (Fin (sampleRateOut s)));
          A = advance_one (positions s ! 0) (scanSpeed pA) dt;
          B = advance_one (positions s ! 1) (scanSpeed pB) dt;
          C = advance_one (positions s ! 2) (scanSpeed pC) dt
      in s\<lparr> positions := (positions s)[0 := r32 (wrap01 A), 1 := r32 (wrap01 B),
                                          2 := r32 (wrap01 C)] \<rparr>)"

subsection \<open>Spawning a grain\<close>

text \<open>\<open>Math.random()\<close>: the next value of the sequence.\<close>

definition Math_random :: "engine \<Rightarrow> real \<times> engine" where
  "Math_random s = (rng s 0, s\<lparr> rng := (\<lambda>k. rng s (Suc k)) \<rparr>)"

text \<open>
  \<open>_loudnessAtIndex(sampleIndex)\<close>. The bucket index is clamped into the array, so it is
  an index of the array or \<open>NaN\<close>; \<open>rms[NaN]\<close> is \<open>undefined\<close> and
  \<open>Math.max(1e-4, undefined)\<close> is \<open>NaN\<close>.
\<close>

definition loudnessAtIndex :: "loudMap option \<Rightarrow> jsnum \<Rightarrow> jsnum" where
  "loudnessAtIndex lm sampleIndex =
     (case lm of
        None \<Rightarrow> Fin 1
      | Some m \<Rightarrow>
          (if length (rms m) = 0 then Fin 1
           else
             (case jmax (Fin 0)
                     (jmin (Fin (real (length (rms m)) - 1)) (jfloor (jdiv sampleIndex (win m)))) of
                Fin b \<Rightarrow> Fin (max (1 / 10 ^ 4) (rms m ! nat \<lfloor>b\<rfloor>))
              | _ \<Rightarrow> NaN)))"

text \<open>
  \<open>Math.pow(target / local, gamma)\<close> with \<open>target = 0.12\<close> and \<open>gamma = 0.6\<close>. For a
  positive base \<open>Math.pow\<close> is \<open>powr\<close>; the other cases follow \<open>Math.pow\<close> for the
  exponent 0.6 (they do not arise, \<open>local\<close> being at least \<open>1e-4\<close> or \<open>NaN\<close>).
\<close>

definition loudComp_of :: "jsnum \<Rightarrow> jsnum" where
  "loudComp_of local =
     (case local of
        Fin l \<Rightarrow> (if 0 < l then Fin ((0.12 / l) powr 0.6)
                  else if l = 0 then PInf
                  else NaN)
      | PInf \<Rightarrow> Fin 0
      | NInf \<Rightarrow> Fin 0
      | NaN \<Rightarrow> NaN)"

text \<open>
  The duration of a grain in seconds, \<open>durSec\<close> of \<open>_spawnGrain\<close>: the sum and the
  product are rounded to doubles, and \<open>0.002\<close> is the double of that literal.
\<close>

definition durSec_of :: "params \<Rightarrow> jsnum" where
  "durSec_of p =
     (let S = js_or (grainSize p) (Fin 1)
      in jmax (Fin (fl64 0.002))
           (r64 (jmul (r64 (jadd (js_or (attack p) (Fin 0)) (js_or (release p) (Fin 0)))) S)))"

text \<open>
  \<open>_spawnGrain(cursorIndex, params)\<close>, in parts. First the random offset of the
  start, \<open>offsetSec\<close>: \<open>Math.random()\<close> is called only when the spread is positive.
\<close>

definition spawn_offset :: "params \<Rightarrow> engine \<Rightarrow> jsnum \<times> engine" where
  "spawn_offset p s =
     (let spr = jmax (Fin 0) (js_or (spread p) (Fin 0))
      in if jlt (Fin 0) spr
         then (let (u, s') = Math_random s in (jmul (Fin (u * 2 - 1)) spr, s'))
         else (Fin 0, s))"

text \<open>
  Second, the start of the grain in the source, in frames (\<open>startIndex\<close>), for the
  offset \<open>offsetSec\<close>.
\<close>

definition startIndex_of :: "nat \<Rightarrow> params \<Rightarrow> engine \<Rightarrow> jsnum \<Rightarrow> jsnum" where
  "startIndex_of cursorIndex p s offsetSec =
     (let durSec = durSec_of p;
          bufDurSec = jdiv (Fin (real (bufferLength s))) (bufferSampleRate s);
          baseSec = jmul (positions s ! cursorIndex) bufDurSec;
          startSec0 = jadd baseSec offsetSec;
          startSec1 = (if jlt startSec0 (Fin 0) then Fin 0 else startSec0);
          startSec = (if jlt (jsub bufDurSec durSec) startSec1
                      then jmax (Fin 0) (jsub bufDurSec durSec) else startSec1)
      in jmul startSec (bufferSampleRate s))"

text \<open>
  The values written into the pool, for the offset \<open>offsetSec\<close> and the note
  \<open>semis\<close> taken from the held notes (\<open>None\<close> for \<open>null\<close>). The stores into the
  \<open>Int32Array\<close>s of the pool apply \<open>ToInt32\<close>. The number of frames of the envelope is
  the floor of the rounded product of duration and sample rate.
\<close>

definition new_grain :: "nat \<Rightarrow> params \<Rightarrow> engine \<Rightarrow> jsnum \<Rightarrow> int option \<Rightarrow> grain" where
  "new_grain cursorIndex p s offsetSec semis =
     (let durSec = durSec_of p;
          envFrames = jmax (Fin 1) (jfloor (r64 (jmul durSec (Fin (sampleRateOut s)))));
          startIndex = startIndex_of cursorIndex p s offsetSec;
          baseRate = jmax (Fin 0.01) (js_or (pitch p) (Fin 1));
          noteMult = (case semis of None \<Rightarrow> 1 | Some sm \<Rightarrow> 2 powr (real_of_int sm / 12));
          rate = jmul baseRate (Fin noteMult);
          inc = jmul rate (jdiv (bufferSampleRate s) (Fin (sampleRateOut s)));
          (panL, panR) = equalPowerPan (js_or (pan p) (Fin 0));
          local = loudnessAtIndex (loudMap s) startIndex;
          loudComp = loudComp_of local
      in \<lparr> g_cursor = cursorIndex,
           g_phase = startIndex,
           g_inc = inc,
           g_envPos = 0,
           g_envLen = to_int32 envFrames,
           g_panL = panL,
           g_panR = panR,
           g_gainC = loudComp \<rparr>)"

text \<open>
  Last, the function itself: the three early returns, the random offset, the next held
  note (which moves the round-robin index), and the new slot at the end of the pool.
\<close>

definition spawnGrain :: "nat \<Rightarrow> params \<Rightarrow> engine \<Rightarrow> engine" where
  "spawnGrain cursorIndex p s =
     (if \<not> playing s \<and> \<not> cursorHasKb cursorIndex s then s
      else if channels s = None \<or> bufferLength s = 0 then s
      else if length (grains s) \<ge> MAX_GRAINS then s
      else
        (let (offsetSec, s1) = spawn_offset p s;
             (semis, s2) = nextKbSemis cursorIndex s1;
             g = new_grain cursorIndex p s offsetSec semis
         in s2\<lparr> grains := grains s2 @ [g] \<rparr>))"

text \<open>\<open>_killGrainSwap(idx)\<close>: the last slot is moved into \<open>idx\<close>.\<close>

definition killGrainSwap :: "nat \<Rightarrow> grain list \<Rightarrow> grain list" where
  "killGrainSwap idx gs =
     (let last' = length gs - 1
      in if idx = last' then butlast gs else butlast (gs[idx := gs ! last']))"

definition spawnBudgetFactor :: "engine \<Rightarrow> real" where
  "spawnBudgetFactor s =
     (let n = real (length (grains s));
          M = real MAX_GRAINS
      in if n \<ge> fl64 (fl64 0.95 * M) then 0.0
         else if n \<ge> fl64 (fl64 0.85 * M) then fl64 0.20
         else if n \<ge> fl64 (fl64 0.70 * M) then fl64 0.40
         else if n \<ge> fl64 (fl64 0.50 * M) then fl64 0.65
         else 1.0)"

subsection \<open>Scheduling\<close>

text \<open>\<open>nextInt()\<close> of \<open>schedOne\<close>.\<close>

definition nextInt :: "jsnum \<Rightarrow> engine \<Rightarrow> int \<times> engine" where
  "nextInt effDen s =
     (let d = jmax (Fin (fl64 0.1)) effDen;
          (u, s') = Math_random s
      in (nextIntervalFramesPoisson (sampleRateOut s) d u, s'))"

text \<open>
  The \<open>while\<close> loop of \<open>schedOne\<close>; \<open>mx\<close> is \<open>this._maxSpawnPerBlock\<close>, which
  nothing changes after the constructor.
\<close>

function sched_loop ::
  "nat \<Rightarrow> nat \<Rightarrow> jsnum \<Rightarrow> nat \<Rightarrow> params \<Rightarrow> int \<Rightarrow> nat \<Rightarrow> engine \<Rightarrow> int \<times> nat \<times> engine"
where
  "sched_loop frames mx effDen cursorIdx p acc spawned s =
     (if acc \<le> int frames \<and> spawned < mx
      then (let s1 = spawnGrain cursorIdx p s;
                (n, s2) = nextInt effDen s1
            in sched_loop frames mx effDen cursorIdx p (acc + n) (spawned + 1) s2)
      else (acc, spawned, s))"
  by pat_completeness auto
termination
  by (relation "measure (\<lambda>(frames, mx, effDen, cursorIdx, p, acc, spawned, s). mx - spawned)")
     auto

declare sched_loop.simps [simp del]

text \<open>
  \<open>schedOne(p, framesToNext, cursorIdx)\<close> for a block of \<open>frames\<close> frames and the
  backpressure factor \<open>budget\<close>: the new countdown and the state after the spawns.
\<close>

definition schedOne ::
  "nat \<Rightarrow> real \<Rightarrow> params \<Rightarrow> int \<Rightarrow> nat \<Rightarrow> engine \<Rightarrow> int \<times> engine"
where
  "schedOne frames budget p framesToNext cursorIdx s =
     (let dens = jmax (Fin 0) (js_or (density p) (Fin 0));
          effDen = r64 (jmul dens (Fin budget))
      in if jle effDen (Fin 0) then (max 0 (framesToNext - int frames), s)
         else
           (let (framesToNext1, s1) =
                  (if framesToNext \<le> 0 then nextInt effDen s else (framesToNext, s))
            in if framesToNext1 \<le> int frames
               then (let s2 = spawnGrain cursorIdx p s1;
                         (n, s3) = nextInt effDen s2;
                         (acc, spawned, s4) =
                            sched_loop frames (maxSpawnPerBlock s) effDen cursorIdx p
                              (framesToNext1 + n) 1 s3
                     in (acc - int frames, s4))
               else (framesToNext1 - int frames, s1)))"

text \<open>The three cursors are scheduled one after the other.\<close>

definition schedule_block :: "nat \<Rightarrow> params \<Rightarrow> params \<Rightarrow> params \<Rightarrow> engine \<Rightarrow> engine" where
  "schedule_block frames pA pB pC s =
     (let kbA = cursorHasKb 0 s;
          kbB = cursorHasKb 1 s;
          kbC = cursorHasKb 2 s;
          budget = spawnBudgetFactor s;
          sA = (if playing s \<or> kbA
                then (let (c, s') = schedOne frames budget pA (framesToNextGrainA s) 0 s
                      in s'\<lparr> framesToNextGrainA := c \<rparr>)
                else s\<lparr> framesToNextGrainA := max 0 (framesToNextGrainA s - int frames) \<rparr>);
          sB = (if playing sA \<or> kbB
                then (let (c, s') = schedOne frames budget pB (framesToNextGrainB sA) 1 sA
                      in s'\<lparr> framesToNextGrainB := c \<rparr>)
                else sA\<lparr> framesToNextGrainB := max 0 (framesToNextGrainB sA - int frames) \<rparr>);
          sC = (if playing sB \<or> kbC
                then (let (c, s') = schedOne frames budget pC (framesToNextGrainC sB) 2 sB
                      in s'\<lparr> framesToNextGrainC := c \<rparr>)
                else sB\<lparr> framesToNextGrainC := max 0 (framesToNextGrainC sB - int frames) \<rparr>)
      in sC)"

subsection \<open>Soft kill\<close>

text \<open>
  \<open>tailFrames = Math.max(1, Math.floor((this._killTailMs / 1000) * this.sampleRateOut))\<close>,
  with the quotient and the product rounded to doubles.
\<close>

definition tailFrames :: "engine \<Rightarrow> jsnum" where
  "tailFrames s =
     jmax (Fin 1)
       (jfloor (r64 (jmul (r64 (jdiv (Fin (killTailMs s)) (Fin 1000))) (Fin (sampleRateOut s)))))"

text \<open>
  The first loop after the scheduling: every grain of a cursor with a pending kill gets
  \<open>Math.min(g_envLen[g], g_envPos[g] + tailFrames)\<close> as its length, stored into the
  \<open>Int32Array\<close>. The sum of two integers is exact in doubles.
\<close>

definition shorten_grain :: "bool list \<Rightarrow> jsnum \<Rightarrow> grain \<Rightarrow> grain" where
  "shorten_grain kp tail g =
     (if kp ! g_cursor g
      then g\<lparr> g_envLen :=
                to_int32 (jmin (Fin (real_of_int (g_envLen g)))
                               (jadd (Fin (real_of_int (g_envPos g))) tail)) \<rparr>
      else g)"

definition softKill :: "engine \<Rightarrow> engine" where
  "softKill s =
     (if killPending s ! 0 \<or> killPending s ! 1 \<or> killPending s ! 2
      then s\<lparr> grains := map (shorten_grain (killPending s) (tailFrames s)) (grains s) \<rparr>
      else s)"

text \<open>
  The second loop: \<open>hasA\<close>, \<open>hasB\<close>, \<open>hasC\<close> say whether the pool holds a grain of
  the cursor; the flag of a cursor without grains is reset.
\<close>

definition has_grain :: "nat \<Rightarrow> grain list \<Rightarrow> bool" where
  "has_grain c gs = list_ex (\<lambda>g. g_cursor g = c) gs"

definition resetKill :: "engine \<Rightarrow> engine" where
  "resetKill s =
     (if killPending s ! 0 \<or> killPending s ! 1 \<or> killPending s ! 2
      then (let hasA = has_grain 0 (grains s);
                hasB = has_grain 1 (grains s);
                hasC = has_grain 2 (grains s);
                k0 = (if \<not> hasA then (killPending s)[0 := False] else killPending s);
                k1 = (if \<not> hasB then k0[1 := False] else k0);
                k2 = (if \<not> hasC then k1[2 := False] else k1)
            in s\<lparr> killPending := k2 \<rparr>)
      else s)"

subsection \<open>Grain synthesis: the bookkeeping\<close>

text \<open>
  The loop over the pool, from the last slot down to slot 0. For each grain it renders
  \<open>N = Math.min(envLen - envPos, frames)\<close> frames into the bus of its cursor (the samples
  are not modelled), advances the phase \<open>N\<close> times by \<open>inc\<close> and the envelope position by
  \<open>N\<close>, and removes the grain when \<open>N \<le> 0\<close> or when the envelope is complete. The first
  argument counts the slots still to visit, so the slot visited is \<open>g\<close> in the second
  equation.
\<close>

fun render_loop :: "nat \<Rightarrow> nat \<Rightarrow> grain list \<Rightarrow> grain list" where
  "render_loop 0 frames gs = gs"
| "render_loop (Suc g) frames gs =
     (let envPos = g_envPos (gs ! g);
          envLen = g_envLen (gs ! g);
          N = min (envLen - envPos) (int frames)
      in if N \<le> 0 then render_loop g frames (killGrainSwap g gs)
         else
           (let gr = (gs ! g)\<lparr> g_phase := jadd (g_phase (gs ! g))
                                              (jmul (Fin (real_of_int N)) (g_inc (gs ! g))),
                               g_envPos := envPos + N \<rparr>;
                gs' = gs[g := gr]
            in if g_envPos gr \<ge> envLen then render_loop g frames (killGrainSwap g gs')
               else render_loop g frames gs'))"

definition render_grains :: "nat \<Rightarrow> engine \<Rightarrow> engine" where
  "render_grains frames s = s\<lparr> grains := render_loop (length (grains s)) frames (grains s) \<rparr>"

subsection \<open>One block\<close>

text \<open>
  What a call of \<open>process\<close> leaves in the two output channels: \<open>Zeroed\<close> when it returns
  at the audio gate, the channels still holding the zeros of the clearing loop;
  \<open>Rendered\<close> when the block went through grain synthesis, filters and limiter, whose
  samples are not modelled here.
\<close>

datatype block_audio = Zeroed "real list" "real list" | Rendered

text \<open>
  The part of \<open>process\<close> up to the audio gate: the outputs are cleared, the parameters
  read, the positions advanced and, at the visualisation rate, posted.
\<close>

definition process_head :: "nat \<Rightarrow> engine \<Rightarrow> (params \<times> params \<times> params) \<times> engine \<times> out_msg list" where
  "process_head frames s =
     (let (pA, pB, pC) = readParams s;
          s1 = advancePositions frames pA pB pC s;
          counter = vizCounter s1 + frames;
          doViz = (counter \<ge> vizIntervalFrames s1);
          s2 = s1\<lparr> vizCounter := (if doViz then 0 else counter) \<rparr>;
          hasKb = hasKbNotesAny s2;
          posted = (if doViz \<and> (playing s2 \<or> hasKb)
                    then [Positions [positions s2 ! 0, positions s2 ! 1, positions s2 ! 2]]
                    else [])
      in ((pA, pB, pC), s2, posted))"

definition audio_gate_closed :: "engine \<Rightarrow> bool" where
  "audio_gate_closed s =
     (let hasKb = hasKbNotesAny s;
          haveGrains = (length (grains s) > 0)
      in (\<not> playing s \<and> \<not> hasKb \<and> \<not> haveGrains) \<or> channels s = None \<or> bufferLength s = 0)"

text \<open>
  \<open>process(inputs, outputs)\<close> for a stereo output of \<open>frames\<close> frames (the node is
  created with \<open>outputChannelCount: [2]\<close>): the new state, the messages posted by the
  control path and the audio.
\<close>

definition process :: "nat \<Rightarrow> engine \<Rightarrow> engine \<times> out_msg list \<times> block_audio" where
  "process frames s =
     (let outL = replicate frames 0;
          outR = replicate frames 0;
          ((pA, pB, pC), s1, posted) = process_head frames s
      in if audio_gate_closed s1 then (s1, posted, Zeroed outL outR)
         else
           (let s2 = schedule_block frames pA pB pC s1;
                s3 = softKill s2;
                s4 = resetKill s3;
                s5 = render_grains frames s4
            in (s5, posted, Rendered)))"

text \<open>Several blocks in a row, with the audio of each.\<close>

fun run_blocks :: "nat list \<Rightarrow> engine \<Rightarrow> engine \<times> block_audio list" where
  "run_blocks [] s = (s, [])"
| "run_blocks (frames # rest) s =
     (let (s1, posted, a) = process frames s;
          (s2, as) = run_blocks rest s1
      in (s2, a # as))"

text \<open>
  The samples that a block leaves in its two output channels, left channel first, as far as
  they are modelled.
\<close>

fun block_samples :: "block_audio \<Rightarrow> real list" where
  "block_samples (Zeroed l r) = l @ r"
| "block_samples Rendered = []"

text \<open>The parameters of cursor \<open>i\<close> in the snapshot of a block.\<close>

fun cursor_params :: "nat \<Rightarrow> params \<times> params \<times> params \<Rightarrow> params" where
  "cursor_params i (pA, pB, pC) = (if i = 0 then pA else if i = 1 then pB else pC)"

section \<open>Concrete inputs\<close>

text \<open>A run in which \<open>Math.random()\<close> always returns the same value \<open>u\<close>.\<close>

definition rnd_const :: "real \<Rightarrow> nat \<Rightarrow> real" where
  "rnd_const u k = u"

text \<open>
  The shared array as \<open>initSAB\<close> of sab.js fills it: 45 zeros, then the parameters of the
  three cursors; the attack of cursor A is set to 0.3 s.
\<close>

definition plane_example :: "jsnum list" where
  "plane_example =
     writeParamsToSAB 2 defaultParams
       (writeParamsToSAB 1 defaultParams
          (writeParamsToSAB 0 (defaultParams\<lparr> attack := Fin 0.3 \<rparr>)
             (replicate 45 (Fin 0))))"

text \<open>The engine at 48 kHz after \<open>setParamSAB\<close> with this array and stride 15.\<close>

definition engine_with_plane :: engine where
  "engine_with_plane =
     fst (onmessage (SetParamSAB (Some plane_example) (Fin 15)) (construct 48000 (rnd_const 0)))"

text \<open>
  The engine at 48 kHz with a mono source of one second, global play on, and a random
  sequence that is constantly 1/2.
\<close>

definition engine_playing :: engine where
  "engine_playing =
     fst (onmessage (SetPlaying True)
       (fst (onmessage (SetBufferMono (replicate 48000 (Fin 0)) (Fin 48000))
          (construct 48000 (rnd_const (1 / 2))))))"

text \<open>A loudness map of four windows of 2048 frames.\<close>

definition map_example :: loudMap where
  "map_example =
     \<lparr> rms = [0.5, 0.4, 0.3, 0.00001], win = Fin 2048, lm_sr = Fin 48000, lm_len = Fin 8192 \<rparr>"

definition engine_with_map :: engine where
  "engine_with_map = fst (onmessage (SetLoudnessMap (Some map_example)) engine_playing)"


text \<open>The same engine after \<open>setParamsFor\<close> has set the density of cursor A to 48000.\<close>

definition engine_dense :: engine where
  "engine_dense = fst (onmessage (SetParamsFor 0 [(F_density, Fin 48000)]) engine_playing)"


section \<open>Rounding to the nearest double or float\<close>

text \<open>
  Facts about \<open>fl\<close>: it is the identity on representable numbers, monotone against
  representable bounds, odd, and within half a unit in the last place of its argument.
\<close>

lemma round_even_of_int [simp]: "round_even (real_of_int n) = n"
  by (simp add: round_even_def)

lemma round_even_bounds: "\<lfloor>x\<rfloor> \<le> round_even x" "round_even x \<le> \<lceil>x\<rceil>"
proof -
  show "\<lfloor>x\<rfloor> \<le> round_even x" by (simp add: round_even_def)
  show "round_even x \<le> \<lceil>x\<rceil>"
  proof (cases "x \<in> \<int>")
    case True
    then obtain n where "x = of_int n" by (auto elim: Ints_cases)
    then show ?thesis by simp
  next
    case False
    then have "\<lceil>x\<rceil> = \<lfloor>x\<rfloor> + 1" by (simp add: ceiling_altdef Ints_def) (metis Ints_of_int False)
    then show ?thesis by (simp add: round_even_def)
  qed
qed

lemma round_even_le: "x \<le> real_of_int n \<Longrightarrow> round_even x \<le> n"
  using round_even_bounds(2) [of x] by (meson ceiling_le order_trans)

lemma round_even_ge: "real_of_int n \<le> x \<Longrightarrow> n \<le> round_even x"
  using round_even_bounds(1) [of x] by (meson le_floor_iff order_trans)

lemma round_even_error: "\<bar>real_of_int (round_even x) - x\<bar> \<le> 1 / 2"
proof -
  have f: "x = real_of_int \<lfloor>x\<rfloor> + frac x" by (simp add: frac_def)
  have "0 \<le> frac x" "frac x < 1" by (simp_all add: frac_lt_1)
  then show ?thesis
    unfolding round_even_def using f by (auto simp: abs_if) linarith+
qed

lemma round_even_minus: "round_even (- x) = - round_even x"
proof (cases "x \<in> \<int>")
  case True
  then obtain n where "x = of_int n" by (auto elim: Ints_cases)
  then have "- x = of_int (- n)" by simp
  then show ?thesis unfolding \<open>x = of_int n\<close> by (simp only: round_even_of_int)
next
  case False
  then have fl: "\<lfloor>- x\<rfloor> = - \<lfloor>x\<rfloor> - 1"
    by (metis Ints_of_int ceiling_altdef ceiling_def add_diff_cancel_right' minus_diff_eq
        minus_add_distrib uminus_add_conv_diff)
  then have fr: "frac (- x) = 1 - frac x" by (simp add: frac_def)
  show ?thesis
    unfolding round_even_def fl fr by auto
qed


lemma two_powi_pos [simp]: "0 < (2::real) powi k"
  by (simp add: zero_less_power_int)

lemma two_powi_mono: "a \<le> b \<Longrightarrow> (2::real) powi a \<le> 2 powi b"
  by (rule power_int_increasing) simp_all

lemma two_powi_less_imp: "(2::real) powi a < 2 powi b \<Longrightarrow> a < b"
  using two_powi_mono [of b a] by (cases "a < b") auto

lemma two_powi_add: "(2::real) powi (a + b) = 2 powi a * 2 powi b"
  by (rule power_int_add) simp

lemma two_powi_diff: "(2::real) powi (a - b) = 2 powi a / 2 powi b"
  by (rule power_int_diff) simp

lemma two_powi_nonneg_int: "0 \<le> k \<Longrightarrow> (2::real) powi k = real_of_int (2 ^ nat k)"
  by (simp add: power_int_def)

lemma floor_log2_iff:
  assumes "x \<noteq> 0"
  shows "\<lfloor>log 2 \<bar>x\<bar>\<rfloor> = k \<longleftrightarrow> 2 powi k \<le> \<bar>x\<bar> \<and> \<bar>x\<bar> < 2 powi (k + 1)"
proof -
  have "0 < \<bar>x\<bar>" using assms by simp
  then have "\<lfloor>log 2 \<bar>x\<bar>\<rfloor> = k \<longleftrightarrow>
             2 powr real_of_int k \<le> \<bar>x\<bar> \<and> \<bar>x\<bar> < 2 powr real_of_int (k + 1)"
    using floor_log_eq_powr_iff [of "\<bar>x\<bar>" 2 k] by simp
  then show ?thesis by (simp only: powr_real_of_int' [of 2, simplified])
qed

lemma binade:
  assumes "x \<noteq> 0"
  shows "2 powi \<lfloor>log 2 \<bar>x\<bar>\<rfloor> \<le> \<bar>x\<bar>" "\<bar>x\<bar> < 2 powi (\<lfloor>log 2 \<bar>x\<bar>\<rfloor> + 1)"
  using floor_log2_iff [OF assms, of "\<lfloor>log 2 \<bar>x\<bar>\<rfloor>"] by simp_all

lemma floor_log2_mono:
  assumes "x \<noteq> 0" "\<bar>x\<bar> \<le> \<bar>y\<bar>"
  shows "\<lfloor>log 2 \<bar>x\<bar>\<rfloor> \<le> \<lfloor>log 2 \<bar>y\<bar>\<rfloor>"
proof -
  have "0 < \<bar>x\<bar>" using assms by simp
  then have "log 2 \<bar>x\<bar> \<le> log 2 \<bar>y\<bar>" using assms(2) by simp
  then show ?thesis by (rule floor_mono)
qed

lemma ulp_exp_mono:
  assumes "x \<noteq> 0" "\<bar>x\<bar> \<le> \<bar>y\<bar>"
  shows "ulp_exp p emin x \<le> ulp_exp p emin y"
  using floor_log2_mono [OF assms] by (simp add: ulp_exp_def)

lemma ulp_exp_minus [simp]: "ulp_exp p emin (- x) = ulp_exp p emin x"
  by (simp add: ulp_exp_def)

lemma fl_minus: "fl p emin (- x) = - fl p emin x"
  by (simp add: fl_def round_even_minus)

lemma fl_0 [simp]: "fl p emin 0 = 0"
  by (simp add: fl_def)

lemma fl_at_binade:
  assumes "2 powi k \<le> \<bar>x\<bar>" "\<bar>x\<bar> < 2 powi (k + 1)"
  shows "fl p emin x =
         real_of_int (round_even (x / 2 powi max emin (k - int p + 1))) *
         2 powi max emin (k - int p + 1)"
proof -
  have "(0::real) < 2 powi k" by simp
  then have "0 < \<bar>x\<bar>" using assms(1) by linarith
  then have x: "x \<noteq> 0" by simp
  have "\<lfloor>log 2 \<bar>x\<bar>\<rfloor> = k" using floor_log2_iff [OF x] assms by simp
  then show ?thesis using x by (simp add: fl_def ulp_exp_def)
qed

lemma representable_multiple:
  assumes "representable p emin x" "x \<noteq> 0"
  shows "\<exists>n. x = real_of_int n * 2 powi ulp_exp p emin x"
proof -
  obtain m k where x: "x = real_of_int m * 2 powi k" and m: "\<bar>m\<bar> < 2 ^ p" and k: "emin \<le> k"
    using assms(1) by (auto simp: representable_def)
  define j where "j = \<lfloor>log 2 \<bar>x\<bar>\<rfloor>"
  have "2 powi j \<le> \<bar>x\<bar>" unfolding j_def using assms(2) by (rule binade)
  also have "\<bar>x\<bar> = real_of_int \<bar>m\<bar> * 2 powi k" by (simp add: x abs_mult)
  also have "\<dots> < real_of_int (2 ^ p) * 2 powi k"
  proof -
    have "real_of_int \<bar>m\<bar> < real_of_int (2 ^ p)" using m by (simp only: of_int_less_iff)
    then show ?thesis by (intro mult_strict_right_mono) simp_all
  qed
  also have "\<dots> = 2 powi (int p + k)" by (simp add: two_powi_add)
  finally have "j < int p + k" by (rule two_powi_less_imp)
  then have e: "ulp_exp p emin x \<le> k" using k by (simp add: ulp_exp_def j_def)
  define e where "e = ulp_exp p emin x"
  have "(2::real) powi k = 2 powi (k - e) * 2 powi e"
    by (simp add: two_powi_diff)
  also have "2 powi (k - e) = real_of_int (2 ^ nat (k - e))"
    using e by (intro two_powi_nonneg_int) (simp add: e_def)
  finally have "x = real_of_int (m * 2 ^ nat (k - e)) * 2 powi e"
    by (simp add: x)
  then show ?thesis unfolding e_def by blast
qed

lemma fl_exact:
  assumes "representable p emin x"
  shows "fl p emin x = x"
proof (cases "x = 0")
  case True
  then show ?thesis by simp
next
  case False
  obtain n where n: "x = real_of_int n * 2 powi ulp_exp p emin x"
    using representable_multiple [OF assms False] by blast
  have "x / 2 powi ulp_exp p emin x = real_of_int n"
    by (subst n) simp
  then show ?thesis using False n by (simp add: fl_def)
qed

lemma fl_nonneg: "0 \<le> x \<Longrightarrow> 0 \<le> fl p emin x"
proof (cases "x = 0")
  case False
  assume "0 \<le> x"
  then have "real_of_int 0 \<le> x / 2 powi ulp_exp p emin x" by simp
  then have "0 \<le> round_even (x / 2 powi ulp_exp p emin x)" by (rule round_even_ge)
  then show ?thesis using False by (simp add: fl_def)
qed simp

lemma fl_nonpos: "x \<le> 0 \<Longrightarrow> fl p emin x \<le> 0"
  using fl_nonneg [of "- x" p emin] by (simp add: fl_minus)

lemma representable_minus: "representable p emin x \<Longrightarrow> representable p emin (- x)"
proof -
  assume "representable p emin x"
  then obtain m k where "x = real_of_int m * 2 powi k" "\<bar>m\<bar> < 2 ^ p" "emin \<le> k"
    by (auto simp: representable_def)
  then have "- x = real_of_int (- m) * 2 powi k \<and> \<bar>- m\<bar> < 2 ^ p \<and> emin \<le> k" by simp
  then show ?thesis unfolding representable_def by blast
qed

lemma fl_le_pos:
  assumes "0 < x" "x \<le> b" "representable p emin b"
  shows "fl p emin x \<le> b"
proof -
  define e where "e = ulp_exp p emin x"
  have b0: "b \<noteq> 0" using assms by simp
  have x0: "x \<noteq> 0" using assms by simp
  obtain n where n: "b = real_of_int n * 2 powi ulp_exp p emin b"
    using representable_multiple [OF assms(3) b0] by blast
  have le: "e \<le> ulp_exp p emin b"
    unfolding e_def using assms by (intro ulp_exp_mono) simp_all
  have "(2::real) powi ulp_exp p emin b = 2 powi (ulp_exp p emin b - e) * 2 powi e"
    by (simp add: two_powi_diff)
  also have "2 powi (ulp_exp p emin b - e) = real_of_int (2 ^ nat (ulp_exp p emin b - e))"
    using le by (intro two_powi_nonneg_int) simp
  finally have b: "b = real_of_int (n * 2 ^ nat (ulp_exp p emin b - e)) * 2 powi e"
    by (subst n) simp
  define N where "N = n * 2 ^ nat (ulp_exp p emin b - e)"
  have "x / 2 powi e \<le> b / 2 powi e" using assms(2) by (simp add: divide_right_mono)
  also have "b / 2 powi e = real_of_int N" by (subst b) (simp add: N_def)
  finally have "round_even (x / 2 powi e) \<le> N" by (rule round_even_le)
  then have "real_of_int (round_even (x / 2 powi e)) * 2 powi e \<le> real_of_int N * 2 powi e"
    by (intro mult_right_mono) simp_all
  also have "real_of_int N * 2 powi e = b" unfolding N_def by (rule b [symmetric])
  finally show ?thesis using x0 by (simp add: fl_def e_def)
qed

lemma fl_ge_pos:
  assumes "0 < a" "a \<le> x" "representable p emin a" "0 < p"
  shows "a \<le> fl p emin x"
proof -
  define e where "e = ulp_exp p emin x"
  have a0: "a \<noteq> 0" and x0: "x \<noteq> 0" using assms by simp_all
  have fl: "fl p emin x = real_of_int (round_even (x / 2 powi e)) * 2 powi e"
    using x0 by (simp add: fl_def e_def)
  have le: "ulp_exp p emin a \<le> e"
    unfolding e_def using assms by (intro ulp_exp_mono) simp_all
  show ?thesis
  proof (cases "ulp_exp p emin a = e")
    case True
    obtain n where n: "a = real_of_int n * 2 powi e"
      using representable_multiple [OF assms(3) a0] True by auto
    have "real_of_int n = a / 2 powi e" by (subst n) simp
    also have "\<dots> \<le> x / 2 powi e" using assms(2) by (simp add: divide_right_mono)
    finally have "n \<le> round_even (x / 2 powi e)" by (rule round_even_ge)
    then have "real_of_int n * 2 powi e \<le> real_of_int (round_even (x / 2 powi e)) * 2 powi e"
      by (intro mult_right_mono) simp_all
    then show ?thesis using n fl by simp
  next
    case False
    with le have lt: "ulp_exp p emin a < e" by simp
    define j where "j = \<lfloor>log 2 \<bar>x\<bar>\<rfloor>"
    define ja where "ja = \<lfloor>log 2 \<bar>a\<bar>\<rfloor>"
    have ej: "e = j - int p + 1" and jaj: "ja < j"
      using lt by (auto simp: ulp_exp_def e_def j_def ja_def)
    have "a < 2 powi (ja + 1)" using binade(2) [OF a0] assms(1) by (simp add: ja_def)
    also have "\<dots> \<le> 2 powi j" using jaj by (intro two_powi_mono) simp
    finally have aj: "a < 2 powi j" .
    have xj: "2 powi j \<le> x" using binade(1) [OF x0] assms by (simp add: j_def)
    have "(2::real) powi j = 2 powi (j - e) * 2 powi e" by (simp add: two_powi_diff)
    also have "2 powi (j - e) = real_of_int (2 ^ nat (j - e))"
      using assms(4) by (intro two_powi_nonneg_int) (simp add: ej)
    finally have pj: "2 powi j = real_of_int (2 ^ nat (j - e)) * 2 powi e" .
    have "real_of_int (2 ^ nat (j - e)) = 2 powi j / 2 powi e" by (subst pj) simp
    also have "\<dots> \<le> x / 2 powi e" using xj by (simp add: divide_right_mono)
    finally have "2 ^ nat (j - e) \<le> round_even (x / 2 powi e)" by (rule round_even_ge)
    then have "real_of_int (2 ^ nat (j - e)) * 2 powi e \<le>
               real_of_int (round_even (x / 2 powi e)) * 2 powi e"
      by (intro mult_right_mono) simp_all
    then have "2 powi j \<le> fl p emin x" using pj fl by simp
    then show ?thesis using aj by simp
  qed
qed

lemma fl_le_repr:
  assumes "x \<le> b" "representable p emin b" "0 < p"
  shows "fl p emin x \<le> b"
proof -
  consider "0 < x" | "x \<le> 0" "0 \<le> b" | "x \<le> 0" "b < 0" by linarith
  then show ?thesis
  proof cases
    case 1
    then show ?thesis using assms by (intro fl_le_pos)
  next
    case 2
    then show ?thesis using fl_nonpos [of x p emin] by simp
  next
    case 3
    have "- b \<le> fl p emin (- x)"
      using 3 assms by (intro fl_ge_pos representable_minus) simp_all
    then show ?thesis by (simp add: fl_minus)
  qed
qed

lemma fl_ge_repr:
  assumes "a \<le> x" "representable p emin a" "0 < p"
  shows "a \<le> fl p emin x"
proof -
  have "fl p emin (- x) \<le> - a"
    using assms by (intro fl_le_repr representable_minus) simp_all
  then show ?thesis by (simp add: fl_minus)
qed

lemma fl_error:
  "\<bar>fl p emin x - x\<bar> \<le> \<bar>x\<bar> * 2 powi (- int p) + 2 powi (emin - 1)"
proof (cases "x = 0")
  case True
  then show ?thesis by (simp add: less_imp_le)
next
  case False
  define e where "e = ulp_exp p emin x"
  define j where "j = \<lfloor>log 2 \<bar>x\<bar>\<rfloor>"
  have "fl p emin x - x = (real_of_int (round_even (x / 2 powi e)) - x / 2 powi e) * 2 powi e"
    using False by (simp add: fl_def e_def algebra_simps)
  then have "\<bar>fl p emin x - x\<bar> = \<bar>real_of_int (round_even (x / 2 powi e)) - x / 2 powi e\<bar> * 2 powi e"
    by (simp add: abs_mult)
  also have "\<dots> \<le> 1 / 2 * 2 powi e"
    by (intro mult_right_mono round_even_error) simp
  finally have err: "\<bar>fl p emin x - x\<bar> \<le> 2 powi e / 2" by simp
  have "(2::real) powi e \<le> 2 * (\<bar>x\<bar> * 2 powi (- int p)) + 2 powi emin"
  proof (cases "e = emin")
    case True
    then show ?thesis by simp
  next
    case F: False
    then have "e = j - int p + 1" by (auto simp: e_def ulp_exp_def j_def)
    then have "(2::real) powi e = 2 powi (j + (- int p) + 1)" by simp
    also have "\<dots> = 2 powi j * 2 powi (- int p) * 2"
      by (simp only: two_powi_add) simp
    finally have "(2::real) powi e = 2 powi j * 2 powi (- int p) * 2" .
    also have "\<dots> \<le> \<bar>x\<bar> * 2 powi (- int p) * 2"
      using binade(1) [OF False] by (intro mult_right_mono) (simp_all add: j_def)
    finally have "(2::real) powi e \<le> \<bar>x\<bar> * 2 powi (- int p) * 2" .
    moreover have "(0::real) < 2 powi emin" by simp
    ultimately show ?thesis by linarith
  qed
  moreover have "(2::real) powi emin = 2 * 2 powi (emin - 1)"
    by (simp add: two_powi_diff)
  ultimately show ?thesis using err by simp
qed


text \<open>Doubles and floats: evaluation in a known binade, and results that stay finite.\<close>

lemma fl64_eval:
  assumes "2 powi k \<le> \<bar>x\<bar>" "\<bar>x\<bar> < 2 powi (k + 1)" "- 1022 \<le> k"
  shows "fl64 x = real_of_int (round_even (x / 2 powi (k - 52))) * 2 powi (k - 52)"
proof -
  have "max (- 1074) (k - int 53 + 1) = k - 52" using assms(3) by simp
  then show ?thesis using fl_at_binade [OF assms(1,2), of 53 "- 1074"] by (simp add: fl64_def)
qed

lemma fl32_eval:
  assumes "2 powi k \<le> \<bar>x\<bar>" "\<bar>x\<bar> < 2 powi (k + 1)" "- 126 \<le> k"
  shows "fl32 x = real_of_int (round_even (x / 2 powi (k - 23))) * 2 powi (k - 23)"
proof -
  have "max (- 149) (k - int 24 + 1) = k - 23" using assms(3) by simp
  then show ?thesis using fl_at_binade [OF assms(1,2), of 24 "- 149"] by (simp add: fl32_def)
qed

lemma representableI:
  "x = real_of_int m * 2 powi k \<Longrightarrow> \<bar>m\<bar> < 2 ^ p \<Longrightarrow> emin \<le> k \<Longrightarrow> representable p emin x"
  unfolding representable_def by blast

lemma representable_power2:
  assumes "0 < p" "emin \<le> 0"
  shows "representable p emin (2 ^ n)"
proof (rule representableI [of _ 1 "int n"])
  show "(2::real) ^ n = real_of_int 1 * 2 powi int n" by simp
  show "\<bar>1::int\<bar> < 2 ^ p" using assms(1) by simp
  show "emin \<le> int n" using assms(2) by simp
qed

lemma fl_abs_le:
  assumes "\<bar>x\<bar> \<le> b" "representable p emin b" "0 < p"
  shows "\<bar>fl p emin x\<bar> \<le> b"
proof -
  have "fl p emin x \<le> b" using assms by (intro fl_le_repr) simp_all
  moreover have "- b \<le> fl p emin x"
    using assms by (intro fl_ge_repr representable_minus) simp_all
  ultimately show ?thesis by simp
qed

lemma fl64_abs_le_power2: "\<bar>x\<bar> \<le> 2 ^ n \<Longrightarrow> \<bar>fl64 x\<bar> \<le> 2 ^ n"
  unfolding fl64_def by (rule fl_abs_le) (simp_all add: representable_power2)

lemma fl32_abs_le_power2: "\<bar>x\<bar> \<le> 2 ^ n \<Longrightarrow> \<bar>fl32 x\<bar> \<le> 2 ^ n"
  unfolding fl32_def by (rule fl_abs_le) (simp_all add: representable_power2)

lemma fl64_nonneg: "0 \<le> x \<Longrightarrow> 0 \<le> fl64 x"
  unfolding fl64_def by (rule fl_nonneg)

lemma fl32_nonneg: "0 \<le> x \<Longrightarrow> 0 \<le> fl32 x"
  unfolding fl32_def by (rule fl_nonneg)

lemma fl64_le_power2: "x \<le> 2 ^ n \<Longrightarrow> fl64 x \<le> 2 ^ n"
  unfolding fl64_def by (rule fl_le_repr) (simp_all add: representable_power2)

lemma fl32_le_power2: "x \<le> 2 ^ n \<Longrightarrow> fl32 x \<le> 2 ^ n"
  unfolding fl32_def by (rule fl_le_repr) (simp_all add: representable_power2)

lemma r64_Fin:
  assumes "\<bar>x\<bar> \<le> 2 ^ 1000"
  shows "r64 (Fin x) = Fin (fl64 x)"
proof -
  have "\<bar>fl64 x\<bar> \<le> 2 ^ 1000" using assms by (rule fl64_abs_le_power2)
  moreover have "(2::real) ^ 1000 < 2 powi 1024" by simp
  ultimately have "\<not> 2 powi 1024 \<le> \<bar>fl64 x\<bar>" by linarith
  then show ?thesis by (simp add: r64.simps)
qed

lemma r32_Fin:
  assumes "\<bar>x\<bar> \<le> 2 ^ 100"
  shows "r32 (Fin x) = Fin (fl32 x)"
proof -
  have "\<bar>fl32 x\<bar> \<le> 2 ^ 100" using assms by (rule fl32_abs_le_power2)
  moreover have "(2::real) ^ 100 < 2 powi 128" by simp
  ultimately have "\<not> 2 powi 128 \<le> \<bar>fl32 x\<bar>" by linarith
  then show ?thesis by (simp add: r32.simps)
qed

lemma fl64_int:
  assumes "\<bar>n\<bar> < 2 ^ 53"
  shows "fl64 (real_of_int n) = real_of_int n"
  unfolding fl64_def
proof (rule fl_exact, rule representableI [of _ n 0])
  show "real_of_int n = real_of_int n * 2 powi 0" by simp
  show "\<bar>n\<bar> < 2 ^ 53" by (rule assms)
  show "- 1074 \<le> (0::int)" by simp
qed

lemma r64_0 [simp]: "r64 (Fin 0) = Fin 0"
  using r64_Fin [of 0] by (simp add: fl64_def)

lemma r32_0 [simp]: "r32 (Fin 0) = Fin 0"
  using r32_Fin [of 0] by (simp add: fl32_def)
section \<open>Basic facts\<close>

lemma construct_fields:
  "sampleRateOut (construct rate rnd) = rate"
  "positions (construct rate rnd) = [Fin (fl32 (fl64 0.15)), Fin (fl32 (fl64 0.50)), Fin (fl32 (fl64 0.85))]"
  "paramView (construct rate rnd) = None"
  "paramsA (construct rate rnd) = defaultParams"
  "paramsB (construct rate rnd) = defaultParams"
  "paramsC (construct rate rnd) = defaultParams"
  "channels (construct rate rnd) = None"
  "grains (construct rate rnd) = []"
  "playing (construct rate rnd) = False"
  "killPending (construct rate rnd) = [False, False, False]"
  "kbNotes (construct rate rnd) = [[], [], []]"
  by (simp_all add: construct_def)

section \<open>Cutoff mapping\<close>

lemma uiToHz_20_18000: "uiToHz t 20 18000 = 20 * 900 powr (max 0 (min 1 t))"
  by (simp add: uiToHz_def clamp_def)

lemma powr_900_bounds:
  fixes e :: real
  assumes "0 \<le> e" "e \<le> 1"
  shows "1 \<le> 900 powr e" "900 powr e \<le> 900"
proof -
  have "(900::real) powr 0 \<le> 900 powr e"
    using assms(1) by (intro powr_mono) simp_all
  then show "1 \<le> (900::real) powr e" by simp
  have "(900::real) powr e \<le> 900 powr 1"
    using assms(2) by (intro powr_mono) simp_all
  then show "(900::real) powr e \<le> 900" by simp
qed

lemma mapCut_ge_20: "20 \<le> mapCut rate v"
proof (cases v)
  case (Fin f)
  show ?thesis
  proof (cases "f \<le> 1.5")
    case True
    have "1 \<le> (900::real) powr (max 0 (min 1 (clamp01 f)))"
      by (rule powr_900_bounds) simp_all
    then show ?thesis using Fin True by (simp add: mapCut_def uiToHz_20_18000)
  next
    case False
    then show ?thesis using Fin by (simp add: mapCut_def clamp_def)
  qed
qed (simp_all add: mapCut_def)

text \<open>
  C10. The cutoff parameter is disambiguated by value: a non-finite cutoff gives 2000 Hz;
  a finite cutoff of at most 1.5 is clamped to [0,1] and mapped exponentially into
  [20, 18000] Hz; a finite cutoff above 1.5 is clamped to [20, 0.45 sr_out]; in every case
  the base cutoff is at least 20 Hz.
\<close>

theorem mapCut_by_value:
  "(\<not> isFinite v \<longrightarrow> mapCut rate v = 2000) \<and>
   (\<forall>f. v = Fin f \<and> f \<le> 1.5 \<longrightarrow>
        mapCut rate v = 20 * (18000 / 20) powr (max 0 (min 1 f)) \<and>
        20 \<le> mapCut rate v \<and> mapCut rate v \<le> 18000) \<and>
   (\<forall>f. v = Fin f \<and> 1.5 < f \<longrightarrow>
        mapCut rate v = max 20 (min (0.45 * rate) f) \<and>
        (20 \<le> 0.45 * rate \<longrightarrow> mapCut rate v \<le> 0.45 * rate)) \<and>
   20 \<le> mapCut rate v"
proof (intro conjI allI impI)
  show "mapCut rate v = 2000" if "\<not> isFinite v"
    using that by (cases v) (simp_all add: mapCut_def)
next
  fix f assume h: "v = Fin f \<and> f \<le> 1.5"
  have e: "max 0 (min 1 (clamp01 f)) = max 0 (min 1 f)"
    by (simp add: clamp01_def)
  show eq: "mapCut rate v = 20 * (18000 / 20) powr (max 0 (min 1 f))"
    using h by (simp add: mapCut_def uiToHz_20_18000 e)
  show "20 \<le> mapCut rate v" by (rule mapCut_ge_20)
  have "(900::real) powr (max 0 (min 1 f)) \<le> 900"
    by (rule powr_900_bounds) simp_all
  then show "mapCut rate v \<le> 18000" using eq by simp
next
  fix f assume h: "v = Fin f \<and> 1.5 < f"
  show "mapCut rate v = max 20 (min (0.45 * rate) f)"
    using h by (simp add: mapCut_def clamp_def)
  then show "mapCut rate v \<le> 0.45 * rate" if "20 \<le> 0.45 * rate"
    using that by simp
next
  show "20 \<le> mapCut rate v" by (rule mapCut_ge_20)
qed

theorem mapCut_by_value_witness:
  "mapCut 48000 NaN = 2000 \<and> mapCut 48000 (Fin 1) = 18000 \<and>
   mapCut 48000 (Fin 5000) = 5000 \<and> mapCut 48000 (Fin 30000) = 21600 \<and>
   mapCut 48000 (Fin 2) = 20"
proof -
  have a: "mapCut 48000 NaN = 2000"
    using mapCut_by_value [of NaN 48000] by simp
  have b: "mapCut 48000 (Fin 1) = 18000"
    using mapCut_by_value [of "Fin 1" 48000] by simp
  have c: "mapCut 48000 (Fin 5000) = 5000"
    using mapCut_by_value [of "Fin 5000" 48000] by simp
  have d: "mapCut 48000 (Fin 30000) = 21600"
    using mapCut_by_value [of "Fin 30000" 48000] by simp
  have e: "mapCut 48000 (Fin 2) = 20"
    using mapCut_by_value [of "Fin 2" 48000] by simp
  show ?thesis using a b c d e by simp
qed

section \<open>What the scheduling and the grain loop leave alone\<close>

lemma advancePositions_frame:
  "\<exists>P. advancePositions frames pA pB pC s = s\<lparr> positions := P \<rparr>"
  unfolding advancePositions_def Let_def by blast

lemma Math_random_frame:
  "\<exists>r. snd (Math_random s) = s\<lparr> rng := r \<rparr>"
  unfolding Math_random_def snd_conv by blast

lemma nextKbSemis_frame:
  "\<exists>k. snd (nextKbSemis c s) = s\<lparr> kbRR := k \<rparr>"
proof (cases "length (kbNotes s ! c) = 0")
  case True
  then have e: "snd (nextKbSemis c s) = s" by (simp add: nextKbSemis_def Let_def)
  have "snd (nextKbSemis c s) = s\<lparr> kbRR := kbRR s \<rparr>"
    by (rule trans [OF e]) simp
  then show ?thesis by blast
next
  case False
  then have "snd (nextKbSemis c s) =
             s\<lparr> kbRR := (kbRR s)[c := ((kbRR s ! c) + 1) mod length (kbNotes s ! c)] \<rparr>"
    by (simp add: nextKbSemis_def Let_def)
  then show ?thesis by blast
qed

lemma nextInt_frame:
  "\<exists>r. snd (nextInt effDen s) = s\<lparr> rng := r \<rparr>"
proof -
  have "snd (nextInt effDen s) = s\<lparr> rng := (\<lambda>k. rng s (Suc k)) \<rparr>"
    by (simp add: nextInt_def Math_random_def Let_def)
  then show ?thesis by blast
qed

lemma spawn_offset_frame:
  "\<exists>r. snd (spawn_offset p s) = s\<lparr> rng := r \<rparr>"
proof (cases "jlt (Fin 0) (jmax (Fin 0) (js_or (spread p) (Fin 0)))")
  case True
  then have "snd (spawn_offset p s) = s\<lparr> rng := (\<lambda>k. rng s (Suc k)) \<rparr>"
    by (simp add: spawn_offset_def Let_def Math_random_def)
  then show ?thesis by blast
next
  case False
  then have e: "snd (spawn_offset p s) = s" by (simp add: spawn_offset_def Let_def)
  have "snd (spawn_offset p s) = s\<lparr> rng := rng s \<rparr>" by (rule trans [OF e]) simp
  then show ?thesis by blast
qed

lemma spawnGrain_spawns:
  assumes "playing s \<or> cursorHasKb c s" "channels s \<noteq> None" "bufferLength s \<noteq> 0"
    "length (grains s) < MAX_GRAINS"
  shows "spawnGrain c p s =
     (snd (nextKbSemis c (snd (spawn_offset p s))))
       \<lparr> grains := grains s @
           [new_grain c p s (fst (spawn_offset p s))
              (fst (nextKbSemis c (snd (spawn_offset p s))))] \<rparr>"
proof -
  obtain off s1 where o: "spawn_offset p s = (off, s1)" by (cases "spawn_offset p s")
  obtain sm s2 where k: "nextKbSemis c s1 = (sm, s2)" by (cases "nextKbSemis c s1")
  obtain r where s1: "s1 = s\<lparr> rng := r \<rparr>"
    using spawn_offset_frame [of p s] o by auto
  obtain kk where s2: "s2 = s1\<lparr> kbRR := kk \<rparr>"
    using nextKbSemis_frame [of c s1] k by auto
  have g: "grains s2 = grains s" by (simp add: s2 s1)
  have "spawnGrain c p s = s2\<lparr> grains := grains s2 @ [new_grain c p s off sm] \<rparr>"
    using assms by (auto simp: spawnGrain_def o k)
  then show ?thesis by (simp add: o k g)
qed

lemma spawnGrain_skips:
  assumes "\<not> (playing s \<or> cursorHasKb c s) \<or> channels s = None \<or> bufferLength s = 0 \<or>
    MAX_GRAINS \<le> length (grains s)"
  shows "spawnGrain c p s = s"
  using assms by (auto simp: spawnGrain_def)

lemma spawnGrain_frame:
  "\<exists>g r k. spawnGrain c p s = s\<lparr> grains := g, rng := r, kbRR := k \<rparr>"
proof (cases "\<not> (playing s \<or> cursorHasKb c s) \<or> channels s = None \<or> bufferLength s = 0 \<or>
    MAX_GRAINS \<le> length (grains s)")
  case True
  then have e: "spawnGrain c p s = s" by (rule spawnGrain_skips)
  have "spawnGrain c p s = s\<lparr> grains := grains s, rng := rng s, kbRR := kbRR s \<rparr>"
    by (rule trans [OF e]) simp
  then show ?thesis by blast
next
  case False
  obtain r where s1: "snd (spawn_offset p s) = s\<lparr> rng := r \<rparr>"
    using spawn_offset_frame by blast
  obtain k where s2: "snd (nextKbSemis c (snd (spawn_offset p s))) =
                      (snd (spawn_offset p s))\<lparr> kbRR := k \<rparr>"
    using nextKbSemis_frame by blast
  have "spawnGrain c p s =
     (snd (nextKbSemis c (snd (spawn_offset p s))))
       \<lparr> grains := grains s @
           [new_grain c p s (fst (spawn_offset p s))
              (fst (nextKbSemis c (snd (spawn_offset p s))))] \<rparr>"
    using False by (intro spawnGrain_spawns) auto
  also have "\<dots> = s\<lparr> grains := grains s @
           [new_grain c p s (fst (spawn_offset p s))
              (fst (nextKbSemis c (snd (spawn_offset p s))))], rng := r, kbRR := k \<rparr>"
    by (simp only: s2) (simp add: s1)
  finally show ?thesis by blast
qed

lemma sched_loop_frame:
  "\<exists>g r k. snd (snd (sched_loop frames mx effDen c p acc spawned s)) =
             s\<lparr> grains := g, rng := r, kbRR := k \<rparr>"
proof (induction frames mx effDen c p acc spawned s rule: sched_loop.induct)
  case (1 frames mx effDen c p acc spawned s)
  show ?case
  proof (cases "acc \<le> int frames \<and> spawned < mx")
    case False
    then have e: "snd (snd (sched_loop frames mx effDen c p acc spawned s)) = s"
      by (subst sched_loop.simps) (simp only: if_False snd_conv)
    have "snd (snd (sched_loop frames mx effDen c p acc spawned s)) =
          s\<lparr> grains := grains s, rng := rng s, kbRR := kbRR s \<rparr>"
      by (rule trans [OF e]) simp
    then show ?thesis by blast
  next
    case True
    define s1 where "s1 = spawnGrain c p s"
    obtain n s2 where n: "nextInt effDen s1 = (n, s2)" by (cases "nextInt effDen s1")
    obtain g1 r1 k1 where f1: "s1 = s\<lparr> grains := g1, rng := r1, kbRR := k1 \<rparr>"
      unfolding s1_def using spawnGrain_frame by blast
    obtain r2 where f2: "s2 = s1\<lparr> rng := r2 \<rparr>"
      using nextInt_frame [of effDen s1] n by auto
    obtain g3 r3 k3 where f3:
      "snd (snd (sched_loop frames mx effDen c p (acc + n) (spawned + 1) s2)) =
         s2\<lparr> grains := g3, rng := r3, kbRR := k3 \<rparr>"
      using "1.IH" [OF True s1_def n [symmetric]] by blast
    have "sched_loop frames mx effDen c p acc spawned s =
          sched_loop frames mx effDen c p (acc + n) (spawned + 1) s2"
      using True n by (subst sched_loop.simps) (simp add: s1_def Let_def)
    then have "snd (snd (sched_loop frames mx effDen c p acc spawned s)) =
          s2\<lparr> grains := g3, rng := r3, kbRR := k3 \<rparr>"
      by (simp only: f3)
    also have "\<dots> = s\<lparr> grains := g3, rng := r3, kbRR := k3 \<rparr>"
      by (simp add: f2 f1)
    finally show ?thesis by blast
  qed
qed

lemma schedOne_frame:
  "\<exists>g r k. snd (schedOne frames budget p ftn c s) = s\<lparr> grains := g, rng := r, kbRR := k \<rparr>"
proof -
  define effDen where
    "effDen = r64 (jmul (jmax (Fin 0) (js_or (density p) (Fin 0))) (Fin budget))"
  show ?thesis
  proof (cases "jle effDen (Fin 0)")
    case True
    then have e: "snd (schedOne frames budget p ftn c s) = s"
      by (simp add: schedOne_def Let_def effDen_def)
    have "snd (schedOne frames budget p ftn c s) =
          s\<lparr> grains := grains s, rng := rng s, kbRR := kbRR s \<rparr>"
      by (rule trans [OF e]) simp
    then show ?thesis by blast
  next
    case False
    define r1 where "r1 = (if ftn \<le> 0 then nextInt effDen s else (ftn, s))"
    obtain f1 s1 where r1': "r1 = (f1, s1)" by (cases r1)
    obtain ra where s1: "s1 = s\<lparr> rng := ra \<rparr>"
    proof (cases "ftn \<le> 0")
      case True
      then have "s1 = snd (nextInt effDen s)" using r1' by (simp add: r1_def)
      then show ?thesis using nextInt_frame [of effDen s] that by auto
    next
      case False
      then have e: "s1 = s" using r1' by (simp add: r1_def)
      have "s1 = s\<lparr> rng := rng s \<rparr>" by (rule trans [OF e]) simp
      then show ?thesis using that by blast
    qed
    have so: "schedOne frames budget p ftn c s =
       (if f1 \<le> int frames
               then (let s2 = spawnGrain c p s1;
                         (n, s3) = nextInt effDen s2;
                         (acc, spawned, s4) =
                            sched_loop frames (maxSpawnPerBlock s) effDen c p (f1 + n) 1 s3
                     in (acc - int frames, s4))
               else (f1 - int frames, s1))"
      unfolding schedOne_def Let_def effDen_def [symmetric] r1_def [symmetric]
      using False r1' by simp
    show ?thesis
    proof (cases "f1 \<le> int frames")
      case F: False
      then have "snd (schedOne frames budget p ftn c s) = s1"
        by (simp add: so)
      then have "snd (schedOne frames budget p ftn c s) =
                 s\<lparr> grains := grains s, rng := ra, kbRR := kbRR s \<rparr>"
        by (simp add: s1)
      then show ?thesis by blast
    next
      case T: True
      define s2 where "s2 = spawnGrain c p s1"
      obtain n s3 where n: "nextInt effDen s2 = (n, s3)" by (cases "nextInt effDen s2")
      obtain g2 r2 k2 where f2: "s2 = s1\<lparr> grains := g2, rng := r2, kbRR := k2 \<rparr>"
        unfolding s2_def using spawnGrain_frame by blast
      obtain r3 where f3: "s3 = s2\<lparr> rng := r3 \<rparr>"
        using nextInt_frame [of effDen s2] n by auto
      obtain g4 r4 k4 where f4:
        "snd (snd (sched_loop frames (maxSpawnPerBlock s) effDen c p (f1 + n) 1 s3)) =
           s3\<lparr> grains := g4, rng := r4, kbRR := k4 \<rparr>"
        using sched_loop_frame by blast
      have "snd (schedOne frames budget p ftn c s) =
            snd (snd (sched_loop frames (maxSpawnPerBlock s) effDen c p (f1 + n) 1 s3))"
        using T n by (simp add: so Let_def s2_def [symmetric] split: prod.splits)
      then have "snd (schedOne frames budget p ftn c s) =
                 s3\<lparr> grains := g4, rng := r4, kbRR := k4 \<rparr>"
        by (simp only: f4)
      also have "\<dots> = s\<lparr> grains := g4, rng := r4, kbRR := k4 \<rparr>"
        by (simp add: f3 f2 s1)
      finally show ?thesis by blast
    qed
  qed
qed

lemma sched_cursor_frame:
  assumes "s' = (if go
                then (let (c, s1) = schedOne frames budget p ftn idx s in upd c s1)
                else upd (max 0 (ftn - int frames)) s)"
    and "\<And>c g r k. upd c (s\<lparr> grains := g, rng := r, kbRR := k \<rparr>) =
                     (upd c s)\<lparr> grains := g, rng := r, kbRR := k \<rparr>"
  shows "\<exists>g r k a. s' = (upd a s)\<lparr> grains := g, rng := r, kbRR := k \<rparr>"
proof (cases go)
  case True
  obtain c s1 where so: "schedOne frames budget p ftn idx s = (c, s1)"
    by (cases "schedOne frames budget p ftn idx s")
  obtain g r k where "s1 = s\<lparr> grains := g, rng := r, kbRR := k \<rparr>"
    using schedOne_frame [of frames budget p ftn idx s] so by auto
  then have "s' = (upd c s)\<lparr> grains := g, rng := r, kbRR := k \<rparr>"
    using assms True so by simp
  then show ?thesis by blast
next
  case False
  then have e: "s' = upd (max 0 (ftn - int frames)) s" using assms(1) by simp
  have "upd (max 0 (ftn - int frames)) s =
        upd (max 0 (ftn - int frames)) (s\<lparr> grains := grains s, rng := rng s, kbRR := kbRR s \<rparr>)"
    by simp
  also have "\<dots> = (upd (max 0 (ftn - int frames)) s)\<lparr> grains := grains s, rng := rng s,
                       kbRR := kbRR s \<rparr>"
    by (rule assms(2))
  finally have "s' = (upd (max 0 (ftn - int frames)) s)\<lparr> grains := grains s, rng := rng s,
                       kbRR := kbRR s \<rparr>"
    using e by simp
  then show ?thesis by blast
qed

lemma schedule_block_frame:
  "\<exists>g r k a b c. schedule_block frames pA pB pC s =
     s\<lparr> grains := g, rng := r, kbRR := k, framesToNextGrainA := a,
        framesToNextGrainB := b, framesToNextGrainC := c \<rparr>"
proof -
  define budget where "budget = spawnBudgetFactor s"
  define sA where "sA = (if playing s \<or> cursorHasKb 0 s
                then (let (c, s') = schedOne frames budget pA (framesToNextGrainA s) 0 s
                      in s'\<lparr> framesToNextGrainA := c \<rparr>)
                else s\<lparr> framesToNextGrainA := max 0 (framesToNextGrainA s - int frames) \<rparr>)"
  define sB where "sB = (if playing sA \<or> cursorHasKb 1 s
                then (let (c, s') = schedOne frames budget pB (framesToNextGrainB sA) 1 sA
                      in s'\<lparr> framesToNextGrainB := c \<rparr>)
                else sA\<lparr> framesToNextGrainB := max 0 (framesToNextGrainB sA - int frames) \<rparr>)"
  define sC where "sC = (if playing sB \<or> cursorHasKb 2 s
                then (let (c, s') = schedOne frames budget pC (framesToNextGrainC sB) 2 sB
                      in s'\<lparr> framesToNextGrainC := c \<rparr>)
                else sB\<lparr> framesToNextGrainC := max 0 (framesToNextGrainC sB - int frames) \<rparr>)"
  have eq: "schedule_block frames pA pB pC s = sC"
    unfolding sC_def sB_def sA_def budget_def schedule_block_def Let_def by (rule refl)
  obtain gA rA kA a where fA:
    "sA = s\<lparr> framesToNextGrainA := a, grains := gA, rng := rA, kbRR := kA \<rparr>"
    using sched_cursor_frame [of sA _ frames budget pA "framesToNextGrainA s" 0 s
        "\<lambda>c s. s\<lparr> framesToNextGrainA := c \<rparr>", OF sA_def]
    by auto
  obtain gB rB kB b where fB:
    "sB = sA\<lparr> framesToNextGrainB := b, grains := gB, rng := rB, kbRR := kB \<rparr>"
    using sched_cursor_frame [of sB _ frames budget pB "framesToNextGrainB sA" 1 sA
        "\<lambda>c s. s\<lparr> framesToNextGrainB := c \<rparr>", OF sB_def]
    by auto
  obtain gC rC kC c where fC:
    "sC = sB\<lparr> framesToNextGrainC := c, grains := gC, rng := rC, kbRR := kC \<rparr>"
    using sched_cursor_frame [of sC _ frames budget pC "framesToNextGrainC sB" 2 sB
        "\<lambda>c s. s\<lparr> framesToNextGrainC := c \<rparr>", OF sC_def]
    by auto
  have fin: "sC = s\<lparr> grains := gC, rng := rC, kbRR := kC, framesToNextGrainA := a,
        framesToNextGrainB := b, framesToNextGrainC := c \<rparr>"
    by (simp add: fC fB fA)
  show ?thesis unfolding eq by (intro exI) (rule fin)
qed

lemma softKill_frame: "\<exists>g. softKill s = s\<lparr> grains := g \<rparr>"
proof (cases "killPending s ! 0 \<or> killPending s ! 1 \<or> killPending s ! 2")
  case True
  then have "softKill s =
     s\<lparr> grains := map (shorten_grain (killPending s) (tailFrames s)) (grains s) \<rparr>"
    by (simp add: softKill_def)
  then show ?thesis by blast
next
  case False
  then have e: "softKill s = s" by (simp add: softKill_def)
  have "softKill s = s\<lparr> grains := grains s \<rparr>" by (rule trans [OF e]) simp
  then show ?thesis by blast
qed

lemma resetKill_frame: "\<exists>k. resetKill s = s\<lparr> killPending := k \<rparr>"
proof (cases "killPending s ! 0 \<or> killPending s ! 1 \<or> killPending s ! 2")
  case True
  show ?thesis unfolding resetKill_def Let_def by (simp only: True if_True) blast
next
  case False
  then have e: "resetKill s = s" by (simp add: resetKill_def)
  have "resetKill s = s\<lparr> killPending := killPending s \<rparr>" by (rule trans [OF e]) simp
  then show ?thesis by blast
qed

lemma process_tail_positions:
  "positions (render_grains frames (resetKill (softKill (schedule_block frames pA pB pC s)))) =
   positions s"
proof -
  obtain g r k a b c where f1: "schedule_block frames pA pB pC s =
     s\<lparr> grains := g, rng := r, kbRR := k, framesToNextGrainA := a,
        framesToNextGrainB := b, framesToNextGrainC := c \<rparr>"
    using schedule_block_frame by blast
  obtain g2 where f2: "softKill (schedule_block frames pA pB pC s) =
     (schedule_block frames pA pB pC s)\<lparr> grains := g2 \<rparr>"
    using softKill_frame by blast
  obtain k3 where f3: "resetKill (softKill (schedule_block frames pA pB pC s)) =
     (softKill (schedule_block frames pA pB pC s))\<lparr> killPending := k3 \<rparr>"
    using resetKill_frame by blast
  have "positions (render_grains frames (resetKill (softKill (schedule_block frames pA pB pC s))))
        = positions (resetKill (softKill (schedule_block frames pA pB pC s)))"
    by (simp add: render_grains_def)
  also have "\<dots> = positions (softKill (schedule_block frames pA pB pC s))"
    by (subst f3) simp
  also have "\<dots> = positions (schedule_block frames pA pB pC s)"
    by (subst f2) simp
  also have "\<dots> = positions s"
    by (subst f1) simp
  finally show ?thesis .
qed

section \<open>Blocks without a source buffer\<close>

lemma advancePositions_fields [simp]:
  "channels (advancePositions frames pA pB pC s) = channels s"
  "bufferLength (advancePositions frames pA pB pC s) = bufferLength s"
  "playing (advancePositions frames pA pB pC s) = playing s"
  "kbNotes (advancePositions frames pA pB pC s) = kbNotes s"
  "grains (advancePositions frames pA pB pC s) = grains s"
  "vizCounter (advancePositions frames pA pB pC s) = vizCounter s"
  "vizIntervalFrames (advancePositions frames pA pB pC s) = vizIntervalFrames s"
  "sampleRateOut (advancePositions frames pA pB pC s) = sampleRateOut s"
  by (simp_all add: advancePositions_def Let_def)

lemma process_head_fields:
  assumes "process_head frames s = (ps, s1, posted)"
  shows "channels s1 = channels s" "bufferLength s1 = bufferLength s"
    "playing s1 = playing s" "kbNotes s1 = kbNotes s" "grains s1 = grains s"
    "sampleRateOut s1 = sampleRateOut s"
  using assms by (auto simp: process_head_def Let_def split: prod.splits)

lemma gate_closed_without_buffer:
  "channels s = None \<or> bufferLength s = 0 \<Longrightarrow> audio_gate_closed s"
  by (auto simp: audio_gate_closed_def Let_def)

lemma process_without_buffer:
  assumes "channels s = None \<or> bufferLength s = 0"
  shows "\<exists>s1 posted. process frames s = (s1, posted, Zeroed (replicate frames 0) (replicate frames 0))
           \<and> channels s1 = channels s \<and> bufferLength s1 = bufferLength s"
proof -
  obtain ps s1 posted where h: "process_head frames s = (ps, s1, posted)"
    by (metis prod_cases3)
  have c: "channels s1 = channels s" "bufferLength s1 = bufferLength s"
    using process_head_fields [OF h] by simp_all
  then have "audio_gate_closed s1"
    using assms by (intro gate_closed_without_buffer) simp
  then have "process frames s = (s1, posted, Zeroed (replicate frames 0) (replicate frames 0))"
    using h by (cases ps) (simp add: process_def Let_def)
  then show ?thesis using c by blast
qed

lemma run_blocks_without_buffer:
  assumes "channels s = None \<or> bufferLength s = 0"
  shows "snd (run_blocks fs s) = map (\<lambda>n. Zeroed (replicate n 0) (replicate n 0)) fs"
  using assms
proof (induction fs arbitrary: s)
  case Nil
  then show ?case by simp
next
  case (Cons n fs)
  obtain s1 posted where p: "process n s = (s1, posted, Zeroed (replicate n 0) (replicate n 0))"
    and c: "channels s1 = channels s" "bufferLength s1 = bufferLength s"
    using process_without_buffer [OF Cons.prems] by blast
  have "channels s1 = None \<or> bufferLength s1 = 0" using c Cons.prems by simp
  then have "snd (run_blocks fs s1) = map (\<lambda>n. Zeroed (replicate n 0) (replicate n 0)) fs"
    by (rule Cons.IH)
  then show ?case using p by (auto simp: Let_def split: prod.splits)
qed

lemma construct_playing_no_buffer:
  "channels (fst (onmessage (SetPlaying True) (construct rate rnd))) = None"
  by (simp add: construct_def)

text \<open>
  C8. A block processed while no source buffer is set (or while the buffer length is 0)
  leaves zeros in every sample of both output channels, whatever the other state, global
  play included. In particular the engine constructed at 48000 Hz, after
  \<open>setPlaying(true)\<close>, renders ten blocks of 128 frames as 2560 samples that are all 0.
\<close>

theorem silence_without_buffer:
  "(channels s = None \<or> bufferLength s = 0 \<longrightarrow>
      snd (snd (process frames s)) = Zeroed (replicate frames 0) (replicate frames 0) \<and>
      (\<forall>x \<in> set (block_samples (snd (snd (process frames s)))). x = 0)) \<and>
   (let audio = snd (run_blocks (replicate 10 128)
                        (fst (onmessage (SetPlaying True) (construct 48000 rnd))))
    in audio = replicate 10 (Zeroed (replicate 128 0) (replicate 128 0)) \<and>
       length (concat (map block_samples audio)) = 2560 \<and>
       (\<forall>x \<in> set (concat (map block_samples audio)). x = 0))"
proof -
  have a: "snd (snd (process frames s)) = Zeroed (replicate frames 0) (replicate frames 0) \<and>
      (\<forall>x \<in> set (block_samples (snd (snd (process frames s)))). x = 0)"
    if h: "channels s = None \<or> bufferLength s = 0"
  proof -
    obtain s1 posted where
      "process frames s = (s1, posted, Zeroed (replicate frames 0) (replicate frames 0))"
      using process_without_buffer [OF h] by blast
    then show ?thesis by simp
  qed
  define e where "e = fst (onmessage (SetPlaying True) (construct 48000 rnd))"
  have "channels e = None" unfolding e_def by (rule construct_playing_no_buffer)
  then have "snd (run_blocks (replicate 10 128) e) =
             map (\<lambda>n. Zeroed (replicate n 0) (replicate n 0)) (replicate 10 128)"
    by (intro run_blocks_without_buffer) simp
  then have r: "snd (run_blocks (replicate 10 128) e) =
             replicate 10 (Zeroed (replicate 128 0) (replicate 128 0))"
    by simp
  have l: "length (concat (replicate 10 (replicate 128 (0::real) @ replicate 128 0))) = 2560"
    by (simp add: length_concat sum_list_replicate)
  have z: "\<forall>x \<in> set (concat (replicate 10 (replicate 128 (0::real) @ replicate 128 0))). x = 0"
    by auto
  have b: "let audio = snd (run_blocks (replicate 10 128) e)
    in audio = replicate 10 (Zeroed (replicate 128 0) (replicate 128 0)) \<and>
       length (concat (map block_samples audio)) = 2560 \<and>
       (\<forall>x \<in> set (concat (map block_samples audio)). x = 0)"
    unfolding Let_def r using l z by (simp add: map_replicate)
  show ?thesis using a b unfolding e_def by blast
qed

theorem silence_without_buffer_witness:
  "snd (snd (process 128 (fst (onmessage (SetPlaying True) (construct 48000 (\<lambda>k. 0)))))) =
     Zeroed (replicate 128 0) (replicate 128 0)"
proof -
  have "channels (fst (onmessage (SetPlaying True) (construct 48000 (\<lambda>k. 0)))) = None"
    by (rule construct_playing_no_buffer)
  then show ?thesis
    using silence_without_buffer
      [of "fst (onmessage (SetPlaying True) (construct 48000 (\<lambda>k. 0)))" 128 "\<lambda>k. 0"]
    by blast
qed

section \<open>Cursor positions\<close>

lemma fmod1_nonneg: "0 \<le> x \<Longrightarrow> fmod1 x = frac x"
  by (simp add: fmod1_def trunc_real_def frac_def)

lemma fmod1_bounds: "- 1 < fmod1 x" "fmod1 x < 1"
proof -
  show "- 1 < fmod1 x"
  proof (cases "0 \<le> x")
    case True
    show ?thesis unfolding fmod1_nonneg [OF True] using frac_ge_0 [of x] by linarith
  next
    case False
    then have "fmod1 x = x - real_of_int \<lceil>x\<rceil>" by (simp add: fmod1_def trunc_real_def)
    moreover have "real_of_int \<lceil>x\<rceil> < x + 1" by linarith
    ultimately show ?thesis by linarith
  qed
  show "fmod1 x < 1"
  proof (cases "0 \<le> x")
    case True
    show ?thesis unfolding fmod1_nonneg [OF True] by (rule frac_lt_1)
  next
    case False
    then have "fmod1 x = x - real_of_int \<lceil>x\<rceil>" by (simp add: fmod1_def trunc_real_def)
    moreover have "x \<le> real_of_int \<lceil>x\<rceil>" by linarith
    ultimately show ?thesis by linarith
  qed
qed

lemma wrap01_Fin: "wrap01 (Fin y) = Fin (fmod1 (fl64 (fmod1 y + 1)))"
proof -
  have "\<bar>fmod1 y + 1\<bar> \<le> 2 ^ 1000"
    using fmod1_bounds [of y] by simp
  then have "r64 (Fin (fmod1 y + 1)) = Fin (fl64 (fmod1 y + 1))" by (rule r64_Fin)
  then show ?thesis by (simp add: wrap01_def)
qed

lemma wrapped_range: "0 \<le> fmod1 (fl64 (fmod1 y + 1))" "fmod1 (fl64 (fmod1 y + 1)) < 1"
proof -
  have "0 \<le> fmod1 y + 1" using fmod1_bounds [of y] by simp
  then have "0 \<le> fl64 (fmod1 y + 1)" by (rule fl64_nonneg)
  then have e: "fmod1 (fl64 (fmod1 y + 1)) = frac (fl64 (fmod1 y + 1))" by (rule fmod1_nonneg)
  show "0 \<le> fmod1 (fl64 (fmod1 y + 1))" unfolding e by (rule frac_ge_0)
  show "fmod1 (fl64 (fmod1 y + 1)) < 1" unfolding e by (rule frac_lt_1)
qed

lemma stored_range:
  assumes "0 \<le> w" "w < 1"
  shows "r32 (Fin w) = Fin (fl32 w)" "0 \<le> fl32 w" "fl32 w \<le> 1"
proof -
  show "r32 (Fin w) = Fin (fl32 w)" using assms by (intro r32_Fin) simp
  show "0 \<le> fl32 w" using assms(1) by (rule fl32_nonneg)
  show "fl32 w \<le> 1" using fl32_le_power2 [of w 0] assms(2) by simp
qed

lemma advance_one_Fin:
  assumes "\<bar>x\<bar> \<le> 1" "js_or speed (Fin 0) = Fin v" "\<bar>v\<bar> \<le> 2 ^ 64" "\<bar>d\<bar> \<le> 2 ^ 32"
  shows "advance_one (Fin x) speed (Fin d) = Fin (fl64 (x + fl64 (v * d)))"
proof -
  have "\<bar>v * d\<bar> \<le> 2 ^ 64 * 2 ^ 32"
    unfolding abs_mult using assms(3,4) by (intro mult_mono) simp_all
  then have m: "\<bar>v * d\<bar> \<le> 2 ^ 96" by simp
  then have "\<bar>v * d\<bar> \<le> 2 ^ 1000" by simp
  then have a: "r64 (Fin (v * d)) = Fin (fl64 (v * d))" by (rule r64_Fin)
  have "\<bar>fl64 (v * d)\<bar> \<le> 2 ^ 96" using m by (rule fl64_abs_le_power2)
  then have "\<bar>x + fl64 (v * d)\<bar> \<le> 2 ^ 1000" using assms(1) by simp
  then have b: "r64 (Fin (x + fl64 (v * d))) = Fin (fl64 (x + fl64 (v * d)))" by (rule r64_Fin)
  show ?thesis by (simp add: advance_one_def assms(2) a b)
qed

lemma block_seconds:
  assumes "1 \<le> rate" "frames \<le> 2 ^ 32"
  shows "r64 (jdiv (Fin (real frames)) (Fin rate)) = Fin (fl64 (real frames / rate))"
    and "\<bar>fl64 (real frames / rate)\<bar> \<le> 2 ^ 32"
proof -
  have "real frames \<le> real ((2::nat) ^ 32)" using assms(2) by (rule of_nat_mono)
  then have f: "real frames \<le> 2 ^ 32" by simp
  have "real frames / rate \<le> real frames / 1"
    using assms(1) by (intro divide_left_mono) simp_all
  then have q: "\<bar>real frames / rate\<bar> \<le> 2 ^ 32" using f assms(1) by simp
  then have "\<bar>real frames / rate\<bar> \<le> 2 ^ 1000" by simp
  then have "r64 (Fin (real frames / rate)) = Fin (fl64 (real frames / rate))" by (rule r64_Fin)
  then show "r64 (jdiv (Fin (real frames)) (Fin rate)) = Fin (fl64 (real frames / rate))"
    using assms(1) by simp
  show "\<bar>fl64 (real frames / rate)\<bar> \<le> 2 ^ 32" using q by (rule fl64_abs_le_power2)
qed

lemma advancePositions_position:
  assumes "length (positions s) = 3" "i < 3" "positions s ! i = Fin x" "\<bar>x\<bar> \<le> 1"
    "js_or (scanSpeed (cursor_params i (pA, pB, pC))) (Fin 0) = Fin v" "\<bar>v\<bar> \<le> 2 ^ 64"
    "1 \<le> sampleRateOut s" "frames \<le> 2 ^ 32"
  shows "positions (advancePositions frames pA pB pC s) ! i =
         Fin (fl32 (fmod1 (fl64 (fmod1
           (fl64 (x + fl64 (v * fl64 (real frames / sampleRateOut s)))) + 1))))"
proof -
  define d where "d = fl64 (real frames / sampleRateOut s)"
  have dt: "r64 (jdiv (Fin (real frames)) (Fin (sampleRateOut s))) = Fin d"
    unfolding d_def using assms(7,8) by (rule block_seconds)
  have db: "\<bar>d\<bar> \<le> 2 ^ 32" unfolding d_def using assms(7,8) by (rule block_seconds)
  have one: "r32 (wrap01 (advance_one (Fin x) sp (Fin d))) =
             Fin (fl32 (fmod1 (fl64 (fmod1 (fl64 (x + fl64 (v * d))) + 1))))"
    if "js_or sp (Fin 0) = Fin v" for sp
    using advance_one_Fin [OF assms(4) that assms(6) db]
    by (simp add: wrap01_Fin stored_range(1) [OF wrapped_range])
  have ap: "positions (advancePositions frames pA pB pC s) =
      (positions s)[0 := r32 (wrap01 (advance_one (positions s ! 0) (scanSpeed pA) (Fin d))),
                    1 := r32 (wrap01 (advance_one (positions s ! 1) (scanSpeed pB) (Fin d))),
                    2 := r32 (wrap01 (advance_one (positions s ! 2) (scanSpeed pC) (Fin d)))]"
    unfolding advancePositions_def Let_def dt by simp
  have "i = 0 \<or> i = 1 \<or> i = 2" using assms(2) by auto
  then show ?thesis
    using assms(1,3,5) one
    by (auto simp: ap nth_list_update d_def [symmetric])
qed

lemma process_positions:
  "positions (fst (process frames s)) =
   positions (advancePositions frames (fst (readParams s)) (fst (snd (readParams s)))
                (snd (snd (readParams s))) s)"
proof -
  obtain pA pB pC where rp: "readParams s = (pA, pB, pC)" by (cases "readParams s") auto
  define s1 where "s1 = advancePositions frames pA pB pC s"
  define counter where "counter = vizCounter s1 + frames"
  define s2 where "s2 = s1\<lparr> vizCounter := (if counter \<ge> vizIntervalFrames s1 then 0 else counter) \<rparr>"
  obtain posted where h: "process_head frames s = ((pA, pB, pC), s2, posted)"
    by (simp add: process_head_def rp Let_def s2_def counter_def s1_def)
  have p2: "positions s2 = positions s1" by (simp add: s2_def)
  have "positions (fst (process frames s)) = positions s2"
    using h by (simp add: process_def Let_def process_tail_positions)
  then show ?thesis by (simp add: p2 s1_def rp)
qed

lemma process_position:
  assumes "length (positions s) = 3" "i < 3" "positions s ! i = Fin x" "\<bar>x\<bar> \<le> 1"
    "js_or (scanSpeed (cursor_params i (readParams s))) (Fin 0) = Fin v" "\<bar>v\<bar> \<le> 2 ^ 64"
    "1 \<le> sampleRateOut s" "frames \<le> 2 ^ 32"
  shows "positions (fst (process frames s)) ! i =
         Fin (fl32 (fmod1 (fl64 (fmod1
           (fl64 (x + fl64 (v * fl64 (real frames / sampleRateOut s)))) + 1))))"
proof -
  obtain pA pB pC where rp: "readParams s = (pA, pB, pC)" by (cases "readParams s") auto
  have "positions (advancePositions frames pA pB pC s) ! i =
         Fin (fl32 (fmod1 (fl64 (fmod1
           (fl64 (x + fl64 (v * fl64 (real frames / sampleRateOut s)))) + 1))))"
    using assms by (intro advancePositions_position) (simp_all add: rp)
  then show ?thesis by (simp add: process_positions rp)
qed

text \<open>The numbers of the examples, at 48 kHz and 128 frames a block.\<close>

lemma block_seconds_48k: "fl64 (128 / 48000) = 6148914691236517 / 2 ^ 61"
  using fl64_eval [of "- 9" "128 / 48000"]
  by (simp add: power_int_minus round_even_def frac_def)

lemma initial_position_A: "fl32 (fl64 0.15) = 5033165 / 2 ^ 25"
proof -
  have a: "fl64 0.15 = 5404319552844595 / 2 ^ 55"
    using fl64_eval [of "- 3" "0.15"]
    by (simp add: power_int_minus round_even_def frac_def)
  have "fl32 (5404319552844595 / 2 ^ 55) = 5033165 / 2 ^ 25"
    using fl32_eval [of "- 3" "5404319552844595 / 2 ^ 55"]
    by (simp add: power_int_minus round_even_def frac_def)
  then show ?thesis by (simp only: a)
qed

lemma advance_400:
  "fl32 (fmod1 (fl64 (fmod1
     (fl64 (5033165 / 2 ^ 25 + fl64 (400 * (6148914691236517 / 2 ^ 61)))) + 1))) =
   7270127 / 2 ^ 25"
proof -
  have a: "fl64 (400 * (6148914691236517 / 2 ^ 61)) = 4803839602528529 / 2 ^ 52"
    using fl64_eval [of 0 "400 * (6148914691236517 / 2 ^ 61)"]
    by (simp add: round_even_def frac_def)
  have b: "fl64 (5033165 / 2 ^ 25 + 4803839602528529 / 2 ^ 52) = 5479379573477649 / 2 ^ 52"
    using fl64_eval [of 0 "5033165 / 2 ^ 25 + 4803839602528529 / 2 ^ 52"]
    by (simp add: round_even_def frac_def)
  have c: "fmod1 (5479379573477649 / 2 ^ 52) = 975779946107153 / 2 ^ 52"
    by (simp add: fmod1_def trunc_real_def)
  have d: "fl64 (975779946107153 / 2 ^ 52 + 1) = 5479379573477649 / 2 ^ 52"
    using fl64_eval [of 0 "975779946107153 / 2 ^ 52 + 1"]
    by (simp add: round_even_def frac_def)
  have e: "fl32 (975779946107153 / 2 ^ 52) = 7270127 / 2 ^ 25"
    using fl32_eval [of "- 3" "975779946107153 / 2 ^ 52"]
    by (simp add: power_int_minus round_even_def frac_def)
  show ?thesis by (simp only: a b c d e)
qed

lemma advance_back_to_1:
  "fl32 (fmod1 (fl64 (fmod1
     (fl64 (0 + fl64 (- (1 / 2 ^ 20) * (6148914691236517 / 2 ^ 61)))) + 1))) = 1"
proof -
  have a: "fl64 (- (1 / 2 ^ 20) * (6148914691236517 / 2 ^ 61)) = - (6148914691236517 / 2 ^ 81)"
    using fl64_eval [of "- 29" "- (1 / 2 ^ 20) * (6148914691236517 / 2 ^ 61)"]
    by (simp add: power_int_minus round_even_def frac_def)
  have b: "fl64 (0 + - (6148914691236517 / 2 ^ 81)) = - (6148914691236517 / 2 ^ 81)"
    using a by simp
  have c: "fmod1 (- (6148914691236517 / 2 ^ 81)) = - (6148914691236517 / 2 ^ 81)"
    by (simp add: fmod1_def trunc_real_def)
  have d: "fl64 (- (6148914691236517 / 2 ^ 81) + 1) = 2251799807958625 / 2 ^ 51"
    using fl64_eval [of "- 1" "- (6148914691236517 / 2 ^ 81) + 1"]
    by (simp add: power_int_minus round_even_def frac_def)
  have e: "fmod1 (2251799807958625 / 2 ^ 51) = 2251799807958625 / 2 ^ 51"
    by (simp add: fmod1_def trunc_real_def)
  have f: "fl32 (2251799807958625 / 2 ^ 51) = 1"
    using fl32_eval [of "- 1" "2251799807958625 / 2 ^ 51"]
    by (simp add: power_int_minus round_even_def frac_def)
  show ?thesis by (simp only: a b c d e f)
qed

text \<open>
  C9, as the code has it. Every processed block moves the position of each cursor, whatever
  the state of global play, the held notes and the source buffer. The new position is the
  float nearest to the wrapped double \<open>((y % 1) + 1) % 1\<close>, where \<open>y\<close> is the old
  position plus \<open>scan_speed * (N / sr_out)\<close>, each operation rounded to a double (a \<open>NaN\<close>
  scan speed counts as 0). The stored position lies in the closed interval from 0 to 1:
  the wrapped double is below 1, the float nearest to it need not be.
\<close>

theorem positions_advance_every_block:
  assumes "length (positions s) = 3" and "i < 3"
    and "positions s ! i = Fin x" and "\<bar>x\<bar> \<le> 1"
    and "js_or (scanSpeed (cursor_params i (readParams s))) (Fin 0) = Fin v"
    and "\<bar>v\<bar> \<le> 2 ^ 64"
    and "1 \<le> sampleRateOut s" and "frames \<le> 2 ^ 32"
    and "y = fl64 (x + fl64 (v * fl64 (real frames / sampleRateOut s)))"
  shows "positions (fst (process frames s)) ! i = Fin (fl32 (fmod1 (fl64 (fmod1 y + 1)))) \<and>
         0 \<le> fmod1 (fl64 (fmod1 y + 1)) \<and> fmod1 (fl64 (fmod1 y + 1)) < 1 \<and>
         0 \<le> fl32 (fmod1 (fl64 (fmod1 y + 1))) \<and> fl32 (fmod1 (fl64 (fmod1 y + 1))) \<le> 1"
proof -
  have "positions (fst (process frames s)) ! i = Fin (fl32 (fmod1 (fl64 (fmod1 y + 1))))"
    unfolding assms(9) using assms(1-8) by (rule process_position)
  then show ?thesis
    using wrapped_range [of y] stored_range(2,3) [OF wrapped_range, of y] by simp
qed

lemma engine_scanning_fields:
  "length (positions (fst (onmessage (SetParamsFor 0 [(F_scanSpeed, Fin v)])
      (construct 48000 rnd)))) = 3"
  "positions (fst (onmessage (SetParamsFor 0 [(F_scanSpeed, Fin v)])
      (construct 48000 rnd))) ! 0 = Fin (fl32 (fl64 0.15))"
  "js_or (scanSpeed (cursor_params 0 (readParams (fst (onmessage
      (SetParamsFor 0 [(F_scanSpeed, Fin v)]) (construct 48000 rnd)))))) (Fin 0) = Fin v"
  "sampleRateOut (fst (onmessage (SetParamsFor 0 [(F_scanSpeed, Fin v)])
      (construct 48000 rnd))) = 48000"
  by (simp_all add: construct_fields readParams_def assign_params_def)

theorem positions_advance_every_block_witness:
  "positions (fst (process 128
      (fst (onmessage (SetParamsFor 0 [(F_scanSpeed, Fin 400)]) (construct 48000 (\<lambda>k. 0)))))) ! 0
   = Fin (7270127 / 2 ^ 25)"
proof -
  define e where "e = fst (onmessage (SetParamsFor 0 [(F_scanSpeed, Fin 400)])
                            (construct 48000 (\<lambda>k. 0)))"
  have a: "length (positions e) = 3"
    and b: "positions e ! 0 = Fin (5033165 / 2 ^ 25)"
    and c: "js_or (scanSpeed (cursor_params 0 (readParams e))) (Fin 0) = Fin 400"
    and d: "sampleRateOut e = 48000"
    unfolding e_def by (simp_all only: engine_scanning_fields initial_position_A)
  have x: "\<bar>5033165 / 2 ^ 25 :: real\<bar> \<le> 1" and v: "\<bar>400 :: real\<bar> \<le> 2 ^ 64"
    and r: "1 \<le> sampleRateOut e" and f: "(128 :: nat) \<le> 2 ^ 32"
    by (simp_all add: d)
  have "fl64 (real 128 / sampleRateOut e) = 6148914691236517 / 2 ^ 61"
    using block_seconds_48k by (simp add: d)
  then have "fl32 (fmod1 (fl64 (fmod1 (fl64 (5033165 / 2 ^ 25 +
               fl64 (400 * fl64 (real 128 / sampleRateOut e)))) + 1))) = 7270127 / 2 ^ 25"
    by (simp only: advance_400)
  then show ?thesis
    using positions_advance_every_block [OF a _ b x c v r f refl]
    unfolding e_def by simp
qed

text \<open>
  The claim as stated fails: a position is not always wrapped into \<open>[0, 1)\<close>. With
  cursor A at position 0 and a scan speed of \<open>-2^-20\<close>, one block of 128 frames at 48 kHz
  gives the double \<open>1 - 22906503 * 2^-53\<close>, and the float nearest to it is 1: the stored
  position is 1.
\<close>

theorem position_reaches_one_counterexample:
  "positions (fst (process 128
      (fst (onmessage (SetParamsFor 0 [(F_scanSpeed, Fin (- (1 / 2 ^ 20)))])
         (fst (onmessage (SetPositions [Fin 0, Fin (1 / 2)]) (construct 48000 (\<lambda>k. 0)))))))) ! 0
   = Fin 1"
proof -
  define e0 where "e0 = fst (onmessage (SetPositions [Fin 0, Fin (1 / 2)])
                             (construct 48000 (\<lambda>k. 0)))"
  define e where "e = fst (onmessage (SetParamsFor 0 [(F_scanSpeed, Fin (- (1 / 2 ^ 20)))]) e0)"
  have p0: "positions e0 = [Fin 0, r32 (Fin (1 / 2)), Fin (fl32 (fl64 0.85))]"
    by (simp add: e0_def construct_fields jclamp01_def)
  have s0: "sampleRateOut e0 = 48000" "paramView e0 = None"
    by (simp_all add: e0_def construct_fields)
  have a: "length (positions e) = 3"
    and b: "positions e ! 0 = Fin 0"
    and c: "js_or (scanSpeed (cursor_params 0 (readParams e))) (Fin 0) = Fin (- (1 / 2 ^ 20))"
    and d: "sampleRateOut e = 48000"
    by (simp_all add: e_def p0 s0 readParams_def assign_params_def)
  have x: "\<bar>0 :: real\<bar> \<le> 1" and v: "\<bar>- (1 / 2 ^ 20) :: real\<bar> \<le> 2 ^ 64"
    and r: "1 \<le> sampleRateOut e" and f: "(128 :: nat) \<le> 2 ^ 32"
    by (simp_all add: d)
  have "fl64 (real 128 / sampleRateOut e) = 6148914691236517 / 2 ^ 61"
    using block_seconds_48k by (simp add: d)
  then have "fl32 (fmod1 (fl64 (fmod1 (fl64 (0 +
               fl64 (- (1 / 2 ^ 20) * fl64 (real 128 / sampleRateOut e)))) + 1))) = 1"
    by (simp only: advance_back_to_1)
  then show ?thesis
    using process_position [OF a _ b x c v r f]
    unfolding e_def e0_def by simp
qed
section \<open>What a block leaves alone\<close>

lemma process_head_frame:
  "\<exists>P V. fst (snd (process_head frames s)) = s\<lparr> positions := P, vizCounter := V \<rparr>"
proof -
  obtain pA pB pC where rp: "readParams s = (pA, pB, pC)" by (cases "readParams s") auto
  obtain P where ap: "advancePositions frames pA pB pC s = s\<lparr> positions := P \<rparr>"
    using advancePositions_frame by blast
  show ?thesis
    by (simp add: process_head_def rp Let_def ap) blast
qed

lemma process_frame:
  "\<exists>P V g r k a b c kp. fst (process frames s) =
     s\<lparr> positions := P, vizCounter := V, grains := g, rng := r, kbRR := k,
        framesToNextGrainA := a, framesToNextGrainB := b, framesToNextGrainC := c,
        killPending := kp \<rparr>"
proof -
  obtain ps s1 posted where h: "process_head frames s = (ps, s1, posted)"
    by (metis prod_cases3)
  obtain pA pB pC where ps: "ps = (pA, pB, pC)" by (cases ps) auto
  obtain P V where f1: "s1 = s\<lparr> positions := P, vizCounter := V \<rparr>"
    using process_head_frame [of frames s] h by auto
  show ?thesis
  proof (cases "audio_gate_closed s1")
    case True
    then have e: "fst (process frames s) = s1"
      using h ps by (simp add: process_def Let_def)
    have fin: "fst (process frames s) =
       s\<lparr> positions := P, vizCounter := V, grains := grains s, rng := rng s, kbRR := kbRR s,
          framesToNextGrainA := framesToNextGrainA s,
          framesToNextGrainB := framesToNextGrainB s,
          framesToNextGrainC := framesToNextGrainC s, killPending := killPending s \<rparr>"
      by (rule trans [OF e]) (simp add: f1)
    show ?thesis by (intro exI) (rule fin)
  next
    case False
    define s2 where "s2 = schedule_block frames pA pB pC s1"
    define s3 where "s3 = softKill s2"
    define s4 where "s4 = resetKill s3"
    obtain g r k a b c where f2: "s2 =
       s1\<lparr> grains := g, rng := r, kbRR := k, framesToNextGrainA := a,
           framesToNextGrainB := b, framesToNextGrainC := c \<rparr>"
      unfolding s2_def using schedule_block_frame by blast
    obtain g3 where f3: "s3 = s2\<lparr> grains := g3 \<rparr>"
      unfolding s3_def using softKill_frame by blast
    obtain kp where f4: "s4 = s3\<lparr> killPending := kp \<rparr>"
      unfolding s4_def using resetKill_frame by blast
    have "fst (process frames s) = render_grains frames s4"
      using False h ps by (simp add: process_def Let_def s4_def s3_def s2_def)
    also have "\<dots> = s4\<lparr> grains := render_loop (length (grains s4)) frames (grains s4) \<rparr>"
      by (simp add: render_grains_def)
    also have "\<dots> =
       s\<lparr> positions := P, vizCounter := V,
          grains := render_loop (length (grains s4)) frames (grains s4), rng := r, kbRR := k,
          framesToNextGrainA := a, framesToNextGrainB := b, framesToNextGrainC := c,
          killPending := kp \<rparr>"
      by (simp add: f4 f3 f2 f1)
    finally have fin: "fst (process frames s) =
       s\<lparr> positions := P, vizCounter := V,
          grains := render_loop (length (grains s4)) frames (grains s4), rng := r, kbRR := k,
          framesToNextGrainA := a, framesToNextGrainB := b, framesToNextGrainC := c,
          killPending := kp \<rparr>" .
    show ?thesis by (intro exI) (rule fin)
  qed
qed

lemma process_keeps_parameters:
  "paramsA (fst (process frames s)) = paramsA s"
  "paramsB (fst (process frames s)) = paramsB s"
  "paramsC (fst (process frames s)) = paramsC s"
  "paramStride (fst (process frames s)) = paramStride s"
  "paramView (fst (process frames s)) = paramView s"
  "sampleRateOut (fst (process frames s)) = sampleRateOut s"
  "channels (fst (process frames s)) = channels s"
  "bufferLength (fst (process frames s)) = bufferLength s"
  "playing (fst (process frames s)) = playing s"
  "kbNotes (fst (process frames s)) = kbNotes s"
  "loudMap (fst (process frames s)) = loudMap s"
  using process_frame [of frames s] by auto

section \<open>The parameter snapshot\<close>

lemma readOne_field:
  "get_field f (readOne v S base fb) =
     (if (field_index f < 12 \<or> 15 \<le> S) \<and> isFinite (view_get v (base + field_index f))
      then view_get v (base + field_index f) else get_field f fb)"
  by (cases f) (simp_all add: readOne_def get_param_def Let_def)

lemma readParams_installed:
  assumes "paramView s = Some v" "i < 3"
  shows "cursor_params i (readParams s) =
         readOne v (to_int32 (paramStride s)) (int i * to_int32 (paramStride s))
           (cursor_params i (paramsA s, paramsB s, paramsC s))"
proof -
  have "i = 0 \<or> i = 1 \<or> i = 2" using assms(2) by auto
  then show ?thesis using assms(1) by (auto simp: readParams_def Let_def)
qed

text \<open>
  C3, as the code has it. In a block in which a shared parameter plane is installed, each
  field that is read from the plane (fields 0 to 11 always, fields 12 to 14 when the stride
  is at least 15) is tested with \<open>Number.isFinite\<close>; a field whose shared value is not
  finite, or whose slot lies outside the array, takes the value of the same field of the
  cursor's fallback parameter object (\<open>paramsA\<close>, \<open>paramsB\<close>, \<open>paramsC\<close>: the
  constructor defaults as changed by \<open>setParamsAll\<close> and \<open>setParamsFor\<close>), and so do
  fields 12 to 14 under a shorter stride. Hence, if the fallback object holds finite values
  only, every field of the snapshot is finite.
\<close>

theorem readParams_validates_fields:
  assumes "paramView s = Some v" and "i < 3"
  shows "get_field f (cursor_params i (readParams s)) =
     (if (field_index f < 12 \<or> 15 \<le> to_int32 (paramStride s)) \<and>
         isFinite (view_get v (int i * to_int32 (paramStride s) + field_index f))
      then view_get v (int i * to_int32 (paramStride s) + field_index f)
      else get_field f (cursor_params i (paramsA s, paramsB s, paramsC s))) \<and>
     ((\<forall>f'. isFinite (get_field f' (cursor_params i (paramsA s, paramsB s, paramsC s)))) \<longrightarrow>
      isFinite (get_field f (cursor_params i (readParams s))))"
proof -
  have eq: "get_field f (cursor_params i (readParams s)) =
     (if (field_index f < 12 \<or> 15 \<le> to_int32 (paramStride s)) \<and>
         isFinite (view_get v (int i * to_int32 (paramStride s) + field_index f))
      then view_get v (int i * to_int32 (paramStride s) + field_index f)
      else get_field f (cursor_params i (paramsA s, paramsB s, paramsC s)))"
    by (simp only: readParams_installed [OF assms] readOne_field)
  then show ?thesis by auto
qed

lemma to_int32_15: "to_int32 (Fin 15) = 15"
  by (simp add: wrap_int32_def trunc_real_def)

lemma plane_example_0:
  "length plane_example = 45" "plane_example ! 0 = Fin 0.3"
  by (simp_all add: plane_example_def writeParamsToSAB_def Let_def)

lemma engine_with_plane_fields:
  "paramView engine_with_plane = Some plane_example"
  "paramStride engine_with_plane = Fin 15"
  "paramsA engine_with_plane = defaultParams"
  by (simp_all add: engine_with_plane_def construct_fields construct_def)

theorem readParams_validates_fields_witness:
  "get_field F_attack
     (cursor_params 0 (readParams (engine_with_plane\<lparr> paramView := Some (plane_example[0 := NaN]) \<rparr>)))
   = Fin 0.1 \<and>
   isFinite (get_field F_attack
     (cursor_params 0 (readParams (engine_with_plane\<lparr> paramView := Some (plane_example[0 := NaN]) \<rparr>))))"
proof -
  define e where "e = engine_with_plane\<lparr> paramView := Some (plane_example[0 := NaN]) \<rparr>"
  have v: "paramView e = Some (plane_example[0 := NaN])" by (simp add: e_def)
  have st: "to_int32 (paramStride e) = 15"
    by (simp add: e_def engine_with_plane_fields wrap_int32_def trunc_real_def)
  have fb: "cursor_params 0 (paramsA e, paramsB e, paramsC e) = defaultParams"
    by (simp add: e_def engine_with_plane_fields)
  have slot: "view_get (plane_example[0 := NaN]) 0 = NaN"
    by (simp add: view_get_def plane_example_0)
  have fin: "\<forall>f'. isFinite (get_field f' defaultParams)"
  proof
    fix f' show "isFinite (get_field f' defaultParams)"
      by (cases f') (simp_all add: defaultParams_def)
  qed
  have "0 < (3::nat)" by simp
  from readParams_validates_fields [OF v this, of F_attack]
  show ?thesis
    unfolding e_def [symmetric] using st fb slot fin by (simp add: defaultParams_def)
qed

text \<open>
  The claim as stated fails: in a first block the attack of cursor A is read from the plane
  as 0.3, a good value; the writer then stores \<open>NaN\<close> in that slot, and the next block
  uses 0.1, the constructor default of the fallback object, not the last good value 0.3.
\<close>

theorem snapshot_last_good_counterexample:
  "attack (fst (readParams engine_with_plane)) = Fin 0.3 \<and>
   view_get (plane_example[0 := NaN]) 0 = NaN \<and>
   attack (fst (readParams
     ((fst (process 128 engine_with_plane))\<lparr> paramView := Some (plane_example[0 := NaN]) \<rparr>)))
     = Fin 0.1 \<and>
   attack (fst (readParams
     ((fst (process 128 engine_with_plane))\<lparr> paramView := Some (plane_example[0 := NaN]) \<rparr>)))
     \<noteq> attack (fst (readParams engine_with_plane))"
proof -
  have a: "attack (fst (readParams engine_with_plane)) = Fin 0.3"
    by (simp add: readParams_def engine_with_plane_fields to_int32_15 Let_def readOne_def
        get_param_def view_get_def plane_example_0)
  have slot: "view_get (plane_example[0 := NaN]) 0 = NaN"
    by (simp add: view_get_def plane_example_0)
  define e where
    "e = (fst (process 128 engine_with_plane))\<lparr> paramView := Some (plane_example[0 := NaN]) \<rparr>"
  have "paramView e = Some (plane_example[0 := NaN])" "paramStride e = Fin 15"
    "paramsA e = defaultParams"
    by (simp_all add: e_def process_keeps_parameters engine_with_plane_fields)
  then have b: "attack (fst (readParams e)) = Fin 0.1"
    by (simp add: readParams_def to_int32_15 Let_def readOne_def get_param_def slot
        defaultParams_def)
  show ?thesis using a slot b unfolding e_def by simp
qed

section \<open>Spawning a grain\<close>

lemma rnd_const_shift: "(\<lambda>k. rnd_const u (Suc k)) = rnd_const u"
  by (rule ext) (simp add: rnd_const_def)

lemma Math_random_const:
  assumes "rng s = rnd_const u"
  shows "Math_random s = (u, s)"
proof -
  have "s\<lparr> rng := (\<lambda>k. rng s (Suc k)) \<rparr> = s\<lparr> rng := rng s \<rparr>"
    by (simp only: assms rnd_const_shift)
  then show ?thesis by (simp add: Math_random_def assms rnd_const_def)
qed

lemma new_grain_fields:
  "g_cursor (new_grain c p s off sm) = c"
  "g_envPos (new_grain c p s off sm) = 0"
  "g_envLen (new_grain c p s off sm) =
     to_int32 (jmax (Fin 1) (jfloor (r64 (jmul (durSec_of p) (Fin (sampleRateOut s))))))"
  "g_phase (new_grain c p s off sm) = startIndex_of c p s off"
  "g_gainC (new_grain c p s off sm) =
     loudComp_of (loudnessAtIndex (loudMap s) (startIndex_of c p s off))"
  by (simp_all add: new_grain_def Let_def split: prod.splits)

lemma spawnGrain_last:
  assumes "playing s \<or> cursorHasKb c s" "channels s \<noteq> None" "bufferLength s \<noteq> 0"
    "length (grains s) < MAX_GRAINS"
  shows "grains (spawnGrain c p s) =
           grains s @ [new_grain c p s (fst (spawn_offset p s))
                         (fst (nextKbSemis c (snd (spawn_offset p s))))]"
    and "last (grains (spawnGrain c p s)) =
           new_grain c p s (fst (spawn_offset p s))
             (fst (nextKbSemis c (snd (spawn_offset p s))))"
    and "length (grains (spawnGrain c p s)) = length (grains s) + 1"
  by (simp_all add: spawnGrain_spawns [OF assms])

lemma durSec_of_finite:
  assumes "js_or (attack p) (Fin 0) = Fin a" "js_or (release p) (Fin 0) = Fin r"
    "js_or (grainSize p) (Fin 1) = Fin S"
    "\<bar>a\<bar> \<le> 2 ^ 32" "\<bar>r\<bar> \<le> 2 ^ 32" "\<bar>S\<bar> \<le> 2 ^ 32"
  shows "durSec_of p = Fin (max (fl64 0.002) (fl64 (fl64 (a + r) * S)))"
    and "\<bar>fl64 (fl64 (a + r) * S)\<bar> \<le> 2 ^ 65"
proof -
  have ar: "\<bar>a + r\<bar> \<le> 2 ^ 33" using assms(4,5) by simp
  then have "\<bar>a + r\<bar> \<le> 2 ^ 1000" by simp
  then have s: "r64 (Fin (a + r)) = Fin (fl64 (a + r))" by (rule r64_Fin)
  have fs: "\<bar>fl64 (a + r)\<bar> \<le> 2 ^ 33" using ar by (rule fl64_abs_le_power2)
  have "\<bar>fl64 (a + r) * S\<bar> \<le> 2 ^ 33 * 2 ^ 32"
    unfolding abs_mult using fs assms(6) by (intro mult_mono) simp_all
  then have m: "\<bar>fl64 (a + r) * S\<bar> \<le> 2 ^ 65" by simp
  then have "\<bar>fl64 (a + r) * S\<bar> \<le> 2 ^ 1000" by simp
  then have p: "r64 (Fin (fl64 (a + r) * S)) = Fin (fl64 (fl64 (a + r) * S))" by (rule r64_Fin)
  show "durSec_of p = Fin (max (fl64 0.002) (fl64 (fl64 (a + r) * S)))"
    by (simp add: durSec_of_def Let_def assms(1-3) s p)
  show "\<bar>fl64 (fl64 (a + r) * S)\<bar> \<le> 2 ^ 65" using m by (rule fl64_abs_le_power2)
qed

lemma fl64_0002_bounds: "0 \<le> fl64 0.002" "fl64 0.002 \<le> 1"
proof -
  show "0 \<le> fl64 0.002" by (rule fl64_nonneg) simp
  show "fl64 0.002 \<le> 1" using fl64_le_power2 [of "0.002" 0] by simp
qed

lemma trunc_real_of_int: "trunc_real (real_of_int n) = n"
  by (simp add: trunc_real_def)

lemma envFrames_finite:
  assumes "\<bar>d\<bar> \<le> 2 ^ 65" "\<bar>rate\<bar> \<le> 2 ^ 32"
  shows "to_int32 (jmax (Fin 1) (jfloor (r64 (jmul (Fin d) (Fin rate))))) =
         wrap_int32 (max 1 \<lfloor>fl64 (d * rate)\<rfloor>)"
proof -
  have "\<bar>d * rate\<bar> \<le> 2 ^ 65 * 2 ^ 32"
    unfolding abs_mult using assms by (intro mult_mono) simp_all
  then have "\<bar>d * rate\<bar> \<le> 2 ^ 1000" by simp
  then have p: "r64 (Fin (d * rate)) = Fin (fl64 (d * rate))" by (rule r64_Fin)
  have "max 1 (real_of_int \<lfloor>fl64 (d * rate)\<rfloor>) = real_of_int (max 1 \<lfloor>fl64 (d * rate)\<rfloor>)"
    by (simp add: max_def)
  then show ?thesis by (simp add: p trunc_real_of_int)
qed

lemma wrap_int32_id: "- (2 ^ 31) \<le> n \<Longrightarrow> n < 2 ^ 31 \<Longrightarrow> wrap_int32 n = n"
  by (simp add: wrap_int32_def)

lemma spawn_envLen:
  assumes "playing s \<or> cursorHasKb c s" "channels s \<noteq> None" "bufferLength s \<noteq> 0"
    "length (grains s) < MAX_GRAINS"
    and "js_or (attack p) (Fin 0) = Fin a" "js_or (release p) (Fin 0) = Fin r"
    "js_or (grainSize p) (Fin 1) = Fin S"
    and "\<bar>a\<bar> \<le> 2 ^ 32" "\<bar>r\<bar> \<le> 2 ^ 32" "\<bar>S\<bar> \<le> 2 ^ 32"
    and "\<bar>sampleRateOut s\<bar> \<le> 2 ^ 32"
  shows "g_envLen (last (grains (spawnGrain c p s))) =
         wrap_int32 (max 1 \<lfloor>fl64 (max (fl64 0.002) (fl64 (fl64 (a + r) * S)) *
                                   sampleRateOut s)\<rfloor>)"
proof -
  have "\<bar>max (fl64 0.002) (fl64 (fl64 (a + r) * S))\<bar> \<le> 2 ^ 65"
    using durSec_of_finite(2) [OF assms(5-10)] fl64_0002_bounds by (auto simp: max_def)
  then have e: "to_int32 (jmax (Fin 1) (jfloor (r64 (jmul
                   (Fin (max (fl64 0.002) (fl64 (fl64 (a + r) * S))))
                   (Fin (sampleRateOut s)))))) =
        wrap_int32 (max 1 \<lfloor>fl64 (max (fl64 0.002) (fl64 (fl64 (a + r) * S)) *
                                   sampleRateOut s)\<rfloor>)"
    using assms(11) by (rule envFrames_finite)
  have "g_envLen (last (grains (spawnGrain c p s))) =
        to_int32 (jmax (Fin 1) (jfloor (r64 (jmul (durSec_of p) (Fin (sampleRateOut s))))))"
    by (simp add: spawnGrain_last [OF assms(1-4)] new_grain_fields)
  also have "\<dots> = wrap_int32 (max 1 \<lfloor>fl64 (max (fl64 0.002) (fl64 (fl64 (a + r) * S)) *
                                   sampleRateOut s)\<rfloor>)"
    by (simp only: durSec_of_finite(1) [OF assms(5-10)] e)
  finally show ?thesis .
qed

lemma engine_playing_fields:
  "sampleRateOut engine_playing = 48000"
  "playing engine_playing = True"
  "channels engine_playing = Some [replicate 48000 (Fin 0)]"
  "bufferLength engine_playing = 48000"
  "bufferSampleRate engine_playing = Fin 48000"
  "grains engine_playing = []"
  "loudMap engine_playing = None"
  "positions engine_playing = [Fin (fl32 (fl64 0.15)), Fin (fl32 (fl64 0.50)), Fin (fl32 (fl64 0.85))]"
  "rng engine_playing = rnd_const (1 / 2)"
  "kbNotes engine_playing = [[], [], []]"
  "paramView engine_playing = None"
  "paramsA engine_playing = defaultParams"
  "killPending engine_playing = [False, False, False]"
  by (simp_all add: engine_playing_def construct_def)

lemma engine_playing_spawns:
  "playing engine_playing \<or> cursorHasKb c engine_playing"
  "channels engine_playing \<noteq> None"
  "bufferLength engine_playing \<noteq> 0"
  "length (grains engine_playing) < MAX_GRAINS"
  by (simp_all add: engine_playing_fields MAX_GRAINS_def)


text \<open>The numbers of the examples: an attack and a release of an eighth of a second.\<close>

lemma dur_example_2: "max (fl64 0.002) (fl64 (fl64 (1 / 8 + 1 / 8) * 2)) = 1 / 2"
proof -
  have a: "fl64 (1 / 8 + 1 / 8) = 1 / 4"
    using fl64_eval [of "- 2" "1 / 8 + 1 / 8"]
    by (simp add: power_int_minus round_even_def frac_def)
  have b: "fl64 (1 / 4 * 2) = 1 / 2"
    using fl64_eval [of "- 1" "1 / 4 * 2"]
    by (simp add: power_int_minus round_even_def frac_def)
  have c: "fl64 0.002 \<le> 1 / 2"
    using fl64_eval [of "- 9" "0.002"]
    by (simp add: power_int_minus round_even_def frac_def)
  show ?thesis unfolding a b using c by (rule max_absorb2)
qed

lemma frames_example_2: "fl64 24000 = 24000"
  using fl64_eval [of 14 24000]
  by (simp add: power_int_minus round_even_def frac_def)

lemma dur_example_odd:
  "max (fl64 0.002) (fl64 (fl64 (1 / 8 + 1 / 8) * (1 + 1 / 2 ^ 14))) = 16385 / 2 ^ 16"
proof -
  have a: "fl64 (1 / 8 + 1 / 8) = 1 / 4"
    using fl64_eval [of "- 2" "1 / 8 + 1 / 8"]
    by (simp add: power_int_minus round_even_def frac_def)
  have b: "fl64 (1 / 4 * (1 + 1 / 2 ^ 14)) = 16385 / 2 ^ 16"
    using fl64_eval [of "- 2" "1 / 4 * (1 + 1 / 2 ^ 14)"]
    by (simp add: power_int_minus round_even_def frac_def)
  have c: "fl64 0.002 \<le> 16385 / 2 ^ 16"
    using fl64_eval [of "- 9" "0.002"]
    by (simp add: power_int_minus round_even_def frac_def)
  show ?thesis unfolding a b using c by (rule max_absorb2)
qed

lemma frames_example_odd: "\<lfloor>fl64 (16385 / 2 ^ 16 * 48000)\<rfloor> = 12000"
proof -
  have e: "fl64 (16385 / 2 ^ 16 * 48000) = 6144375 / 2 ^ 9"
    using fl64_eval [of 13 "16385 / 2 ^ 16 * 48000"]
    by (simp add: power_int_minus round_even_def frac_def)
  show ?thesis by (simp only: e) simp
qed

text \<open>
  C6, as the code has it. A spawn takes place when the cursor is playing or has a held
  note, a source buffer is set and the pool is not full. Then the duration of the grain is
  \<open>max(0.002, (attack + release) * grain_size)\<close> seconds, computed in doubles for the
  parameters of the snapshot (a \<open>NaN\<close> attack or release counts as 0, a grain size of 0 or
  \<open>NaN\<close> as 1), and the envelope length of the new grain is \<open>max(1, floor(dur * sr_out))\<close>
  frames, the product being the double that the code computes, as stored in the 32-bit pool
  (so without change below \<open>2^31\<close>); its envelope position is 0. The bounds on the
  parameters keep every intermediate result finite.
\<close>

theorem spawn_duration_and_length:
  assumes "playing s \<or> cursorHasKb c s" and "channels s \<noteq> None" and "bufferLength s \<noteq> 0"
    and "length (grains s) < MAX_GRAINS"
    and "js_or (attack p) (Fin 0) = Fin a" and "js_or (release p) (Fin 0) = Fin r"
    and "js_or (grainSize p) (Fin 1) = Fin S"
    and "\<bar>a\<bar> \<le> 2 ^ 32" and "\<bar>r\<bar> \<le> 2 ^ 32" and "\<bar>S\<bar> \<le> 2 ^ 32"
    and "\<bar>sampleRateOut s\<bar> \<le> 2 ^ 32"
    and "dur = max (fl64 0.002) (fl64 (fl64 (a + r) * S))"
  shows "durSec_of p = Fin dur \<and>
         length (grains (spawnGrain c p s)) = length (grains s) + 1 \<and>
         g_envPos (last (grains (spawnGrain c p s))) = 0 \<and>
         g_envLen (last (grains (spawnGrain c p s))) =
           wrap_int32 (max 1 \<lfloor>fl64 (dur * sampleRateOut s)\<rfloor>) \<and>
         (max 1 \<lfloor>fl64 (dur * sampleRateOut s)\<rfloor> < 2 ^ 31 \<longrightarrow>
            g_envLen (last (grains (spawnGrain c p s))) =
              max 1 \<lfloor>fl64 (dur * sampleRateOut s)\<rfloor>)"
proof -
  have d: "durSec_of p = Fin dur"
    unfolding assms(12) using assms(5-10) by (rule durSec_of_finite)
  have n: "length (grains (spawnGrain c p s)) = length (grains s) + 1"
    using assms(1-4) by (rule spawnGrain_last)
  have e0: "g_envPos (last (grains (spawnGrain c p s))) = 0"
    by (simp add: spawnGrain_last [OF assms(1-4)] new_grain_fields)
  have l: "g_envLen (last (grains (spawnGrain c p s))) =
           wrap_int32 (max 1 \<lfloor>fl64 (dur * sampleRateOut s)\<rfloor>)"
    unfolding assms(12) using assms(1-11) by (rule spawn_envLen)
  have "wrap_int32 (max 1 \<lfloor>fl64 (dur * sampleRateOut s)\<rfloor>) =
        max 1 \<lfloor>fl64 (dur * sampleRateOut s)\<rfloor>"
    if "max 1 \<lfloor>fl64 (dur * sampleRateOut s)\<rfloor> < 2 ^ 31"
    using that by (intro wrap_int32_id) simp_all
  then show ?thesis using d n e0 l by simp
qed

lemma eighths_fields:
  "js_or (attack (defaultParams\<lparr> attack := Fin (1 / 8), release := Fin (1 / 8),
      grainSize := Fin S \<rparr>)) (Fin 0) = Fin (1 / 8)"
  "js_or (release (defaultParams\<lparr> attack := Fin (1 / 8), release := Fin (1 / 8),
      grainSize := Fin S \<rparr>)) (Fin 0) = Fin (1 / 8)"
  "S \<noteq> 0 \<Longrightarrow> js_or (grainSize (defaultParams\<lparr> attack := Fin (1 / 8), release := Fin (1 / 8),
      grainSize := Fin S \<rparr>)) (Fin 1) = Fin S"
  by (simp_all add: defaultParams_def)

theorem spawn_duration_and_length_witness:
  "durSec_of (defaultParams\<lparr> attack := Fin (1 / 8), release := Fin (1 / 8),
      grainSize := Fin 2 \<rparr>) = Fin (1 / 2) \<and>
   length (grains (spawnGrain 0 (defaultParams\<lparr> attack := Fin (1 / 8), release := Fin (1 / 8),
      grainSize := Fin 2 \<rparr>) engine_playing)) = 1 \<and>
   g_envLen (last (grains (spawnGrain 0 (defaultParams\<lparr> attack := Fin (1 / 8),
      release := Fin (1 / 8), grainSize := Fin 2 \<rparr>) engine_playing))) = 24000"
proof -
  have b: "\<bar>1 / 8 :: real\<bar> \<le> 2 ^ 32" "\<bar>2 :: real\<bar> \<le> 2 ^ 32"
    "\<bar>sampleRateOut engine_playing\<bar> \<le> 2 ^ 32"
    by (simp_all add: engine_playing_fields)
  have S: "(2 :: real) \<noteq> 0" by simp
  from spawn_duration_and_length [OF engine_playing_spawns eighths_fields(1,2)
      eighths_fields(3) [OF S] b(1) b(1) b(2) b(3) dur_example_2 [symmetric], of 0]
  show ?thesis by (simp add: engine_playing_fields frames_example_2 wrap_int32_def)
qed

text \<open>
  The claim as stated fails: with an attack and a release of an eighth of a second and a
  grain size of \<open>1 + 2^-14\<close> at 48 kHz, the duration times the rate is 12000.732421875
  frames, with no rounding error; the grain gets 12000 frames, the rounded value is 12001.
\<close>

theorem spawn_length_round_counterexample:
  "g_envLen (last (grains (spawnGrain 0 (defaultParams\<lparr> attack := Fin (1 / 8),
      release := Fin (1 / 8), grainSize := Fin (1 + 1 / 2 ^ 14) \<rparr>) engine_playing))) = 12000 \<and>
   round (max 0.002 ((1 / 8 + 1 / 8) * (1 + 1 / 2 ^ 14)) * (48000 :: real)) = 12001"
proof -
  have b: "\<bar>1 / 8 :: real\<bar> \<le> 2 ^ 32" "\<bar>1 + 1 / 2 ^ 14 :: real\<bar> \<le> 2 ^ 32"
    "\<bar>sampleRateOut engine_playing\<bar> \<le> 2 ^ 32"
    by (simp_all add: engine_playing_fields)
  have S: "(1 + 1 / 2 ^ 14 :: real) \<noteq> 0" by simp
  have "g_envLen (last (grains (spawnGrain 0 (defaultParams\<lparr> attack := Fin (1 / 8),
      release := Fin (1 / 8), grainSize := Fin (1 + 1 / 2 ^ 14) \<rparr>) engine_playing))) =
      wrap_int32 (max 1 \<lfloor>fl64 (max (fl64 0.002) (fl64 (fl64 (1 / 8 + 1 / 8) * (1 + 1 / 2 ^ 14))) *
                                   sampleRateOut engine_playing)\<rfloor>)"
    by (rule spawn_envLen [OF engine_playing_spawns eighths_fields(1,2)
      eighths_fields(3) [OF S] b(1) b(1) b(2) b(3)])
  also have "\<dots> = wrap_int32 (max 1 \<lfloor>fl64 (16385 / 2 ^ 16 * 48000)\<rfloor>)"
    by (simp only: dur_example_odd engine_playing_fields)
  also have "\<dots> = 12000"
    by (simp only: frames_example_odd) (simp add: wrap_int32_def)
  finally have x: "g_envLen (last (grains (spawnGrain 0 (defaultParams\<lparr> attack := Fin (1 / 8),
      release := Fin (1 / 8), grainSize := Fin (1 + 1 / 2 ^ 14) \<rparr>) engine_playing))) = 12000" .
  have "round (max 0.002 ((1 / 8 + 1 / 8) * (1 + 1 / 2 ^ 14)) * (48000 :: real)) = 12001"
    by (simp add: round_def)
  then show ?thesis using x by simp
qed
section \<open>Gain compensation of a grain\<close>

lemma loudComp_no_map: "loudComp_of (loudnessAtIndex None t) = Fin (0.12 powr 0.6)"
  by (simp add: loudnessAtIndex_def loudComp_of_def)

lemma loudComp_empty_map:
  "rms m = [] \<Longrightarrow> loudComp_of (loudnessAtIndex (Some m) t) = Fin (0.12 powr 0.6)"
  by (simp add: loudnessAtIndex_def loudComp_of_def)

lemma bucket_index:
  assumes "w \<noteq> 0"
  shows "jmax (Fin 0) (jmin (Fin (real n - 1)) (jfloor (jdiv (Fin t) (Fin w)))) =
         Fin (real_of_int (max 0 (min (int n - 1) \<lfloor>t / w\<rfloor>)))"
proof -
  have "max 0 (min (real n - 1) (real_of_int \<lfloor>t / w\<rfloor>)) =
        real_of_int (max 0 (min (int n - 1) \<lfloor>t / w\<rfloor>))"
    by (simp add: max_def min_def)
  then show ?thesis using assms by simp
qed

lemma loudComp_with_map:
  assumes "rms m \<noteq> []" "win m = Fin w" "w \<noteq> 0"
  shows "loudComp_of (loudnessAtIndex (Some m) (Fin t)) =
         Fin ((0.12 / max (1 / 10 ^ 4)
                 (rms m ! nat (max 0 (min (int (length (rms m)) - 1) \<lfloor>t / w\<rfloor>)))) powr 0.6)"
proof -
  define b where "b = max 0 (min (int (length (rms m)) - 1) \<lfloor>t / w\<rfloor>)"
  have "loudnessAtIndex (Some m) (Fin t) = Fin (max (1 / 10 ^ 4) (rms m ! nat b))"
    using assms(1)
    by (simp add: loudnessAtIndex_def assms(2) bucket_index [OF assms(3)] b_def del: jmax.simps jmin.simps jfloor.simps jdiv.simps)
  moreover have "0 < max (1 / 10 ^ 4) (rms m ! nat b)"
    by (simp add: less_max_iff_disj)
  ultimately show ?thesis by (simp add: loudComp_of_def b_def)
qed

lemma powr_012_06_less_1: "(0.12::real) powr 0.6 < 1"
proof -
  have "(0.12::real) powr 0.6 < 1 powr 0.6"
    by (rule powr_less_mono2) simp_all
  then show ?thesis by simp
qed

text \<open>
  C2, as the code has it. For a spawn that takes place, the gain compensation of the new
  grain is \<open>(0.12 / max(1e-4, rms_at(t0))) ^ 0.6\<close>, where \<open>t0\<close> is the start index of the
  grain (its initial phase, in source frames) and \<open>rms_at(t0)\<close> the entry of the loudness
  map for the window \<open>floor(t0 / win)\<close>, clamped into the map. While no loudness map is
  present (or its \<open>rms\<close> array is empty) the loudness is taken as 1 and the compensation
  is \<open>0.12 ^ 0.6\<close>.
\<close>

theorem spawn_gain_compensation:
  assumes "playing s \<or> cursorHasKb c s" and "channels s \<noteq> None" and "bufferLength s \<noteq> 0"
    and "length (grains s) < MAX_GRAINS"
    and "g = last (grains (spawnGrain c p s))"
  shows "(loudMap s = None \<longrightarrow> g_gainC g = Fin (0.12 powr 0.6)) \<and>
         (\<forall>m. loudMap s = Some m \<and> rms m = [] \<longrightarrow> g_gainC g = Fin (0.12 powr 0.6)) \<and>
         (\<forall>m t w. loudMap s = Some m \<and> rms m \<noteq> [] \<and> g_phase g = Fin t \<and>
                  win m = Fin w \<and> w \<noteq> 0 \<longrightarrow>
            g_gainC g =
              Fin ((0.12 / max (1 / 10 ^ 4)
                      (rms m ! nat (max 0 (min (int (length (rms m)) - 1) \<lfloor>t / w\<rfloor>))))
                   powr 0.6))"
proof -
  define off where "off = fst (spawn_offset p s)"
  define sm where "sm = fst (nextKbSemis c (snd (spawn_offset p s)))"
  have g: "g = new_grain c p s off sm"
    unfolding assms(5) off_def sm_def using assms(1-4) by (rule spawnGrain_last)
  have gc: "g_gainC g = loudComp_of (loudnessAtIndex (loudMap s) (g_phase g))"
    by (simp add: g new_grain_fields)
  show ?thesis
    using gc loudComp_no_map loudComp_empty_map loudComp_with_map by auto
qed

lemma engine_with_map_fields:
  "sampleRateOut engine_with_map = 48000"
  "playing engine_with_map = True"
  "channels engine_with_map = Some [replicate 48000 (Fin 0)]"
  "bufferLength engine_with_map = 48000"
  "bufferSampleRate engine_with_map = Fin 48000"
  "grains engine_with_map = []"
  "loudMap engine_with_map = Some map_example"
  "positions engine_with_map =
     [Fin (fl32 (fl64 0.15)), Fin (fl32 (fl64 0.50)), Fin (fl32 (fl64 0.85))]"
  "rng engine_with_map = rnd_const (1 / 2)"
  by (simp_all add: engine_with_map_def engine_playing_fields)

lemma spawn_offset_half:
  assumes "rng s = rnd_const (1 / 2)"
  shows "fst (spawn_offset defaultParams s) = Fin 0"
  by (simp add: spawn_offset_def Let_def Math_random_const [OF assms] defaultParams_def)

lemma durSec_default: "durSec_of defaultParams = Fin (3602879701896397 / 2 ^ 54)"
proof -
  have a: "fl64 (0.1 + 0.1) = 3602879701896397 / 2 ^ 54"
    using fl64_eval [of "- 3" "0.1 + 0.1"]
    by (simp add: power_int_minus round_even_def frac_def)
  have b: "fl64 (3602879701896397 / 2 ^ 54 * 1) = 3602879701896397 / 2 ^ 54"
    using fl64_eval [of "- 3" "3602879701896397 / 2 ^ 54 * 1"]
    by (simp add: power_int_minus round_even_def frac_def)
  have c: "fl64 0.002 \<le> 3602879701896397 / 2 ^ 54"
    using fl64_eval [of "- 9" "0.002"]
    by (simp add: power_int_minus round_even_def frac_def)
  have d: "max (fl64 0.002) (fl64 (fl64 (0.1 + 0.1) * 1)) = 3602879701896397 / 2 ^ 54"
    unfolding a b using c by (rule max_absorb2)
  have "durSec_of defaultParams = Fin (max (fl64 0.002) (fl64 (fl64 (0.1 + 0.1) * 1)))"
    by (rule durSec_of_finite) (simp_all add: defaultParams_def)
  then show ?thesis by (simp only: d)
qed

lemma startIndex_example:
  assumes "positions s ! 0 = Fin (5033165 / 2 ^ 25)" "bufferLength s = 48000"
    "bufferSampleRate s = Fin 48000"
  shows "startIndex_of 0 defaultParams s (Fin 0) = Fin (5033165 / 2 ^ 25 * 48000)"
  by (simp add: startIndex_of_def Let_def assms durSec_default jsub_def)

theorem spawn_gain_compensation_witness:
  "g_gainC (last (grains (spawnGrain 0 defaultParams engine_with_map))) = Fin (1200 powr 0.6)"
proof -
  have sp: "playing engine_with_map \<or> cursorHasKb 0 engine_with_map"
    "channels engine_with_map \<noteq> None" "bufferLength engine_with_map \<noteq> 0"
    "length (grains engine_with_map) < MAX_GRAINS"
    by (simp_all add: engine_with_map_fields MAX_GRAINS_def)
  define g where "g = last (grains (spawnGrain 0 defaultParams engine_with_map))"
  have "g = new_grain 0 defaultParams engine_with_map
              (fst (spawn_offset defaultParams engine_with_map))
              (fst (nextKbSemis 0 (snd (spawn_offset defaultParams engine_with_map))))"
    unfolding g_def using sp by (rule spawnGrain_last)
  then have g': "g_phase g = startIndex_of 0 defaultParams engine_with_map (Fin 0)"
    by (simp add: new_grain_fields spawn_offset_half engine_with_map_fields)
  define t :: real where "t = 5033165 / 2 ^ 25 * 48000"
  have "positions engine_with_map ! 0 = Fin (5033165 / 2 ^ 25)"
    by (simp only: engine_with_map_fields initial_position_A nth_Cons_0)
  then have ph: "g_phase g = Fin t"
    unfolding g' t_def by (rule startIndex_example) (simp_all add: engine_with_map_fields)
  have m: "loudMap engine_with_map = Some map_example \<and> rms map_example \<noteq> [] \<and>
           g_phase g = Fin t \<and> win map_example = Fin 2048 \<and> (2048::real) \<noteq> 0"
    using ph by (simp add: engine_with_map_fields map_example_def)
  have fl: "\<lfloor>t / 2048 :: real\<rfloor> = 3" by (simp add: t_def)
  from spawn_gain_compensation [OF sp g_def] m
  have "g_gainC g =
          Fin ((0.12 / max (1 / 10 ^ 4)
                  (rms map_example !
                     nat (max 0 (min (int (length (rms map_example)) - 1) \<lfloor>t / 2048 :: real\<rfloor>))))
               powr 0.6)"
    by blast
  then show ?thesis
    unfolding g_def fl by (simp add: map_example_def)
qed

text \<open>
  The claim as stated fails in its second half: the engine with a source and global play
  but no loudness map spawns a grain whose compensation is \<open>0.12 ^ 0.6\<close>, which is below 1.
\<close>

theorem spawn_gain_no_map_counterexample:
  "loudMap engine_playing = None \<and>
   g_gainC (last (grains (spawnGrain 0 defaultParams engine_playing))) = Fin (0.12 powr 0.6) \<and>
   g_gainC (last (grains (spawnGrain 0 defaultParams engine_playing))) \<noteq> Fin 1"
proof -
  have "g_gainC (last (grains (spawnGrain 0 defaultParams engine_playing))) =
        loudComp_of (loudnessAtIndex (loudMap engine_playing)
          (g_phase (last (grains (spawnGrain 0 defaultParams engine_playing)))))"
    by (simp add: spawnGrain_last [OF engine_playing_spawns] new_grain_fields)
  then have "g_gainC (last (grains (spawnGrain 0 defaultParams engine_playing))) =
             Fin (0.12 powr 0.6)"
    by (simp only: engine_playing_fields loudComp_no_map)
  then show ?thesis
    using powr_012_06_less_1 by (simp add: engine_playing_fields)
qed

section \<open>The countdown of a cursor\<close>

lemma ln_2_bounds: "1 / 2 \<le> ln (2::real)" "ln (2::real) \<le> 5 / 6"
proof -
  have "ln (1 / 2 :: real) \<le> 1 / 2 - 1" by (rule ln_le_minus_one) simp
  moreover have "ln (1 / 2 :: real) = - ln 2" by (simp add: ln_div)
  ultimately show "1 / 2 \<le> ln (2::real)" by simp
  have a: "ln (4 / 3 :: real) \<le> 4 / 3 - 1" by (rule ln_le_minus_one) simp
  have b: "ln (3 / 2 :: real) \<le> 3 / 2 - 1" by (rule ln_le_minus_one) simp
  have "ln (2::real) = ln (4 / 3 * (3 / 2))" by simp
  also have "\<dots> = ln (4 / 3) + ln (3 / 2 :: real)" by (rule ln_mult_pos) simp_all
  finally show "ln (2::real) \<le> 5 / 6" using a b by simp
qed

lemma fl64_below_one:
  assumes "0 \<le> x" "x \<le> 7 / 8"
  shows "0 \<le> fl64 x" "fl64 x \<le> 7 / 8"
proof -
  show "0 \<le> fl64 x" using assms(1) by (rule fl64_nonneg)
  have "representable 53 (- 1074) (7 / 8)"
    by (rule representableI [of _ 7 "- 3"]) (simp_all add: power_int_minus)
  then show "fl64 x \<le> 7 / 8"
    unfolding fl64_def using assms(2) by (intro fl_le_repr) simp_all
qed

lemma fl64_1 [simp]: "fl64 1 = 1"
  using fl64_int [of 1] by simp

lemma fl64_half: "fl64 (1 / 2) = 1 / 2"
  using fl64_eval [of "- 1" "1 / 2"]
  by (simp add: power_int_minus round_even_def frac_def)

lemma fl64_48000: "fl64 48000 = 48000"
  using fl64_int [of 48000] by simp

lemma interval_dense: "nextIntervalFramesPoisson 48000 (Fin 48000) (1 / 2) = 1"
proof -
  have "fl64 (1 / 10 ^ 6) \<le> 2 ^ 0" by (rule fl64_le_power2) simp
  then have d: "jmax (Fin (fl64 (1 / 10 ^ 6))) (js_or (Fin 48000) (Fin 0)) = Fin 48000"
    by simp
  have l: "Math_log (1 / 2) = - fl64 (ln 2)"
    by (simp add: Math_log_def ln_div fl64_def fl_minus)
  have ln2: "0 \<le> ln (2::real)" "ln (2::real) \<le> 7 / 8"
    using ln_2_bounds by simp_all
  have a: "0 \<le> fl64 (ln 2)" "fl64 (ln 2) \<le> 7 / 8"
    using ln2 by (rule fl64_below_one)+
  have b: "0 \<le> fl64 (fl64 (ln 2))" "fl64 (fl64 (ln 2)) \<le> 7 / 8"
    using a by (rule fl64_below_one)+
  have "\<lfloor>fl64 (fl64 (ln 2))\<rfloor> = 0" using b by linarith
  then have "safeFloor (fl64 (fl64 (ln 2))) = 1"
    by (simp add: safeFloor_def INT_MAX_def)
  then show ?thesis
    unfolding nextIntervalFramesPoisson_def Let_def d
    by (simp add: fl64_half l)
qed

lemma fl64_ge_int:
  assumes "real_of_int n \<le> x" "\<bar>n\<bar> < 2 ^ 53"
  shows "real_of_int n \<le> fl64 x"
  unfolding fl64_def
proof (rule fl_ge_repr [OF assms(1)], rule representableI [of _ n 0])
  show "real_of_int n = real_of_int n * 2 powi 0" by simp
  show "\<bar>n\<bar> < 2 ^ 53" by (rule assms(2))
  show "- 1074 \<le> (0::int)" by simp
  show "0 < (53::nat)" by simp
qed

lemma fl64_ge_half:
  assumes "1 / 2 \<le> x"
  shows "1 / 2 \<le> fl64 x"
proof -
  have "representable 53 (- 1074) (1 / 2)"
    by (rule representableI [of _ 1 "- 1"]) (simp_all add: power_int_minus)
  then show ?thesis unfolding fl64_def using assms by (intro fl_ge_repr) simp_all
qed

lemma budget_threshold:
  assumes "1 / 2 \<le> c"
  shows "512 \<le> fl64 (fl64 c * real MAX_GRAINS)"
proof -
  have "1 / 2 \<le> fl64 c" using assms by (rule fl64_ge_half)
  then have "real_of_int 512 \<le> fl64 c * real MAX_GRAINS" by (simp add: MAX_GRAINS_def)
  then have "real_of_int 512 \<le> fl64 (fl64 c * real MAX_GRAINS)"
    by (rule fl64_ge_int) simp
  then show ?thesis by simp
qed

lemma spawnBudgetFactor_small:
  assumes "length (grains s) < 512"
  shows "spawnBudgetFactor s = 1"
proof -
  have n: "real (length (grains s)) < 512" using assms by simp
  have "\<not> fl64 (fl64 c * real MAX_GRAINS) \<le> real (length (grains s))" if "1 / 2 \<le> c" for c
    using budget_threshold [OF that] n by linarith
  then show ?thesis by (simp add: spawnBudgetFactor_def Let_def)
qed

lemma spawn_offset_const:
  assumes "rng s = rnd_const u"
  shows "snd (spawn_offset p s) = s"
  by (simp add: spawn_offset_def Let_def Math_random_const [OF assms])

lemma spawnGrain_const:
  assumes "rng s = rnd_const u"
  shows "\<exists>g k. spawnGrain c p s = s\<lparr> grains := g, kbRR := k \<rparr>"
proof (cases "\<not> (playing s \<or> cursorHasKb c s) \<or> channels s = None \<or> bufferLength s = 0 \<or>
    MAX_GRAINS \<le> length (grains s)")
  case True
  then have e: "spawnGrain c p s = s" by (rule spawnGrain_skips)
  have "spawnGrain c p s = s\<lparr> grains := grains s, kbRR := kbRR s \<rparr>"
    by (rule trans [OF e]) simp
  then show ?thesis by blast
next
  case False
  obtain k where s2: "snd (nextKbSemis c s) = s\<lparr> kbRR := k \<rparr>"
    using nextKbSemis_frame by blast
  have "spawnGrain c p s =
     (snd (nextKbSemis c (snd (spawn_offset p s))))
       \<lparr> grains := grains s @
           [new_grain c p s (fst (spawn_offset p s))
              (fst (nextKbSemis c (snd (spawn_offset p s))))] \<rparr>"
    using False by (intro spawnGrain_spawns) auto
  also have "\<dots> = s\<lparr> grains := grains s @
           [new_grain c p s (fst (spawn_offset p s))
              (fst (nextKbSemis c (snd (spawn_offset p s))))], kbRR := k \<rparr>"
    by (simp only: spawn_offset_const [OF assms] s2) simp
  finally show ?thesis by blast
qed

lemma nextInt_const:
  assumes "rng s = rnd_const u"
  shows "nextInt effDen s =
         (nextIntervalFramesPoisson (sampleRateOut s) (jmax (Fin (fl64 0.1)) effDen) u, s)"
  by (simp add: nextInt_def Let_def Math_random_const [OF assms])

lemma sched_loop_capped:
  assumes "rng s = rnd_const u"
    and "nextIntervalFramesPoisson (sampleRateOut s) (jmax (Fin (fl64 0.1)) effDen) u = n"
    and "0 \<le> n" and "spawned \<le> mx"
    and "spawned < mx \<longrightarrow> acc + n * (int (mx - spawned) - 1) \<le> int frames"
  shows "fst (sched_loop frames mx effDen c p acc spawned s) = acc + n * int (mx - spawned)"
  using assms
proof (induction frames mx effDen c p acc spawned s rule: sched_loop.induct)
  case (1 frames mx effDen c p acc spawned s)
  show ?case
  proof (cases "spawned < mx")
    case False
    then have "fst (sched_loop frames mx effDen c p acc spawned s) = acc"
      by (subst sched_loop.simps) simp
    then show ?thesis using False by simp
  next
    case True
    have "0 \<le> n * (int (mx - spawned) - 1)" using True "1.prems"(3) by simp
    then have go: "acc \<le> int frames \<and> spawned < mx" using True "1.prems"(5) by linarith
    define s1 where "s1 = spawnGrain c p s"
    obtain g k where f1: "s1 = s\<lparr> grains := g, kbRR := k \<rparr>"
      unfolding s1_def using spawnGrain_const [OF "1.prems"(1)] by blast
    have r1: "rng s1 = rnd_const u" and sr1: "sampleRateOut s1 = sampleRateOut s"
      by (simp_all add: f1 "1.prems"(1))
    have n1: "nextInt effDen s1 = (n, s1)"
      using nextInt_const [OF r1, of effDen] "1.prems"(2) by (simp add: sr1)
    have step: "sched_loop frames mx effDen c p acc spawned s =
                sched_loop frames mx effDen c p (acc + n) (spawned + 1) s1"
      using go n1 by (subst sched_loop.simps) (simp add: s1_def Let_def)
    have i2: "nextIntervalFramesPoisson (sampleRateOut s1) (jmax (Fin (fl64 0.1)) effDen) u = n"
      using "1.prems"(2) by (simp add: sr1)
    have i4: "spawned + 1 \<le> mx" using True by simp
    have m: "int (mx - spawned) = int (mx - (spawned + 1)) + 1" using True by simp
    have i5: "spawned + 1 < mx \<longrightarrow>
              acc + n + n * (int (mx - (spawned + 1)) - 1) \<le> int frames"
      using "1.prems"(5) True unfolding m by (simp add: algebra_simps)
    have "fst (sched_loop frames mx effDen c p (acc + n) (spawned + 1) s1) =
          acc + n + n * int (mx - (spawned + 1))"
      using "1.IH" [OF go s1_def refl n1 [symmetric] r1 i2 "1.prems"(3) i4 i5] .
    then show ?thesis unfolding step m by (simp add: algebra_simps)
  qed
qed

lemma schedOne_capped:
  assumes "rng s = rnd_const u"
    and "r64 (jmul (jmax (Fin 0) (js_or (density p) (Fin 0))) (Fin budget)) = effDen"
    and "\<not> jle effDen (Fin 0)"
    and "nextIntervalFramesPoisson (sampleRateOut s) (jmax (Fin (fl64 0.1)) effDen) u = n"
    and "0 \<le> n" and "ftn \<le> 0" and "0 < maxSpawnPerBlock s"
    and "n * int (maxSpawnPerBlock s) \<le> int frames"
  shows "fst (schedOne frames budget p ftn c s) = n * (int (maxSpawnPerBlock s) + 1) - int frames"
proof -
  define mx where "mx = maxSpawnPerBlock s"
  have n0: "nextInt effDen s = (n, s)"
    using nextInt_const [OF assms(1), of effDen] assms(4) by simp
  have "n * 1 \<le> n * int mx" using assms(5,7) unfolding mx_def by (intro mult_left_mono) simp_all
  then have le: "n \<le> int frames" using assms(8) unfolding mx_def by simp
  define s2 where "s2 = spawnGrain c p s"
  obtain g k where f2: "s2 = s\<lparr> grains := g, kbRR := k \<rparr>"
    unfolding s2_def using spawnGrain_const [OF assms(1)] by blast
  have r2: "rng s2 = rnd_const u" and sr2: "sampleRateOut s2 = sampleRateOut s"
    by (simp_all add: f2 assms(1))
  have n2: "nextInt effDen s2 = (n, s2)"
    using nextInt_const [OF r2, of effDen] assms(4) by (simp add: sr2)
  have i2: "nextIntervalFramesPoisson (sampleRateOut s2) (jmax (Fin (fl64 0.1)) effDen) u = n"
    using assms(4) by (simp add: sr2)
  have i4: "1 \<le> mx" using assms(7) unfolding mx_def by simp
  have i5: "1 < mx \<longrightarrow> n + n + n * (int (mx - 1) - 1) \<le> int frames"
  proof
    assume "1 < mx"
    then have "n + n + n * (int (mx - 1) - 1) = n * int mx" by (simp add: algebra_simps)
    then show "n + n + n * (int (mx - 1) - 1) \<le> int frames"
      using assms(8) unfolding mx_def by simp
  qed
  have l: "fst (sched_loop frames mx effDen c p (n + n) 1 s2) = n + n + n * int (mx - 1)"
    by (rule sched_loop_capped [OF r2 i2 assms(5) i4 i5])
  have "n + n + n * int (mx - 1) = n * (int mx + 1)" using i4 by (simp add: algebra_simps)
  then have l': "fst (sched_loop frames mx effDen c p (n + n) 1 s2) = n * (int mx + 1)"
    using l by simp
  have "schedOne frames budget p ftn c s =
        (let (acc, spawned, s4) = sched_loop frames mx effDen c p (n + n) 1 s2
         in (acc - int frames, s4))"
    unfolding schedOne_def Let_def assms(2) mx_def [symmetric]
    using assms(3,6) le n0 n2 by (simp add: s2_def)
  then have "fst (schedOne frames budget p ftn c s) =
             fst (sched_loop frames mx effDen c p (n + n) 1 s2) - int frames"
    by (simp split: prod.splits)
  then show ?thesis using l' by (simp add: mx_def)
qed

lemma schedule_block_countdown_A:
  assumes "playing s \<or> cursorHasKb 0 s"
  shows "framesToNextGrainA (schedule_block frames pA pB pC s) =
         fst (schedOne frames (spawnBudgetFactor s) pA (framesToNextGrainA s) 0 s)"
proof -
  define budget where "budget = spawnBudgetFactor s"
  define sA where "sA = (if playing s \<or> cursorHasKb 0 s
                then (let (c, s') = schedOne frames budget pA (framesToNextGrainA s) 0 s
                      in s'\<lparr> framesToNextGrainA := c \<rparr>)
                else s\<lparr> framesToNextGrainA := max 0 (framesToNextGrainA s - int frames) \<rparr>)"
  define sB where "sB = (if playing sA \<or> cursorHasKb 1 s
                then (let (c, s') = schedOne frames budget pB (framesToNextGrainB sA) 1 sA
                      in s'\<lparr> framesToNextGrainB := c \<rparr>)
                else sA\<lparr> framesToNextGrainB := max 0 (framesToNextGrainB sA - int frames) \<rparr>)"
  define sC where "sC = (if playing sB \<or> cursorHasKb 2 s
                then (let (c, s') = schedOne frames budget pC (framesToNextGrainC sB) 2 sB
                      in s'\<lparr> framesToNextGrainC := c \<rparr>)
                else sB\<lparr> framesToNextGrainC := max 0 (framesToNextGrainC sB - int frames) \<rparr>)"
  have eq: "schedule_block frames pA pB pC s = sC"
    unfolding sC_def sB_def sA_def budget_def schedule_block_def Let_def by (rule refl)
  obtain gB rB kB b where fB:
    "sB = sA\<lparr> framesToNextGrainB := b, grains := gB, rng := rB, kbRR := kB \<rparr>"
    using sched_cursor_frame [of sB _ frames budget pB "framesToNextGrainB sA" 1 sA
        "\<lambda>c s. s\<lparr> framesToNextGrainB := c \<rparr>", OF sB_def]
    by auto
  obtain gC rC kC c where fC:
    "sC = sB\<lparr> framesToNextGrainC := c, grains := gC, rng := rC, kbRR := kC \<rparr>"
    using sched_cursor_frame [of sC _ frames budget pC "framesToNextGrainC sB" 2 sB
        "\<lambda>c s. s\<lparr> framesToNextGrainC := c \<rparr>", OF sC_def]
    by auto
  have "framesToNextGrainA sC = framesToNextGrainA sA" by (simp add: fC fB)
  also have "\<dots> = fst (schedOne frames budget pA (framesToNextGrainA s) 0 s)"
    using assms by (simp add: sA_def split: prod.splits)
  finally show ?thesis unfolding eq budget_def .
qed

lemma process_countdown_A:
  assumes "process_head frames s = ((pA, pB, pC), s1, posted)" "\<not> audio_gate_closed s1"
  shows "framesToNextGrainA (fst (process frames s)) =
         framesToNextGrainA (schedule_block frames pA pB pC s1)"
proof -
  define s2 where "s2 = schedule_block frames pA pB pC s1"
  obtain g3 where f3: "softKill s2 = s2\<lparr> grains := g3 \<rparr>"
    using softKill_frame by blast
  obtain kp where f4: "resetKill (softKill s2) = (softKill s2)\<lparr> killPending := kp \<rparr>"
    using resetKill_frame by blast
  have "fst (process frames s) = render_grains frames (resetKill (softKill s2))"
    using assms by (simp add: process_def Let_def s2_def)
  then have "framesToNextGrainA (fst (process frames s)) =
             framesToNextGrainA (resetKill (softKill s2))"
    by (simp add: render_grains_def)
  also have "\<dots> = framesToNextGrainA (softKill s2)" by (subst f4) simp
  also have "\<dots> = framesToNextGrainA s2" by (subst f3) simp
  finally show ?thesis unfolding s2_def .
qed

lemma engine_dense_fields:
  "sampleRateOut engine_dense = 48000"
  "playing engine_dense = True"
  "channels engine_dense = Some [replicate 48000 (Fin 0)]"
  "bufferLength engine_dense = 48000"
  "grains engine_dense = []"
  "rng engine_dense = rnd_const (1 / 2)"
  "paramView engine_dense = None"
  "paramsA engine_dense = defaultParams\<lparr> density := Fin 48000 \<rparr>"
  "framesToNextGrainA engine_dense = 0"
  "maxSpawnPerBlock engine_dense = 32"
proof -
  have "fl64 (32 * fl64 (48000 / 48000)) = 32"
    using fl64_int [of 32] by simp
  then have m: "maxSpawnPerBlock (construct 48000 (rnd_const (1 / 2))) = 32"
    unfolding construct_def by simp
  have f: "framesToNextGrainA (construct 48000 (rnd_const (1 / 2))) = 0"
    unfolding construct_def by simp
  show "sampleRateOut engine_dense = 48000"
    "playing engine_dense = True"
    "channels engine_dense = Some [replicate 48000 (Fin 0)]"
    "bufferLength engine_dense = 48000"
    "grains engine_dense = []"
    "rng engine_dense = rnd_const (1 / 2)"
    "paramView engine_dense = None"
    "paramsA engine_dense = defaultParams\<lparr> density := Fin 48000 \<rparr>"
    by (simp_all add: engine_dense_def engine_playing_fields assign_params_def)
  show "framesToNextGrainA engine_dense = 0"
    by (simp add: engine_dense_def engine_playing_def f)
  show "maxSpawnPerBlock engine_dense = 32"
    by (simp add: engine_dense_def engine_playing_def m)
qed

text \<open>
  C4. The claim fails where it says it holds: in a block in which the spawn cap ends the
  loop of \<open>schedOne\<close>, the countdown returned is \<open>acc - frames\<close> with \<open>acc\<close> still at
  most \<open>frames\<close>. The engine at 48 kHz with a source, global play and a density of 48000
  for cursor A draws intervals of one frame (\<open>Math.random()\<close> returning 1/2); in a block
  of 128 frames the cap of 32 spawns is reached with \<open>acc = 33\<close>, and the countdown of
  cursor A stored after the block is \<open>-95\<close>.
\<close>

theorem countdown_negative_at_cap:
  "framesToNextGrainA (fst (process 128 engine_dense)) = - 95"
proof -
  obtain ps s1 posted where h: "process_head 128 engine_dense = (ps, s1, posted)"
    by (metis prod_cases3)
  have ps: "ps = (defaultParams\<lparr> density := Fin 48000 \<rparr>, paramsB engine_dense,
                  paramsC engine_dense)"
    using h by (auto simp: process_head_def Let_def readParams_def engine_dense_fields
        split: prod.splits)
  obtain P V where f1: "s1 = engine_dense\<lparr> positions := P, vizCounter := V \<rparr>"
    using process_head_frame [of 128 engine_dense] h by auto
  have s1: "sampleRateOut s1 = 48000" "playing s1" "channels s1 \<noteq> None" "bufferLength s1 \<noteq> 0"
    "grains s1 = []" "rng s1 = rnd_const (1 / 2)" "framesToNextGrainA s1 = 0"
    "maxSpawnPerBlock s1 = 32"
    by (simp_all add: f1 engine_dense_fields)
  have gate: "\<not> audio_gate_closed s1"
    using s1 by (simp add: audio_gate_closed_def Let_def)
  have b: "spawnBudgetFactor s1 = 1"
    by (rule spawnBudgetFactor_small) (simp add: s1)
  have e: "r64 (jmul (jmax (Fin 0) (js_or (density (defaultParams\<lparr> density := Fin 48000 \<rparr>))
             (Fin 0))) (Fin 1)) = Fin 48000"
    using r64_Fin [of 48000] by (simp add: fl64_48000)
  have "fl64 0.1 \<le> 2 ^ 0" by (rule fl64_le_power2) simp
  then have d: "jmax (Fin (fl64 0.1)) (Fin 48000) = Fin 48000" by simp
  have i: "nextIntervalFramesPoisson (sampleRateOut s1) (jmax (Fin (fl64 0.1)) (Fin 48000))
             (1 / 2) = 1"
    unfolding d s1(1) by (rule interval_dense)
  have "fst (schedOne 128 1 (defaultParams\<lparr> density := Fin 48000 \<rparr>) 0 0 s1) =
        1 * (int (maxSpawnPerBlock s1) + 1) - int 128"
    by (rule schedOne_capped [OF s1(6) e _ i]) (simp_all add: s1)
  then have so: "fst (schedOne 128 1 (defaultParams\<lparr> density := Fin 48000 \<rparr>) 0 0 s1) = - 95"
    by (simp add: s1)
  have "framesToNextGrainA (fst (process 128 engine_dense)) =
        framesToNextGrainA (schedule_block 128 (defaultParams\<lparr> density := Fin 48000 \<rparr>)
          (paramsB engine_dense) (paramsC engine_dense) s1)"
    by (rule process_countdown_A [OF h [unfolded ps] gate])
  also have "\<dots> = fst (schedOne 128 (spawnBudgetFactor s1)
                      (defaultParams\<lparr> density := Fin 48000 \<rparr>) (framesToNextGrainA s1) 0 s1)"
    by (rule schedule_block_countdown_A) (simp add: s1)
  also have "\<dots> = - 95" unfolding b s1(7) by (rule so)
  finally show ?thesis .
qed
section \<open>Soft kill\<close>






















end
